(* ===== verification/Prelude.thy ===== *)
theory Prelude
  imports Complex_Main "HOL-Library.Char_ord"
begin

text \<open>
  Prelude of the NexusFlow development: the collections of rewrite rules the components
  share, results of fallible code, ASCII text operations that both halves of the program
  use (\<open>toLowerCase\<close>/\<open>lower\<close>, \<open>toUpperCase\<close>/\<open>upper\<close>, \<open>trim\<close>, \<open>split\<close>, decimal
  printing), and lemmas on lists and options.

  Strings are \<open>char list\<close>; case conversion and white space are those of ASCII, so text
  outside ASCII is left as it is.
\<close>

text \<open>An identifier is the canonical text of a UUID.\<close>

type_synonym uuid = string

named_theorems text_ops "unfolding rules of the text operations"
named_theorems page_ops "unfolding rules of page handlers"
named_theorems db_ops "unfolding rules of database operations"

section \<open>Results\<close>

text \<open>A fallible computation returns \<open>Inl\<close> of its error or \<open>Inr\<close> of its result.\<close>

fun and_then :: "'e + 'a \<Rightarrow> ('a \<Rightarrow> 'e + 'b) \<Rightarrow> 'e + 'b" where
  "and_then (Inl e) f = Inl e"
| "and_then (Inr x) f = f x"

fun map_ok :: "('a \<Rightarrow> 'b) \<Rightarrow> 'e + 'a \<Rightarrow> 'e + 'b" where
  "map_ok f (Inl e) = Inl e"
| "map_ok f (Inr x) = Inr (f x)"

text \<open>A loop whose body may fail stops at the first error.\<close>

fun map_results :: "('a \<Rightarrow> 'e + 'b) \<Rightarrow> 'a list \<Rightarrow> 'e + 'b list" where
  "map_results f [] = Inr []"
| "map_results f (x # xs) =
     and_then (f x) (\<lambda>y. map_ok (\<lambda>ys. y # ys) (map_results f xs))"

lemma and_then_Inr_iff: "and_then r f = Inr y \<longleftrightarrow> (\<exists>x. r = Inr x \<and> f x = Inr y)"
  by (cases r) auto

lemma map_ok_Inr_iff: "map_ok f r = Inr y \<longleftrightarrow> (\<exists>x. r = Inr x \<and> y = f x)"
  by (cases r) auto

lemma map_results_Inr:
  "(\<And>x. x \<in> set xs \<Longrightarrow> f x = Inr (g x)) \<Longrightarrow> map_results f xs = Inr (map g xs)"
  by (induction xs) auto

lemma map_results_length: "map_results f xs = Inr ys \<Longrightarrow> length ys = length xs"
  by (induction xs arbitrary: ys) (auto simp: and_then_Inr_iff map_ok_Inr_iff)

lemma map_results_nth:
  "map_results f xs = Inr ys \<Longrightarrow> i < length xs \<Longrightarrow> f (xs ! i) = Inr (ys ! i)"
proof (induction xs arbitrary: ys i)
  case Nil
  then show ?case by simp
next
  case (Cons x xs)
  then obtain y zs where "f x = Inr y" "map_results f xs = Inr zs" "ys = y # zs"
    by (auto simp: and_then_Inr_iff map_ok_Inr_iff)
  with Cons show ?case by (cases i) auto
qed

section \<open>Text\<close>

definition lower_char :: "char \<Rightarrow> char" where
  "lower_char c = (let n = (of_char c :: nat) in if 65 \<le> n \<and> n \<le> 90 then char_of (n + 32) else c)"

definition upper_char :: "char \<Rightarrow> char" where
  "upper_char c = (let n = (of_char c :: nat) in if 97 \<le> n \<and> n \<le> 122 then char_of (n - 32) else c)"

definition to_lower :: "string \<Rightarrow> string" where
  "to_lower s = map lower_char s"

definition to_upper :: "string \<Rightarrow> string" where
  "to_upper s = map upper_char s"

definition is_space :: "char \<Rightarrow> bool" where
  "is_space c = (let n = (of_char c :: nat) in n = 32 \<or> (9 \<le> n \<and> n \<le> 13))"

definition trim :: "string \<Rightarrow> string" where
  "trim s = rev (dropWhile is_space (rev (dropWhile is_space s)))"

text \<open>\<open>s.split(c)\<close>: the parts between the separators, at least one.\<close>

fun split_at :: "char \<Rightarrow> string \<Rightarrow> string list" where
  "split_at c [] = [[]]"
| "split_at c (x # xs) =
     (if x = c then [] # split_at c xs
      else case split_at c xs of [] \<Rightarrow> [[x]] | p # ps \<Rightarrow> (x # p) # ps)"

definition digit_char :: "nat \<Rightarrow> char" where
  "digit_char d = char_of (48 + d)"

fun show_nat :: "nat \<Rightarrow> string" where
  "show_nat n = (if n < 10 then [digit_char n] else show_nat (n div 10) @ [digit_char (n mod 10)])"

declare show_nat.simps [simp del]

definition replace_char :: "char \<Rightarrow> char \<Rightarrow> string \<Rightarrow> string" where
  "replace_char a b s = map (\<lambda>c. if c = a then b else c) s"

lemmas [text_ops] = to_lower_def lower_char_def to_upper_def upper_char_def trim_def is_space_def

lemma show_nat_nonempty: "show_nat n \<noteq> []"
  by (subst show_nat.simps) simp

lemma split_at_nonempty: "split_at c s \<noteq> []"
  by (induction s) (auto split: list.splits)

lemma trim_empty_iff: "trim s = [] \<longleftrightarrow> list_all is_space s"
proof -
  have "trim s = [] \<longleftrightarrow> (\<forall>c \<in> set (dropWhile is_space s). is_space c)"
    by (simp add: trim_def)
  also have "\<dots> \<longleftrightarrow> dropWhile is_space s = []"
    by (metis dropWhile_eq_Nil_conv hd_dropWhile hd_in_set empty_iff list.set(1))
  finally show ?thesis by (simp add: list_all_iff)
qed

lemma trim_nonempty: "trim s \<noteq> [] \<Longrightarrow> s \<noteq> []"
  by (auto simp: trim_empty_iff)

lemma lower_char_idem: "lower_char (lower_char c) = lower_char c"
  by (simp add: lower_char_def Let_def)

lemma to_lower_idem [simp]: "to_lower (to_lower s) = to_lower s"
  by (simp add: to_lower_def lower_char_idem)

section \<open>Lists and options\<close>

lemma find_Some_set: "find P xs = Some x \<Longrightarrow> x \<in> set xs \<and> P x"
  by (induction xs) (auto split: if_splits)

lemma find_distinct:
  assumes "distinct (map f xs)" and "i < length xs"
  shows "find (\<lambda>x. f x = f (xs ! i)) xs = Some (xs ! i)"
  using assms
proof (induction xs arbitrary: i)
  case Nil
  then show ?case by simp
next
  case (Cons x xs)
  show ?case
  proof (cases i)
    case 0
    then show ?thesis by simp
  next
    case (Suc j)
    with Cons.prems have "f x \<noteq> f (xs ! j)" by auto
    with Suc Cons show ?thesis by auto
  qed
qed

lemma find_map_eq: "find P (map f xs) = map_option f (find (P \<circ> f) xs)"
  by (induction xs) auto

lemma find_cong_set: "(\<And>x. x \<in> set xs \<Longrightarrow> P x = Q x) \<Longrightarrow> find P xs = find Q xs"
  by (induction xs) auto

lemma filter_commute: "filter P (filter Q xs) = filter Q (filter P xs)"
  by (simp add: conj_commute)

lemma filter_remove1_length:
  "x \<in> set xs \<Longrightarrow> length (filter P (remove1 x xs)) = length (filter P xs) - (if P x then 1 else 0)"
  by (simp add: filter_remove1 length_remove1 remove1_idem)

end
