(* ===== verification/Json.thy ===== *)
theory Json
  imports Prelude
begin

text \<open>
  JSON values as both halves of the program see them. JavaScript code that reads an untyped
  value (\<open>any\<close>) works on \<open>json option\<close>: \<open>None\<close> is \<open>undefined\<close>, the value of a missing
  property. Python code reads a dictionary with \<open>get\<close>, where a missing key and \<open>null\<close>
  are both \<open>None\<close>. A number is a rational: every finite JavaScript number and every Python
  integer or finite float is one (NaN and the infinities have no JSON text).
\<close>

datatype json =
    JNull
  | JBool bool
  | JNum rat
  | JStr string
  | JArr "json list"
  | JObj "(string \<times> json) list"

datatype js_error = TypeError | SyntaxError

section \<open>JavaScript reads\<close>

text \<open>\<open>v.k\<close>: reading a property of \<open>undefined\<close> or \<open>null\<close> throws; any other value that has
  no such own property gives \<open>undefined\<close>. \<open>v?.k\<close> gives \<open>undefined\<close> instead of throwing.\<close>

fun js_prop :: "string \<Rightarrow> json option \<Rightarrow> js_error + json option" where
  "js_prop k None = Inl TypeError"
| "js_prop k (Some JNull) = Inl TypeError"
| "js_prop k (Some (JObj kvs)) = Inr (map_of kvs k)"
| "js_prop k (Some v) = Inr None"

fun js_truthy :: "json option \<Rightarrow> bool" where
  "js_truthy None = False"
| "js_truthy (Some JNull) = False"
| "js_truthy (Some (JBool b)) = b"
| "js_truthy (Some (JNum n)) = (n \<noteq> 0)"
| "js_truthy (Some (JStr s)) = (s \<noteq> '''')"
| "js_truthy (Some (JArr xs)) = True"
| "js_truthy (Some (JObj kvs)) = True"

text \<open>\<open>a || b\<close> on values.\<close>

definition js_or :: "json option \<Rightarrow> json option \<Rightarrow> json option" where
  "js_or a b = (if js_truthy a then a else b)"

text \<open>\<open>v.toLowerCase()\<close>: only strings have the method.\<close>

fun js_to_lower :: "json option \<Rightarrow> js_error + json option" where
  "js_to_lower (Some (JStr s)) = Inr (Some (JStr (to_lower s)))"
| "js_to_lower v = Inl TypeError"

text \<open>\<open>v?.toLowerCase()\<close>: \<open>undefined\<close> for \<open>undefined\<close> and \<open>null\<close>.\<close>

fun js_opt_to_lower :: "json option \<Rightarrow> js_error + json option" where
  "js_opt_to_lower None = Inr None"
| "js_opt_to_lower (Some JNull) = Inr None"
| "js_opt_to_lower v = js_to_lower v"

text \<open>\<open>v.map(\<dots>)\<close> needs an array.\<close>

fun js_array :: "json option \<Rightarrow> js_error + json list" where
  "js_array (Some (JArr xs)) = Inr xs"
| "js_array v = Inl TypeError"

text \<open>An object literal as it is sent: \<open>JSON.stringify\<close> drops the keys whose value is
  \<open>undefined\<close>.\<close>

definition js_object :: "(string \<times> json option) list \<Rightarrow> json" where
  "js_object kvs = JObj (List.map_filter (\<lambda>(k, v). map_option (Pair k) v) kvs)"

section \<open>Python reads\<close>

fun py_get :: "string \<Rightarrow> (string \<times> json) list \<Rightarrow> json" where
  "py_get k kvs = (case map_of kvs k of None \<Rightarrow> JNull | Some v \<Rightarrow> v)"

text \<open>Python truth: \<open>None\<close>, \<open>False\<close>, zero and empty strings, lists and dicts are false.\<close>

fun py_truthy :: "json \<Rightarrow> bool" where
  "py_truthy JNull = False"
| "py_truthy (JBool b) = b"
| "py_truthy (JNum n) = (n \<noteq> 0)"
| "py_truthy (JStr s) = (s \<noteq> '''')"
| "py_truthy (JArr xs) = (xs \<noteq> [])"
| "py_truthy (JObj kvs) = (kvs \<noteq> [])"

lemma js_object_Nil [simp]: "js_object [] = JObj []"
  by (simp add: js_object_def List.map_filter_def)

lemma js_object_Some [simp]:
  "js_object ((k, Some v) # kvs) = (case js_object kvs of JObj r \<Rightarrow> JObj ((k, v) # r) | j \<Rightarrow> j)"
  by (simp add: js_object_def List.map_filter_def)

lemma js_object_None [simp]: "js_object ((k, None) # kvs) = js_object kvs"
  by (simp add: js_object_def List.map_filter_def)

end
