(* ===== verification/JsonText.thy ===== *)
theory JsonText
  imports Json
begin

text \<open>
  JSON text as the two blueprint editors use it: \<open>JSON.parse(s)\<close> and
  \<open>JSON.stringify(v, null, 2)\<close>. Text is cut into tokens by a character machine and the tokens
  are read by a machine with a stack of open arrays and objects, so both are structural
  recursions that always return; malformed text gives a \<open>SyntaxError\<close>. Strings are byte strings
  in UTF-8. Numbers are read exactly, where the browser would round to a double, and printed when
  they are integers or finite decimals.
\<close>

section \<open>Numbers\<close>

definition is_digit :: "char \<Rightarrow> bool" where
  "is_digit c = (let n = (of_char c :: nat) in 48 \<le> n \<and> n \<le> 57)"

definition digit_value :: "char \<Rightarrow> nat" where
  "digit_value c = (of_char c :: nat) - 48"

definition dec_value :: "string \<Rightarrow> nat" where
  "dec_value s = foldl (\<lambda>n c. 10 * n + digit_value c) 0 s"

text \<open>The parts of a number: fraction and exponent are optional, an integer part has no leading
  zero.\<close>

definition int_part_ok :: "string \<Rightarrow> bool" where
  "int_part_ok s = (s \<noteq> [] \<and> (hd s = CHR ''0'' \<longrightarrow> length s = 1))"

fun parse_exponent :: "string \<Rightarrow> int option" where
  "parse_exponent [] = Some 0"
| "parse_exponent (c # s) =
     (if c \<noteq> CHR ''e'' \<and> c \<noteq> CHR ''E'' then None
      else let neg = (s \<noteq> [] \<and> hd s = CHR ''-''); signed = (s \<noteq> [] \<and> (hd s = CHR ''-'' \<or> hd s = CHR ''+''));
               ds = (if signed then tl s else s)
           in if ds \<noteq> [] \<and> list_all is_digit ds
              then Some (if neg then - int (dec_value ds) else int (dec_value ds)) else None)"

definition scale10 :: "rat \<Rightarrow> int \<Rightarrow> rat" where
  "scale10 q e = (if 0 \<le> e then q * 10 ^ nat e else q / 10 ^ nat (- e))"

definition parse_unsigned :: "string \<Rightarrow> rat option" where
  "parse_unsigned s =
     (let ip = takeWhile is_digit s; r = dropWhile is_digit s;
          fp = (if r \<noteq> [] \<and> hd r = CHR ''.'' then takeWhile is_digit (tl r) else []);
          r' = (if r \<noteq> [] \<and> hd r = CHR ''.'' then dropWhile is_digit (tl r) else r)
      in if int_part_ok ip \<and> (r \<noteq> [] \<and> hd r = CHR ''.'' \<longrightarrow> fp \<noteq> [])
         then map_option (\<lambda>e. scale10 (of_nat (dec_value (ip @ fp))) (e - int (length fp))) (parse_exponent r')
         else None)"

definition parse_number :: "string \<Rightarrow> rat option" where
  "parse_number s =
     (if s \<noteq> [] \<and> hd s = CHR ''-'' then map_option uminus (parse_unsigned (tl s)) else parse_unsigned s)"

definition show_int :: "int \<Rightarrow> string" where
  "show_int i = (if i < 0 then CHR ''-'' # show_nat (nat (- i)) else show_nat (nat i))"

text \<open>A finite decimal with \<open>k\<close> fraction digits; \<open>k\<close> is the least that is enough.\<close>

definition fraction_digits :: "rat \<Rightarrow> nat" where
  "fraction_digits q = (case find (\<lambda>k. snd (quotient_of q) dvd 10 ^ k) [0..<400] of None \<Rightarrow> 0 | Some k \<Rightarrow> k)"

definition show_number :: "rat \<Rightarrow> string" where
  "show_number q =
     (if snd (quotient_of q) = 1 then show_int (fst (quotient_of q))
      else let k = fraction_digits q; n = nat \<lfloor>\<bar>q\<bar> * 10 ^ k\<rfloor>; ds = show_nat (n mod 10 ^ k)
           in (if q < 0 then ''-'' else '''') @ show_nat (n div 10 ^ k) @ ''.'' @
              replicate (k - length ds) (CHR ''0'') @ ds)"

section \<open>Tokens\<close>

datatype token = TLBrace | TRBrace | TLBracket | TRBracket | TComma | TColon | TStr string | TLit json

text \<open>The characters of numbers and of \<open>true\<close>, \<open>false\<close>, \<open>null\<close>.\<close>

definition word_char :: "char \<Rightarrow> bool" where
  "word_char c = (let n = (of_char c :: nat) in
     (48 \<le> n \<and> n \<le> 57) \<or> (65 \<le> n \<and> n \<le> 90) \<or> (97 \<le> n \<and> n \<le> 122) \<or> n \<in> {43, 45, 46})"

definition word_value :: "string \<Rightarrow> json option" where
  "word_value w = (if w = ''true'' then Some (JBool True) else if w = ''false'' then Some (JBool False)
     else if w = ''null'' then Some JNull else map_option JNum (parse_number w))"

definition hex_digit_value :: "char \<Rightarrow> nat option" where
  "hex_digit_value c = (let n = (of_char c :: nat) in
     if 48 \<le> n \<and> n \<le> 57 then Some (n - 48) else if 65 \<le> n \<and> n \<le> 70 then Some (n - 55)
     else if 97 \<le> n \<and> n \<le> 102 then Some (n - 87) else None)"

text \<open>A UTF-16 code unit in UTF-8.\<close>

definition utf8 :: "nat \<Rightarrow> string" where
  "utf8 n = (if n < 128 then [char_of n]
     else if n < 2048 then [char_of (192 + n div 64), char_of (128 + n mod 64)]
     else [char_of (224 + n div 4096), char_of (128 + n div 64 mod 64), char_of (128 + n mod 64)])"

definition unescape :: "char \<Rightarrow> char option" where
  "unescape c = map_of
     [(CHR 0x22, CHR 0x22), (CHR 0x5C, CHR 0x5C), (CHR ''/'', CHR ''/''), (CHR ''b'', CHR 0x08),
      (CHR ''f'', CHR 0x0C), (CHR ''n'', CHR 0x0A), (CHR ''r'', CHR 0x0D), (CHR ''t'', CHR 0x09)] c"

datatype lex_mode = Plain | Word string | Quoted string | Escaped string | Hex string nat nat

text \<open>What a character does between tokens.\<close>

definition open_char :: "char \<Rightarrow> (token list \<times> lex_mode) option" where
  "open_char c =
     (if c = CHR '' '' \<or> c = CHR 0x0A \<or> c = CHR 0x0D \<or> c = CHR 0x09 then Some ([], Plain)
      else if c = CHR 0x22 then Some ([], Quoted [])
      else if word_char c then Some ([], Word [c])
      else map_option (\<lambda>t. ([t], Plain)) (map_of [(CHR 0x7B, TLBrace), (CHR 0x7D, TRBrace),
        (CHR 0x5B, TLBracket), (CHR 0x5D, TRBracket), (CHR '','', TComma), (CHR '':'', TColon)] c))"

definition emit :: "token list \<Rightarrow> token list option \<Rightarrow> token list option" where
  "emit ts r = map_option (\<lambda>us. ts @ us) r"

fun lex :: "lex_mode \<Rightarrow> string \<Rightarrow> token list option" where
  "lex Plain [] = Some []"
| "lex (Word w) [] = map_option (\<lambda>j. [TLit j]) (word_value (rev w))"
| "lex (Quoted s) [] = None"
| "lex (Escaped s) [] = None"
| "lex (Hex s k n) [] = None"
| "lex Plain (c # cs) = (case open_char c of None \<Rightarrow> None | Some (ts, m) \<Rightarrow> emit ts (lex m cs))"
| "lex (Word w) (c # cs) =
     (if word_char c then lex (Word (c # w)) cs
      else case word_value (rev w) of None \<Rightarrow> None
        | Some j \<Rightarrow> (case open_char c of None \<Rightarrow> None | Some (ts, m) \<Rightarrow> emit (TLit j # ts) (lex m cs)))"
| "lex (Quoted s) (c # cs) =
     (if c = CHR 0x22 then emit [TStr (rev s)] (lex Plain cs)
      else if c = CHR 0x5C then lex (Escaped s) cs
      else if (of_char c :: nat) < 32 then None else lex (Quoted (c # s)) cs)"
| "lex (Escaped s) (c # cs) =
     (if c = CHR ''u'' then lex (Hex s 0 0) cs
      else case unescape c of None \<Rightarrow> None | Some d \<Rightarrow> lex (Quoted (d # s)) cs)"
| "lex (Hex s k n) (c # cs) =
     (case hex_digit_value c of None \<Rightarrow> None
      | Some d \<Rightarrow> if k = 3 then lex (Quoted (rev (utf8 (16 * n + d)) @ s)) cs
                  else lex (Hex s (k + 1) (16 * n + d)) cs)"

section \<open>Parsing\<close>

datatype frame = InArr "json list" | InObj "(string \<times> json) list" | InVal string "(string \<times> json) list"

datatype expect = Value | ValueOrClose | Key | KeyOrClose | ColonAfter string | CommaOrClose | Finished json

text \<open>A repeated key keeps its place and takes the last value.\<close>

fun set_key :: "string \<Rightarrow> json \<Rightarrow> (string \<times> json) list \<Rightarrow> (string \<times> json) list" where
  "set_key k v [] = [(k, v)]"
| "set_key k v ((k', v') # kvs) = (if k = k' then (k, v) # kvs else (k', v') # set_key k v kvs)"

fun deliver :: "json \<Rightarrow> frame list \<Rightarrow> (expect \<times> frame list) option" where
  "deliver v [] = Some (Finished v, [])"
| "deliver v (InArr xs # fs) = Some (CommaOrClose, InArr (xs @ [v]) # fs)"
| "deliver v (InVal k kvs # fs) = Some (CommaOrClose, InObj (set_key k v kvs) # fs)"
| "deliver v (InObj kvs # fs) = None"

fun parse_step :: "token \<Rightarrow> expect \<times> frame list \<Rightarrow> (expect \<times> frame list) option" where
  "parse_step t (Value, fs) = (case t of TLit v \<Rightarrow> deliver v fs | TStr s \<Rightarrow> deliver (JStr s) fs
     | TLBrace \<Rightarrow> Some (KeyOrClose, InObj [] # fs) | TLBracket \<Rightarrow> Some (ValueOrClose, InArr [] # fs)
     | _ \<Rightarrow> None)"
| "parse_step t (ValueOrClose, fs) = (case t of TLit v \<Rightarrow> deliver v fs | TStr s \<Rightarrow> deliver (JStr s) fs
     | TLBrace \<Rightarrow> Some (KeyOrClose, InObj [] # fs) | TLBracket \<Rightarrow> Some (ValueOrClose, InArr [] # fs)
     | TRBracket \<Rightarrow> (case fs of InArr xs # fs' \<Rightarrow> deliver (JArr xs) fs' | _ \<Rightarrow> None) | _ \<Rightarrow> None)"
| "parse_step t (Key, fs) = (case t of TStr s \<Rightarrow> Some (ColonAfter s, fs) | _ \<Rightarrow> None)"
| "parse_step t (KeyOrClose, fs) = (case t of TStr s \<Rightarrow> Some (ColonAfter s, fs)
     | TRBrace \<Rightarrow> (case fs of InObj kvs # fs' \<Rightarrow> deliver (JObj kvs) fs' | _ \<Rightarrow> None) | _ \<Rightarrow> None)"
| "parse_step t (ColonAfter k, fs) = (case (t, fs) of
     (TColon, InObj kvs # fs') \<Rightarrow> Some (Value, InVal k kvs # fs') | _ \<Rightarrow> None)"
| "parse_step t (CommaOrClose, fs) = (case (t, fs) of
     (TComma, InArr xs # fs') \<Rightarrow> Some (Value, fs)
   | (TComma, InObj kvs # fs') \<Rightarrow> Some (Key, fs)
   | (TRBracket, InArr xs # fs') \<Rightarrow> deliver (JArr xs) fs'
   | (TRBrace, InObj kvs # fs') \<Rightarrow> deliver (JObj kvs) fs'
   | _ \<Rightarrow> None)"
| "parse_step t (Finished v, fs) = None"

fun parse_tokens :: "token list \<Rightarrow> expect \<times> frame list \<Rightarrow> (expect \<times> frame list) option" where
  "parse_tokens [] st = Some st"
| "parse_tokens (t # ts) st = (case parse_step t st of None \<Rightarrow> None | Some st' \<Rightarrow> parse_tokens ts st')"

definition JSON_parse :: "string \<Rightarrow> js_error + json" where
  "JSON_parse s = (case lex Plain s of None \<Rightarrow> Inl SyntaxError
     | Some ts \<Rightarrow> (case parse_tokens ts (Value, []) of
         Some (Finished v, []) \<Rightarrow> Inr v | _ \<Rightarrow> Inl SyntaxError))"

section \<open>Printing\<close>

definition hex_digit :: "nat \<Rightarrow> char" where
  "hex_digit d = (if d < 10 then char_of (48 + d) else char_of (87 + d))"

definition escape_char :: "char \<Rightarrow> string" where
  "escape_char c = (case map_of
     [(CHR 0x22, CHR 0x22), (CHR 0x5C, CHR 0x5C), (CHR 0x08, CHR ''b''), (CHR 0x0C, CHR ''f''),
      (CHR 0x0A, CHR ''n''), (CHR 0x0D, CHR ''r''), (CHR 0x09, CHR ''t'')] c of
     Some d \<Rightarrow> [CHR 0x5C, d]
   | None \<Rightarrow> (let n = (of_char c :: nat) in
       if n < 32 then [CHR 0x5C, CHR ''u'', CHR ''0'', CHR ''0'', hex_digit (n div 16), hex_digit (n mod 16)]
       else [c]))"

definition show_string :: "string \<Rightarrow> string" where
  "show_string s = [CHR 0x22] @ concat (map escape_char s) @ [CHR 0x22]"

definition new_line :: "nat \<Rightarrow> string" where
  "new_line n = CHR 0x0A # replicate (2 * n) (CHR '' '')"

fun separated :: "string list \<Rightarrow> string" where
  "separated [] = []"
| "separated [x] = x"
| "separated (x # y # zs) = x @ '','' @ separated (y # zs)"

fun show_json :: "nat \<Rightarrow> json \<Rightarrow> string" where
  "show_json n JNull = ''null''"
| "show_json n (JBool b) = (if b then ''true'' else ''false'')"
| "show_json n (JNum q) = show_number q"
| "show_json n (JStr s) = show_string s"
| "show_json n (JArr xs) = (if xs = [] then ''[]'' else
     ''['' @ separated (map (\<lambda>x. new_line (n + 1) @ show_json (n + 1) x) xs) @ new_line n @ '']'')"
| "show_json n (JObj kvs) = (if kvs = [] then [CHR 0x7B, CHR 0x7D] else
     [CHR 0x7B] @ separated (map (\<lambda>(k, v). new_line (n + 1) @ show_string k @ '': '' @ show_json (n + 1) v) kvs)
       @ new_line n @ [CHR 0x7D])"

definition JSON_stringify :: "json \<Rightarrow> string" where
  "JSON_stringify v = show_json 0 v"

section \<open>Printing and parsing\<close>

lemma emit_emit [simp]: "emit ts (emit us r) = emit (ts @ us) r"
  by (simp add: emit_def option.map_comp o_def)

lemma emit_Nil [simp]: "emit [] r = r"
  by (simp add: emit_def option.map_ident)

lemma emit_Some [simp]: "emit ts (Some us) = Some (ts @ us)"
  by (simp add: emit_def)

text \<open>Decimal digits of a natural number.\<close>

lemma digit_char_props:
  assumes "d < 10"
  shows "is_digit (digit_char d)" "digit_value (digit_char d) = d" "word_char (digit_char d)"
    "digit_char d = CHR ''0'' \<longleftrightarrow> d = 0" "digit_char d \<noteq> CHR ''-''"
proof -
  have n: "(of_char (digit_char d) :: nat) = 48 + d" using assms by (simp add: digit_char_def)
  have eq: "digit_char d = c \<longleftrightarrow> (of_char (digit_char d) :: nat) = of_char c" for c
    by (simp only: of_char_eq_iff)
  show "is_digit (digit_char d)" "digit_value (digit_char d) = d" "word_char (digit_char d)"
    using assms by (simp_all add: n is_digit_def digit_value_def word_char_def Let_def)
  show "digit_char d = CHR ''0'' \<longleftrightarrow> d = 0" "digit_char d \<noteq> CHR ''-''"
    unfolding eq n by simp_all
qed

lemma show_nat_digits: "list_all is_digit (show_nat n) \<and> list_all word_char (show_nat n)"
proof (induction n rule: show_nat.induct)
  case (1 n)
  show ?case
  proof (cases "n < 10")
    case True
    then show ?thesis by (subst (1 2) show_nat.simps) (simp add: digit_char_props)
  next
    case False
    with 1 show ?thesis by (subst (1 2) show_nat.simps) (simp add: digit_char_props)
  qed
qed

lemma dec_value_append: "dec_value (s @ [c]) = 10 * dec_value s + digit_value c"
  by (simp add: dec_value_def)

lemma dec_value_show_nat: "dec_value (show_nat n) = n"
proof (induction n rule: show_nat.induct)
  case (1 n)
  show ?case
  proof (cases "n < 10")
    case True
    then show ?thesis by (subst show_nat.simps) (simp add: dec_value_def digit_char_props)
  next
    case False
    with 1 show ?thesis by (subst show_nat.simps) (simp add: dec_value_append digit_char_props)
  qed
qed

lemma show_nat_no_leading_zero: "0 < n \<Longrightarrow> hd (show_nat n) \<noteq> CHR ''0''"
proof (induction n rule: show_nat.induct)
  case (1 n)
  show ?case
  proof (cases "n < 10")
    case True
    with 1 show ?thesis by (subst show_nat.simps) (simp add: digit_char_props)
  next
    case False
    with 1 show ?thesis
      by (subst show_nat.simps) (simp add: hd_append show_nat_nonempty div_greater_zero_iff)
  qed
qed

lemma show_nat_head: "hd (show_nat n) \<noteq> CHR ''-''"
proof (induction n rule: show_nat.induct)
  case (1 n)
  then show ?case
    by (cases "n < 10"; subst show_nat.simps)
      (simp_all add: digit_char_props hd_append show_nat_nonempty)
qed

lemma parse_unsigned_show_nat: "parse_unsigned (show_nat n) = Some (of_nat n)"
proof -
  have d: "\<forall>c \<in> set (show_nat n). is_digit c" using show_nat_digits [of n] by (simp add: list_all_iff)
  then have t: "takeWhile is_digit (show_nat n) = show_nat n" "dropWhile is_digit (show_nat n) = []"
    by (simp_all add: takeWhile_eq_all_conv dropWhile_eq_Nil_conv)
  have "int_part_ok (show_nat n)"
  proof (cases n)
    case 0
    then show ?thesis by (simp add: int_part_ok_def show_nat.simps [of 0])
  next
    case (Suc m)
    then show ?thesis using show_nat_no_leading_zero [of n] by (simp add: int_part_ok_def show_nat_nonempty)
  qed
  then show ?thesis by (simp add: parse_unsigned_def t dec_value_show_nat scale10_def Let_def)
qed

lemma parse_number_show_int: "parse_number (show_int i) = Some (of_int i)"
  by (auto simp: parse_number_def show_int_def parse_unsigned_show_nat show_nat_head of_nat_nat show_nat_nonempty)

lemma show_int_word: "list_all word_char (show_int i) \<and> show_int i \<noteq> []"
  using show_nat_digits show_nat_nonempty by (auto simp: show_int_def word_char_def)

lemma show_int_head: "hd (show_int i) \<notin> {CHR ''t'', CHR ''f'', CHR ''n''}"
proof -
  have "c \<in> {CHR ''t'', CHR ''f'', CHR ''n''} \<Longrightarrow> \<not> is_digit c" for c
    by (auto simp: is_digit_def)
  moreover have "is_digit (hd (show_nat n))" for n
    using show_nat_digits [of n] show_nat_nonempty [of n] by (cases "show_nat n") auto
  ultimately show ?thesis by (auto simp: show_int_def)
qed

lemma word_value_show_int: "word_value (show_int i) = Some (JNum (of_int i))"
  using show_int_head [of i] by (auto simp: word_value_def parse_number_show_int)

text \<open>Words, strings and white space through the character machine.\<close>

definition at_word_end :: "string \<Rightarrow> bool" where
  "at_word_end s = (s = [] \<or> \<not> word_char (hd s))"

lemma lex_Word:
  "list_all word_char w \<Longrightarrow> at_word_end rest \<Longrightarrow>
   lex (Word acc) (w @ rest) = (case word_value (rev acc @ w) of None \<Rightarrow> None
     | Some j \<Rightarrow> emit [TLit j] (lex Plain rest))"
proof (induction w arbitrary: acc)
  case Nil
  show ?case
  proof (cases rest)
    case Nil
    then show ?thesis by (cases "word_value (rev acc)") auto
  next
    case (Cons c cs)
    with Nil.prems have "\<not> word_char c" by (simp add: at_word_end_def)
    with Cons show ?thesis
      by (cases "word_value (rev acc)"; cases "open_char c")
        (auto split: prod.splits simp: emit_def option.map_comp o_def)
  qed
next
  case (Cons c w)
  then show ?case by simp
qed

lemma open_char_word: "word_char c \<Longrightarrow> open_char c = Some ([], Word [c])"
  by (auto simp: open_char_def word_char_def)

lemma lex_word:
  assumes "list_all word_char w" "w \<noteq> []" "word_value w = Some j" "at_word_end rest"
  shows "lex Plain (w @ rest) = emit [TLit j] (lex Plain rest)"
  using assms lex_Word [of "tl w" rest "[hd w]"]
  by (cases w) (simp_all add: open_char_word)

lemma nat_less_32: "n < (32::nat) \<Longrightarrow> n \<in> set [0..<32]"
  by simp

lemma hex_digit_value_hex_digit: "d < 16 \<Longrightarrow> hex_digit_value (hex_digit d) = Some d"
proof -
  assume "d < 16"
  then show ?thesis by (auto simp: hex_digit_def hex_digit_value_def Let_def)
qed

lemma lex_escape_char: "lex (Quoted acc) (escape_char c @ rest) = lex (Quoted (c # acc)) rest"
proof (cases "c \<in> {CHR 0x22, CHR 0x5C, CHR 0x08, CHR 0x0C, CHR 0x0A, CHR 0x0D, CHR 0x09}")
  case True
  then show ?thesis by (auto simp: escape_char_def unescape_def)
next
  case False
  show ?thesis
  proof (cases "(of_char c :: nat) < 32")
    case True
    have "hex_digit_value (CHR ''0'') = Some 0" by (simp add: hex_digit_value_def)
    moreover have "16 * ((of_char c :: nat) div 16) + of_char c mod 16 = of_char c" by simp
    moreover have "(of_char c :: nat) div 16 < 16" using True by simp
    ultimately show ?thesis using False True
      by (simp add: escape_char_def Let_def hex_digit_value_hex_digit utf8_def)
  next
    case F: False
    with False show ?thesis by (simp add: escape_char_def Let_def)
  qed
qed

lemma lex_escaped: "lex (Quoted acc) (concat (map escape_char s) @ CHR 0x22 # rest) =
    emit [TStr (rev acc @ s)] (lex Plain rest)"
  by (induction s arbitrary: acc) (simp_all add: lex_escape_char)

lemma lex_show_string: "lex Plain (show_string s @ rest) = emit [TStr s] (lex Plain rest)"
  by (simp add: show_string_def open_char_def lex_escaped)

lemma lex_spaces: "lex Plain (replicate n (CHR '' '') @ rest) = lex Plain rest"
  by (induction n) (simp_all add: open_char_def)

lemma lex_new_line: "lex Plain (new_line n @ rest) = lex Plain rest"
  using lex_spaces by (simp add: new_line_def open_char_def)

text \<open>The tokens of a value, and the values that print exactly: no repeated keys, integers.\<close>

fun sep_tokens :: "token list list \<Rightarrow> token list" where
  "sep_tokens [] = []"
| "sep_tokens [ts] = ts"
| "sep_tokens (ts # us # vs) = ts @ TComma # sep_tokens (us # vs)"

fun tokens :: "json \<Rightarrow> token list" where
  "tokens (JStr s) = [TStr s]"
| "tokens (JArr xs) = TLBracket # sep_tokens (map tokens xs) @ [TRBracket]"
| "tokens (JObj kvs) = TLBrace # sep_tokens (map (\<lambda>(k, v). TStr k # TColon # tokens v) kvs) @ [TRBrace]"
| "tokens v = [TLit v]"

fun printable :: "json \<Rightarrow> bool" where
  "printable (JNum q) = (snd (quotient_of q) = 1)"
| "printable (JArr xs) = list_all printable xs"
| "printable (JObj kvs) = (distinct (map fst kvs) \<and> list_all (\<lambda>(k, v). printable v) kvs)"
| "printable v = True"

lemma number_of_quotient: "snd (quotient_of q) = 1 \<Longrightarrow> of_int (fst (quotient_of q)) = q"
  by (metis div_by_1 of_int_1 prod.collapse quotient_of_div)

lemma lex_sep:
  assumes "\<And>x rest. x \<in> set xs \<Longrightarrow> at_word_end rest \<Longrightarrow>
      lex Plain (f x @ rest) = emit (g x) (lex Plain rest)"
    and "at_word_end rest" and "xs \<noteq> []"
  shows "lex Plain (separated (map f xs) @ rest) = emit (sep_tokens (map g xs)) (lex Plain rest)"
  using assms
proof (induction xs)
  case Nil
  then show ?case by simp
next
  case (Cons x xs)
  show ?case
  proof (cases xs)
    case Nil
    with Cons show ?thesis by simp
  next
    case (Cons y ys)
    have c: "lex Plain ('','' @ s) = emit [TComma] (lex Plain s)" for s
      by (simp add: open_char_def word_char_def)
    have "at_word_end ('','' @ s)" for s by (simp add: at_word_end_def word_char_def)
    then have "lex Plain (f x @ '','' @ separated (map f xs) @ rest) =
        emit (g x) (lex Plain ('','' @ separated (map f xs) @ rest))"
      using Cons.prems(1) by simp
    also have "\<dots> = emit (g x @ [TComma]) (lex Plain (separated (map f xs) @ rest))"
      unfolding c by simp
    also have "\<dots> = emit (g x @ TComma # sep_tokens (map g xs)) (lex Plain rest)"
      using Cons.IH Cons.prems Cons by simp
    finally show ?thesis using Cons by simp
  qed
qed

lemma at_word_end_new_line: "at_word_end (new_line n @ s)"
  by (simp add: at_word_end_def new_line_def word_char_def)

lemma lex_show_json:
  "printable v \<Longrightarrow> at_word_end rest \<Longrightarrow> lex Plain (show_json n v @ rest) = emit (tokens v) (lex Plain rest)"
proof (induction v arbitrary: n rest)
  case (JNum q)
  then have "show_number q = show_int (fst (quotient_of q))" by (simp add: show_number_def)
  moreover have "word_value (show_int (fst (quotient_of q))) = Some (JNum q)"
    using JNum by (simp add: word_value_show_int number_of_quotient)
  ultimately show ?case using JNum show_int_word by (simp add: lex_word)
next
  case JNull
  have "word_value ''null'' = Some JNull" by (simp add: word_value_def)
  moreover have "list_all word_char ''null''" by (simp add: word_char_def)
  ultimately show ?case using JNull lex_word [of "''null''" JNull rest] by simp
next
  case (JBool b)
  have "word_value (if b then ''true'' else ''false'') = Some (JBool b)" by (simp add: word_value_def)
  moreover have "list_all word_char (if b then ''true'' else ''false'')" by (simp add: word_char_def)
  ultimately show ?case using JBool lex_word [of "if b then ''true'' else ''false''" "JBool b" rest]
    by (simp split: if_splits)
next
  case (JStr s)
  then show ?case by (simp add: lex_show_string)
next
  case (JArr xs)
  have close: "lex Plain (new_line n @ '']'' @ rest) = emit [TRBracket] (lex Plain rest)"
    unfolding lex_new_line by (simp add: open_char_def word_char_def)
  have opn: "lex Plain (''['' @ s) = emit [TLBracket] (lex Plain s)" for s
    by (simp add: open_char_def word_char_def)
  show ?case
  proof (cases "xs = []")
    case True
    then show ?thesis using opn [of "'']'' @ rest"] by (simp add: open_char_def word_char_def)
  next
    case False
    have "lex Plain (separated (map (\<lambda>x. new_line (n + 1) @ show_json (n + 1) x) xs) @ new_line n @ '']'' @ rest) =
        emit (sep_tokens (map tokens xs)) (lex Plain (new_line n @ '']'' @ rest))"
    proof (rule lex_sep)
      fix x r assume "x \<in> set xs" "at_word_end r"
      then show "lex Plain ((new_line (n + 1) @ show_json (n + 1) x) @ r) = emit (tokens x) (lex Plain r)"
        using JArr by (simp add: lex_new_line list_all_iff)
    qed (use False in \<open>simp_all add: at_word_end_new_line\<close>)
    then show ?thesis using opn False close by simp
  qed
next
  case (JObj kvs)
  have close: "lex Plain (new_line n @ [CHR 0x7D] @ rest) = emit [TRBrace] (lex Plain rest)"
    unfolding lex_new_line by (simp add: open_char_def word_char_def)
  have opn: "lex Plain ([CHR 0x7B] @ s) = emit [TLBrace] (lex Plain s)" for s
    by (simp add: open_char_def word_char_def)
  have col: "lex Plain ('': '' @ s) = emit [TColon] (lex Plain s)" for s
    by (simp add: open_char_def word_char_def)
  show ?case
  proof (cases "kvs = []")
    case True
    then show ?thesis using opn [of "[CHR 0x7D] @ rest"] by (simp add: open_char_def word_char_def)
  next
    case False
    let ?f = "\<lambda>(k, v). new_line (n + 1) @ show_string k @ '': '' @ show_json (n + 1) v"
    let ?g = "\<lambda>(k, v). TStr k # TColon # tokens v"
    have "lex Plain (separated (map ?f kvs) @ new_line n @ [CHR 0x7D] @ rest) =
        emit (sep_tokens (map ?g kvs)) (lex Plain (new_line n @ [CHR 0x7D] @ rest))"
    proof (rule lex_sep)
      fix x r assume x: "x \<in> set kvs" and r: "at_word_end r"
      obtain k v where kv: "x = (k, v)" by (cases x)
      have "lex Plain (show_json (n + 1) v @ r) = emit (tokens v) (lex Plain r)"
        using JObj x r kv by (auto simp: list_all_iff)
      then show "lex Plain (?f x @ r) = emit (?g x) (lex Plain r)"
        using col by (simp add: kv lex_new_line lex_show_string)
    qed (use False in \<open>simp_all add: at_word_end_new_line\<close>)
    then show ?thesis using opn False close by simp
  qed
qed

text \<open>The stack machine reads the tokens of a value as that value.\<close>

fun proceed :: "token list \<Rightarrow> (expect \<times> frame list) option \<Rightarrow> (expect \<times> frame list) option" where
  "proceed ts None = None"
| "proceed ts (Some s) = parse_tokens ts s"

lemma set_key_fresh: "k \<notin> fst ` set kvs \<Longrightarrow> set_key k v kvs = kvs @ [(k, v)]"
  by (induction kvs) auto

lemma map_of_set_key: "map_of (set_key k v kvs) = (map_of kvs)(k \<mapsto> v)"
  by (induction kvs) auto

lemma set_key_keys:
  "map fst (set_key k v kvs) = (if k \<in> fst ` set kvs then map fst kvs else map fst kvs @ [k])"
  by (induction kvs) (auto simp: image_iff Bex_def, (metis fst_conv)?)

lemma set_key_distinct: "distinct (map fst kvs) \<Longrightarrow> distinct (map fst (set_key k v kvs))"
  by (simp add: set_key_keys)

lemma printable_nat [simp]: "printable (JNum (of_nat n))" "printable (JNum (1 + of_nat n))"
  using quotient_of_int [of "int n"] quotient_of_int [of "1 + int n"] by (simp_all add: Rat.of_int_def)

lemma set_key_values: "(k', v') \<in> set (set_key k v kvs) \<Longrightarrow> (k', v') \<in> set kvs \<or> v' = v"
  by (induction kvs) (auto split: if_splits)

lemma printable_set_key:
  "printable (JObj kvs) \<Longrightarrow> printable v \<Longrightarrow> printable (JObj (set_key k v kvs))"
  using set_key_values by (fastforce simp: set_key_distinct list_all_iff)

lemma parse_elements:
  assumes "\<And>x fs ts. x \<in> set xs \<Longrightarrow> parse_tokens (tokens x @ ts) (Value, fs) = proceed ts (deliver x fs)"
  shows "xs \<noteq> [] \<Longrightarrow> parse_tokens (sep_tokens (map tokens xs) @ TRBracket # ts) (Value, InArr acc # fs) =
    proceed ts (deliver (JArr (acc @ xs)) fs)"
  using assms
proof (induction xs arbitrary: acc)
  case Nil
  then show ?case by simp
next
  case (Cons x xs)
  show ?case
  proof (cases xs)
    case Nil
    with Cons.prems show ?thesis by (cases "deliver (JArr (acc @ [x])) fs") simp_all
  next
    case (Cons y ys)
    with Cons.prems Cons.IH [of "acc @ [x]"] show ?thesis by simp
  qed
qed

lemma parse_members:
  assumes "\<And>k x fs ts. (k, x) \<in> set kvs \<Longrightarrow> parse_tokens (tokens x @ ts) (Value, fs) = proceed ts (deliver x fs)"
    and "distinct (map fst (acc @ kvs))"
  shows "kvs \<noteq> [] \<Longrightarrow> parse_tokens (sep_tokens (map (\<lambda>(k, v). TStr k # TColon # tokens v) kvs) @ TRBrace # ts)
      (Key, InObj acc # fs) = proceed ts (deliver (JObj (acc @ kvs)) fs)"
  using assms
proof (induction kvs arbitrary: acc)
  case Nil
  then show ?case by simp
next
  case (Cons x kvs)
  obtain k v where x: "x = (k, v)" by (cases x)
  have fresh: "set_key k v acc = acc @ [(k, v)]"
    using Cons.prems(3) x by (intro set_key_fresh) auto
  have one: "parse_tokens (tokens v @ us) (Value, InVal k acc # fs) =
      parse_tokens us (CommaOrClose, InObj (acc @ [(k, v)]) # fs)" for us
    using Cons.prems(2) [of k v us "InVal k acc # fs"] x fresh by simp
  have ih: "parse_tokens (sep_tokens (map (\<lambda>(k, v). TStr k # TColon # tokens v) kvs) @ TRBrace # ts)
      (Key, InObj (acc @ [(k, v)]) # fs) = proceed ts (deliver (JObj ((acc @ [(k, v)]) @ kvs)) fs)"
    if "kvs \<noteq> []"
  proof (rule Cons.IH [OF that])
    show "distinct (map fst ((acc @ [(k, v)]) @ kvs))" using Cons.prems(3) x by simp
  qed (auto intro: Cons.prems(2))
  show ?case
  proof (cases kvs)
    case Nil
    with one show ?thesis by (cases "deliver (JObj (acc @ [(k, v)])) fs") (simp_all add: x)
  next
    case (Cons y ys)
    with ih one show ?thesis by (simp add: x)
  qed
qed

lemma first_key:
  "kvs \<noteq> [] \<Longrightarrow> parse_tokens (sep_tokens (map (\<lambda>(k, v). TStr k # TColon # tokens v) kvs) @ ts) (KeyOrClose, fs) =
   parse_tokens (sep_tokens (map (\<lambda>(k, v). TStr k # TColon # tokens v) kvs) @ ts) (Key, fs)"
  by (cases kvs rule: remdups_adj.cases) (auto split: prod.splits)

lemma value_or_close: "parse_tokens (tokens v @ ts) (ValueOrClose, fs) = parse_tokens (tokens v @ ts) (Value, fs)"
  by (cases v) simp_all

lemma first_value:
  "xs \<noteq> [] \<Longrightarrow> parse_tokens (sep_tokens (map tokens xs) @ ts) (ValueOrClose, fs) =
   parse_tokens (sep_tokens (map tokens xs) @ ts) (Value, fs)"
  by (cases xs rule: remdups_adj.cases) (simp_all add: value_or_close)

lemma parse_tokens_value:
  "printable v \<Longrightarrow> parse_tokens (tokens v @ ts) (Value, fs) = proceed ts (deliver v fs)"
proof (induction v arbitrary: ts fs)
  case (JArr xs)
  show ?case
  proof (cases "xs = []")
    case True
    then show ?thesis by (cases "deliver (JArr []) fs") simp_all
  next
    case False
    with JArr show ?thesis
      by (simp add: first_value) (subst parse_elements, auto simp: list_all_iff)
  qed
next
  case (JObj kvs)
  show ?case
  proof (cases "kvs = []")
    case True
    then show ?thesis by (cases "deliver (JObj []) fs") simp_all
  next
    case False
    have "parse_tokens (tokens x @ us) (Value, gs) = proceed us (deliver x gs)" if "(k, x) \<in> set kvs" for k x us gs
      using JObj that by (fastforce simp: list_all_iff)
    then show ?thesis
      using False JObj.prems by (simp add: first_key) (subst parse_members, auto)
  qed
qed (auto split: option.splits elim: proceed.elims intro: proceed.cases)

text \<open>Parsing the printed text gives back the value, if no key is repeated and its numbers are integers.\<close>

lemma parse_stringify:
  assumes "printable v"
  shows "JSON_parse (JSON_stringify v) = Inr v"
  using lex_show_json [OF assms, of "[]" 0] parse_tokens_value [OF assms, of "[]" "[]"]
  by (simp add: JSON_parse_def JSON_stringify_def at_word_end_def)

end
