(* ===== verification/Database.thy ===== *)
theory Database
  imports Json "HOL-Library.Sublist"
begin

text \<open>
  The backend's database as the services under \<open>app/services/\<close> use it: the rows of the models
  under \<open>app/db/models/\<close>, a session that adds and updates rows and checks them when it flushes,
  the messages handed to the task broker, and the queries. Time is in seconds; an identifier is the
  text of a UUID, drawn from an unbounded supply (\<open>uuid.uuid4\<close>).

  Two databases are in use: PostgreSQL, the default of \<open>app/core/config.py\<close>, checks enum values,
  integer ranges, lengths and foreign keys (\<open>srv_strict\<close>); SQLite, on which the tests run
  (\<open>tests/conftest.py\<close>), checks uniqueness and refuses what it cannot bind. The order of
  the rows of a query without \<open>ORDER BY\<close> is the database's, given by a rank of the identifiers.
\<close>

section \<open>Rows\<close>

datatype request_status = CREATED | IN_PROGRESS | APPROVED | REJECTED | COMPLETED | ESCALATED

text \<open>\<open>StepStatus\<close>; a value outside it can be assigned to the column as text.\<close>

datatype step_status = StepPending | StepInProgress | StepApproved | StepRejected | StepSkipped | StepOther string

definition request_status_name :: "request_status \<Rightarrow> string" where
  "request_status_name s = (case s of CREATED \<Rightarrow> ''CREATED'' | IN_PROGRESS \<Rightarrow> ''IN_PROGRESS''
     | APPROVED \<Rightarrow> ''APPROVED'' | REJECTED \<Rightarrow> ''REJECTED'' | COMPLETED \<Rightarrow> ''COMPLETED'' | ESCALATED \<Rightarrow> ''ESCALATED'')"

definition step_status_of :: "string \<Rightarrow> step_status" where
  "step_status_of s = (case map_of [(''PENDING'', StepPending), (''IN_PROGRESS'', StepInProgress),
     (''APPROVED'', StepApproved), (''REJECTED'', StepRejected), (''SKIPPED'', StepSkipped)] s of
     Some v \<Rightarrow> v | None \<Rightarrow> StepOther s)"

definition known_status :: "step_status \<Rightarrow> bool" where
  "known_status s = (case s of StepOther t \<Rightarrow> False | _ \<Rightarrow> True)"

record permission_row =
  perm_row_id :: uuid
  perm_row_name :: string

record role_row =
  role_row_id :: uuid
  role_row_name :: string
  role_permissions :: "permission_row list"

record user_row =
  user_id :: uuid
  user_email :: string
  user_full_name :: string
  user_active :: bool
  user_roles :: "role_row list"

record workflow_row =
  wf_id :: uuid
  wf_name :: string
  wf_description :: "string option"
  wf_active :: bool
  wf_created_by :: uuid
  wf_created_at :: int

record step_row =
  sd_id :: uuid
  sd_workflow_id :: uuid
  sd_order :: int
  sd_name :: string
  sd_description :: "string option"
  sd_required_role_id :: "uuid option"
  sd_required_permission_id :: "uuid option"
  sd_sla_hours :: int
  sd_is_conditional :: bool
  sd_condition :: "(string \<times> json) list option"

record transition_row =
  tr_id :: uuid
  tr_from :: uuid
  tr_to :: "uuid option"
  tr_condition :: "(string \<times> json) list option"
  tr_outcome :: string

record request_row =
  rq_id :: uuid
  rq_workflow_id :: uuid
  rq_requester_id :: uuid
  rq_current_step_id :: "uuid option"
  rq_status :: request_status
  rq_data :: json
  rq_created_at :: int
  rq_completed_at :: "int option"

record exec_row =
  ex_id :: uuid
  ex_request_id :: uuid
  ex_step_id :: uuid
  ex_status :: step_status
  ex_assigned_to :: "uuid option"
  ex_started_at :: int
  ex_completed_at :: "int option"
  ex_deadline :: int
  ex_is_sla_breached :: bool
  ex_comments :: json
  ex_decision_data :: json

record history_row =
  hi_id :: uuid
  hi_request_id :: uuid
  hi_from :: request_status
  hi_to :: request_status
  hi_changed_by :: uuid
  hi_reason :: string

record audit_row =
  au_id :: uuid
  au_action :: string
  au_resource_type :: string
  au_resource_id :: string
  au_actor_id :: "uuid option"
  au_request_id :: uuid
  au_meta :: json
  au_timestamp :: int

record escalation_row =
  es_id :: uuid
  es_step_id :: uuid
  es_level :: nat
  es_at :: int

text \<open>Messages to the Celery broker.\<close>

datatype message =
    NewAssignment uuid uuid string string int    \<comment> \<open>step, request, workflow name, step name, deadline\<close>
  | SlaBreach uuid uuid string string int        \<comment> \<open>execution, request, workflow name, step name, deadline\<close>

record db =
  db_uuid :: "nat \<Rightarrow> uuid"
  db_drawn :: nat
  db_workflows :: "workflow_row list"
  db_steps :: "step_row list"
  db_transitions :: "transition_row list"
  db_requests :: "request_row list"
  db_execs :: "exec_row list"
  db_history :: "history_row list"
  db_audit :: "audit_row list"
  db_escalations :: "escalation_row list"
  db_outbox :: "message list"

text \<open>What surrounds one operation.\<close>

record server =
  srv_now :: int
  srv_strict :: bool
  srv_rank :: "uuid \<Rightarrow> nat"
  srv_delivers :: "message \<Rightarrow> bool"
  srv_role_ids :: "uuid list"
  srv_permission_ids :: "uuid list"
  srv_text :: "json \<Rightarrow> bool"

section \<open>Fallible operations on a session\<close>

text \<open>The exceptions of \<open>app/core/exceptions.py\<close>, HTTP exceptions, and what libraries raise.\<close>

datatype failure =
    InvalidStateTransition request_status request_status
  | PermissionDenied
  | ResourceNotFound
  | WorkflowEngineError
  | HttpException nat
  | DatabaseError
  | OverflowError
  | BrokerError
  | AttributeError
  | ValidationError
  | TypeError
  | ValueError
  | SmtpError

text \<open>An operation returns its result or a failure, and the session's state in either case: what was
  sent to the broker stays sent when the operation fails.\<close>

type_synonym ('s, 'a) session_op = "'s \<Rightarrow> (failure + 'a) \<times> 's"
type_synonym 'a op = "(db, 'a) session_op"

definition return_op :: "'a \<Rightarrow> ('s, 'a) session_op" where
  "return_op x = (\<lambda>d. (Inr x, d))"

definition raise_op :: "failure \<Rightarrow> ('s, 'a) session_op" where
  "raise_op e = (\<lambda>d. (Inl e, d))"

definition and_do :: "('s, 'a) session_op \<Rightarrow> ('a \<Rightarrow> ('s, 'b) session_op) \<Rightarrow> ('s, 'b) session_op" where
  "and_do m f = (\<lambda>d. case m d of (Inl e, d') \<Rightarrow> (Inl e, d') | (Inr x, d') \<Rightarrow> f x d')"

definition change_op :: "('s \<Rightarrow> 's) \<Rightarrow> ('s, unit) session_op" where
  "change_op f = (\<lambda>d. (Inr (), f d))"

definition check_op :: "bool \<Rightarrow> failure \<Rightarrow> ('s, unit) session_op" where
  "check_op b e = (if b then return_op () else raise_op e)"

definition draw_uuid :: "uuid op" where
  "draw_uuid = (\<lambda>d. (Inr (db_uuid d (db_drawn d)), d\<lparr>db_drawn := Suc (db_drawn d)\<rparr>))"

lemmas op_defs = return_op_def raise_op_def and_do_def change_op_def check_op_def draw_uuid_def

lemma and_do_Inr [simp]: "m d = (Inr x, d') \<Longrightarrow> and_do m f d = f x d'"
  by (simp add: and_do_def)

lemma and_do_Inl [simp]: "m d = (Inl e, d') \<Longrightarrow> and_do m f d = (Inl e, d')"
  by (simp add: and_do_def)

lemma basic_ops [simp]:
  "return_op x d = (Inr x, d)" "raise_op e d = (Inl e, d)" "change_op f d = (Inr (), f d)"
  "check_op True e d = (Inr (), d)" "check_op False e d = (Inl e, d)"
  by (simp_all add: return_op_def raise_op_def change_op_def check_op_def)

lemma draw_uuid_run [simp]: "draw_uuid d = (Inr (db_uuid d (db_drawn d)), d\<lparr>db_drawn := Suc (db_drawn d)\<rparr>)"
  by (simp add: draw_uuid_def)

lemma and_do_InrE:
  assumes "and_do m f d = (Inr y, d'')"
  obtains x d' where "m d = (Inr x, d')" "f x d' = (Inr y, d'')"
  using assms by (auto simp: and_do_def split: prod.splits sum.splits)

section \<open>Constraints\<close>

definition int32 :: "int \<Rightarrow> bool" where
  "int32 i = (- (2 ^ 31) \<le> i \<and> i < 2 ^ 31)"

definition int64 :: "int \<Rightarrow> bool" where
  "int64 i = (- (2 ^ 63) \<le> i \<and> i < 2 ^ 63)"

definition in_opt :: "uuid option \<Rightarrow> uuid list \<Rightarrow> bool" where
  "in_opt i is = (case i of None \<Rightarrow> True | Some j \<Rightarrow> j \<in> set is)"

text \<open>What a flush checks: \<open>workflows.name\<close> is unique in both databases; PostgreSQL also checks the
  native enum of \<open>request_steps.status\<close>, integer columns, \<open>String(n)\<close> lengths and the foreign keys to
  roles and permissions (the other foreign keys hold by construction). A comment is untyped when it comes
  from the body of a call: which values other than \<open>null\<close> the database driver takes for its text column
  (SQLite no lists, PostgreSQL some, both no dictionaries) is the parameter \<open>srv_text\<close>.\<close>

definition text_value :: "server \<Rightarrow> json \<Rightarrow> bool" where
  "text_value e v \<longleftrightarrow> v = JNull \<or> srv_text e v"

definition exec_row_ok :: "server \<Rightarrow> exec_row \<Rightarrow> bool" where
  "exec_row_ok e x \<longleftrightarrow> (srv_strict e \<longrightarrow> known_status (ex_status x)) \<and> text_value e (ex_comments x)"

definition step_row_ok :: "server \<Rightarrow> step_row \<Rightarrow> bool" where
  "step_row_ok e s =
     (if srv_strict e then int32 (sd_order s) \<and> int32 (sd_sla_hours s) \<and> in_opt (sd_required_role_id s) (srv_role_ids e) \<and>
        in_opt (sd_required_permission_id s) (srv_permission_ids e)
      else int64 (sd_order s) \<and> int64 (sd_sla_hours s))"

definition transition_row_ok :: "server \<Rightarrow> transition_row \<Rightarrow> bool" where
  "transition_row_ok e t \<longleftrightarrow> (srv_strict e \<longrightarrow> length (tr_outcome t) \<le> 50)"

definition definitions_ok :: "server \<Rightarrow> db \<Rightarrow> bool" where
  "definitions_ok e d \<longleftrightarrow> distinct (map wf_name (db_workflows d)) \<and> list_all (step_row_ok e) (db_steps d) \<and>
     list_all (transition_row_ok e) (db_transitions d)"

definition rows_ok :: "server \<Rightarrow> db \<Rightarrow> bool" where
  "rows_ok e d \<longleftrightarrow> definitions_ok e d \<and> list_all (exec_row_ok e) (db_execs d)"

definition flush :: "server \<Rightarrow> unit op" where
  "flush e = (\<lambda>d. if rows_ok e d then (Inr (), d) else (Inl DatabaseError, d))"

definition send_message :: "server \<Rightarrow> message \<Rightarrow> unit op" where
  "send_message e m = (\<lambda>d. if srv_delivers e m then (Inr (), d\<lparr>db_outbox := db_outbox d @ [m]\<rparr>) else (Inl BrokerError, d))"

text \<open>A request ends with a commit, or its session is closed and rolled back: the tables go back,
  the messages do not, and a drawn identifier is not drawn again.\<close>

definition rolled_back :: "db \<Rightarrow> db \<Rightarrow> db" where
  "rolled_back d d' = d\<lparr>db_uuid := db_uuid d', db_drawn := db_drawn d', db_outbox := db_outbox d'\<rparr>"

definition transact :: "'a op \<Rightarrow> 'a op" where
  "transact m = (\<lambda>d. case m d of (Inl e, d') \<Rightarrow> (Inl e, rolled_back d d') | (Inr x, d') \<Rightarrow> (Inr x, d'))"

section \<open>Queries\<close>

definition query :: "server \<Rightarrow> ('r \<Rightarrow> uuid) \<Rightarrow> ('r \<Rightarrow> bool) \<Rightarrow> 'r list \<Rightarrow> 'r list" where
  "query e key P rows = sort_key (\<lambda>r. srv_rank e (key r)) (filter P rows)"

definition query_first :: "server \<Rightarrow> ('r \<Rightarrow> uuid) \<Rightarrow> ('r \<Rightarrow> bool) \<Rightarrow> 'r list \<Rightarrow> 'r option" where
  "query_first e key P rows = (case query e key P rows of [] \<Rightarrow> None | r # _ \<Rightarrow> Some r)"

text \<open>By primary key.\<close>

definition get_row :: "('r \<Rightarrow> uuid) \<Rightarrow> uuid \<Rightarrow> 'r list \<Rightarrow> 'r option" where
  "get_row key i rows = find (\<lambda>r. key r = i) rows"

definition update_row :: "('r \<Rightarrow> uuid) \<Rightarrow> uuid \<Rightarrow> ('r \<Rightarrow> 'r) \<Rightarrow> 'r list \<Rightarrow> 'r list" where
  "update_row key i f rows = map (\<lambda>r. if key r = i then f r else r) rows"

lemma set_query [simp]: "set (query e key P rows) = {r \<in> set rows. P r}"
  by (auto simp: query_def)

lemma query_first_Some: "query_first e key P rows = Some r \<Longrightarrow> r \<in> set rows \<and> P r"
  using set_query [of e key P rows] by (cases "query e key P rows") (auto simp: query_first_def)

lemma query_first_None: "query_first e key P rows = None \<longleftrightarrow> (\<forall>r \<in> set rows. \<not> P r)"
  using set_query [of e key P rows] by (cases "query e key P rows") (auto simp: query_first_def)

lemma query_first_unique:
  assumes "r \<in> set rows" "P r" and "\<And>r'. r' \<in> set rows \<Longrightarrow> P r' \<Longrightarrow> r' = r"
  shows "query_first e key P rows = Some r"
proof (cases "query_first e key P rows")
  case None
  with assms(1,2) show ?thesis by (simp add: query_first_None)
next
  case (Some r')
  with assms(3) show ?thesis using query_first_Some [OF Some] by simp
qed

lemma get_row_Some: "get_row key i rows = Some r \<Longrightarrow> r \<in> set rows \<and> key r = i"
  by (auto simp: get_row_def dest: find_Some_set)

lemma get_row_unique:
  "distinct (map key rows) \<Longrightarrow> r \<in> set rows \<Longrightarrow> get_row key (key r) rows = Some r"
  by (induction rows) (auto simp: get_row_def image_iff)

lemma get_row_None: "get_row key i rows = None \<longleftrightarrow> i \<notin> key ` set rows"
  by (auto simp: get_row_def find_None_iff)

lemma get_row_append: "get_row key i (rows @ extra) =
    (case get_row key i rows of None \<Rightarrow> get_row key i extra | Some r \<Rightarrow> Some r)"
  by (induction rows) (auto simp: get_row_def)

lemma map_update_row [simp]:
  "(\<And>r. g (f r) = g r) \<Longrightarrow> map g (update_row key i f rows) = map g rows"
  by (simp add: update_row_def)

lemma set_update_row: "set (update_row key i f rows) = (\<lambda>r. if key r = i then f r else r) ` set rows"
  by (simp add: update_row_def)

lemma get_row_update: "(\<And>r. key (f r) = key r) \<Longrightarrow>
    get_row key j (update_row key i f rows) = map_option (\<lambda>r. if key r = i then f r else r) (get_row key j rows)"
  by (induction rows) (auto simp: get_row_def update_row_def)

section \<open>Fresh identifiers\<close>

text \<open>All identifiers in use were drawn, and the supply does not repeat.\<close>

definition used_ids :: "db \<Rightarrow> uuid set" where
  "used_ids d = wf_id ` set (db_workflows d) \<union> sd_id ` set (db_steps d) \<union> tr_id ` set (db_transitions d) \<union>
     rq_id ` set (db_requests d) \<union> ex_id ` set (db_execs d)"

definition ids_ok :: "db \<Rightarrow> bool" where
  "ids_ok d \<longleftrightarrow> inj (db_uuid d) \<and> used_ids d \<subseteq> db_uuid d ` {..<db_drawn d} \<and>
     distinct (map wf_id (db_workflows d)) \<and> distinct (map sd_id (db_steps d)) \<and>
     distinct (map rq_id (db_requests d)) \<and> distinct (map ex_id (db_execs d))"

lemma fresh_id: "ids_ok d \<Longrightarrow> db_drawn d \<le> n \<Longrightarrow> db_uuid d n \<notin> used_ids d"
proof
  assume i: "ids_ok d" "db_drawn d \<le> n" and u: "db_uuid d n \<in> used_ids d"
  then obtain m where "m < db_drawn d" "db_uuid d n = db_uuid d m" by (auto simp: ids_ok_def)
  with i show False by (auto simp: ids_ok_def dest: injD)
qed

end
