(* ===== verification/Conditions.thy ===== *)
theory Conditions
  imports JsonText Database
begin

text \<open>
  The condition evaluator of the workflow engine, \<open>ConditionEvaluator\<close> in
  \<open>app/services/workflow_engine.py\<close>, with the parts of Python it rests on: equality and membership of
  JSON values, and \<open>float(\<dots>)\<close>, whose values are doubles. An exception inside the evaluator gives
  \<open>None\<close> here and makes the condition false there.
\<close>

section \<open>Python values\<close>

text \<open>Booleans are the numbers 0 and 1; dictionaries are compared without their order.\<close>

definition py_number :: "json \<Rightarrow> rat option" where
  "py_number v = (case v of JNum n \<Rightarrow> Some n | JBool b \<Rightarrow> Some (if b then 1 else 0) | _ \<Rightarrow> None)"

fun py_eq :: "json \<Rightarrow> json \<Rightarrow> bool"
  and py_eq_list :: "json list \<Rightarrow> json list \<Rightarrow> bool"
  and py_eq_entries :: "(string \<times> json) list \<Rightarrow> (string \<times> json) list \<Rightarrow> bool" where
  "py_eq JNull b = (b = JNull)"
| "py_eq (JBool v) b = (py_number b = Some (if v then 1 else 0))"
| "py_eq (JNum n) b = (py_number b = Some n)"
| "py_eq (JStr s) b = (b = JStr s)"
| "py_eq (JArr xs) b = (case b of JArr ys \<Rightarrow> py_eq_list xs ys | _ \<Rightarrow> False)"
| "py_eq (JObj kvs) b = (case b of JObj lvs \<Rightarrow> length kvs = length lvs \<and> py_eq_entries kvs lvs | _ \<Rightarrow> False)"
| "py_eq_list [] ys = (ys = [])"
| "py_eq_list (x # xs) ys = (case ys of [] \<Rightarrow> False | y # ys' \<Rightarrow> py_eq x y \<and> py_eq_list xs ys')"
| "py_eq_entries [] lvs = True"
| "py_eq_entries ((k, v) # kvs) lvs =
     (case map_of lvs k of None \<Rightarrow> False | Some w \<Rightarrow> py_eq v w \<and> py_eq_entries kvs lvs)"

text \<open>\<open>a in b\<close>; \<open>None\<close> is a \<open>TypeError\<close>. Keys of dictionaries are strings; a list or a
  dictionary cannot be hashed.\<close>

fun occurs_in :: "string \<Rightarrow> string \<Rightarrow> bool" where
  "occurs_in s [] = (s = [])"
| "occurs_in s (c # cs) = (take (length s) (c # cs) = s \<or> occurs_in s cs)"

definition py_in :: "json \<Rightarrow> json \<Rightarrow> bool option" where
  "py_in a b = (case b of
     JArr xs \<Rightarrow> Some (list_ex (\<lambda>x. py_eq a x) xs)
   | JStr t \<Rightarrow> (case a of JStr s \<Rightarrow> Some (occurs_in s t) | _ \<Rightarrow> None)
   | JObj kvs \<Rightarrow> (case a of JStr s \<Rightarrow> Some (map_of kvs s \<noteq> None) | JArr xs \<Rightarrow> None | JObj lvs \<Rightarrow> None | _ \<Rightarrow> Some False)
   | _ \<Rightarrow> None)"

section \<open>Doubles\<close>

datatype py_float = Finite rat | Infinity | NegInfinity | NotANumber

text \<open>The exponent of the leading bit of a positive number.\<close>

fun ilog :: "nat \<Rightarrow> nat" where
  "ilog n = (if n < 2 then 0 else Suc (ilog (n div 2)))"

declare ilog.simps [simp del]

definition binade :: "rat \<Rightarrow> int" where
  "binade q = (if 1 \<le> q then int (ilog (nat \<lfloor>q\<rfloor>)) else - int (Suc (ilog (nat (\<lceil>1 / q\<rceil> - 1)))))"

definition scale2 :: "rat \<Rightarrow> int \<Rightarrow> rat" where
  "scale2 q e = (if 0 \<le> e then q * 2 ^ nat e else q / 2 ^ nat (- e))"

text \<open>To the nearest integer, ties to the even one.\<close>

definition round_even :: "rat \<Rightarrow> int" where
  "round_even q = (let f = \<lfloor>q\<rfloor>; r = q - of_int f in
     if r < 1 / 2 then f else if 1 / 2 < r then f + 1 else if even f then f else f + 1)"

text \<open>To the nearest double, with 53 bits of precision and exponents from -1074. Too large a value
  is an infinity when it is read from text; an integer that large raises \<open>OverflowError\<close>.\<close>

definition nearest_double :: "rat \<Rightarrow> py_float" where
  "nearest_double q =
     (if q = 0 then Finite 0
      else let e = max (binade \<bar>q\<bar> - 52) (- 1074); r = scale2 (of_int (round_even (scale2 \<bar>q\<bar> (- e)))) e
           in if scale2 1 1024 \<le> r then (if 0 < q then Infinity else NegInfinity)
              else Finite (if 0 < q then r else - r))"

section \<open>\<open>float(v)\<close>\<close>

text \<open>Digits with single underscores between them.\<close>

fun digits_ok :: "bool \<Rightarrow> string \<Rightarrow> bool" where
  "digits_ok after_digit [] = after_digit"
| "digits_ok after_digit (c # cs) =
     (if is_digit c then digits_ok True cs else c = CHR ''_'' \<and> after_digit \<and> digits_ok False cs)"

definition digits_value :: "string \<Rightarrow> nat" where
  "digits_value s = dec_value (filter is_digit s)"

definition digit_part :: "char \<Rightarrow> bool" where
  "digit_part c = (is_digit c \<or> c = CHR ''_'')"

text \<open>\<open>[digits][.[digits]][(e|E)[sign]digits]\<close>, with at least one digit before the exponent.\<close>

definition float_exponent :: "string \<Rightarrow> int option" where
  "float_exponent s = (case s of [] \<Rightarrow> Some 0
   | c # r \<Rightarrow>
      if lower_char c \<noteq> CHR ''e'' then None
      else let ds = (if r \<noteq> [] \<and> (hd r = CHR ''-'' \<or> hd r = CHR ''+'') then tl r else r)
           in if digits_ok False ds then Some ((if hd r = CHR ''-'' then - 1 else 1) * int (digits_value ds)) else None)"

definition float_magnitude :: "string \<Rightarrow> rat option" where
  "float_magnitude s =
     (let ip = takeWhile digit_part s; r = dropWhile digit_part s;
          dot = (r \<noteq> [] \<and> hd r = CHR ''.'');
          fp = (if dot then takeWhile digit_part (tl r) else []);
          ex = (if dot then dropWhile digit_part (tl r) else r)
      in if (ip = [] \<or> digits_ok False ip) \<and> (fp = [] \<or> digits_ok False fp) \<and> ip @ fp \<noteq> []
         then map_option (\<lambda>e. scale10 (of_nat (digits_value (ip @ fp))) (e - int (length (filter is_digit fp))))
                (float_exponent ex)
         else None)"

definition negate_float :: "py_float \<Rightarrow> py_float" where
  "negate_float x = (case x of Finite q \<Rightarrow> Finite (- q) | Infinity \<Rightarrow> NegInfinity | NegInfinity \<Rightarrow> Infinity
   | NotANumber \<Rightarrow> NotANumber)"

definition unsigned_float :: "string \<Rightarrow> py_float option" where
  "unsigned_float s =
     (let t = to_lower s in
      if t = ''inf'' \<or> t = ''infinity'' then Some Infinity
      else if t = ''nan'' then Some NotANumber
      else map_option nearest_double (float_magnitude s))"

definition float_text :: "string \<Rightarrow> py_float option" where
  "float_text s =
     (let t = trim s in
      if t \<noteq> [] \<and> hd t = CHR ''-'' then map_option negate_float (unsigned_float (tl t))
      else if t \<noteq> [] \<and> hd t = CHR ''+'' then unsigned_float (tl t)
      else unsigned_float t)"

definition py_float_of :: "json \<Rightarrow> py_float option" where
  "py_float_of v = (case v of
     JNum n \<Rightarrow> (case nearest_double n of Finite q \<Rightarrow> Some (Finite q) | _ \<Rightarrow> None)
   | JBool b \<Rightarrow> Some (Finite (if b then 1 else 0))
   | JStr s \<Rightarrow> float_text s
   | _ \<Rightarrow> None)"

fun float_less :: "py_float \<Rightarrow> py_float \<Rightarrow> bool" where
  "float_less NotANumber y = False"
| "float_less x NotANumber = False"
| "float_less NegInfinity y = (y \<noteq> NegInfinity)"
| "float_less x NegInfinity = False"
| "float_less Infinity y = False"
| "float_less x Infinity = True"
| "float_less (Finite p) (Finite q) = (p < q)"

definition float_le :: "py_float \<Rightarrow> py_float \<Rightarrow> bool" where
  "float_le x y = (float_less x y \<or> (x = y \<and> x \<noteq> NotANumber))"

section \<open>The evaluator\<close>

definition compare_with :: "string \<Rightarrow> py_float \<Rightarrow> py_float \<Rightarrow> bool" where
  "compare_with c x y =
     (if c = ''>'' then float_less y x else if c = ''<'' then float_less x y
      else if c = ''>='' then float_le y x else float_le x y)"

definition apply_operator :: "json \<Rightarrow> json \<Rightarrow> json \<Rightarrow> bool" where
  "apply_operator actual operator target =
     (if operator = JStr ''=='' then py_eq actual target
      else if operator = JStr ''!='' then \<not> py_eq actual target
      else case operator of JStr c \<Rightarrow>
        if List.member [''>'', ''<'', ''>='', ''<=''] c then
          (case py_float_of actual of None \<Rightarrow> False
           | Some f_actual \<Rightarrow> (case py_float_of target of None \<Rightarrow> False
              | Some f_target \<Rightarrow> compare_with c f_actual f_target))
        else if c = ''in'' then py_in actual target = Some True
        else if c = ''contains'' then py_in target actual = Some True
        else False
      | _ \<Rightarrow> False)"

text \<open>The walk along a dotted field.\<close>

fun lookup_path :: "json \<Rightarrow> string list \<Rightarrow> json" where
  "lookup_path v [] = v"
| "lookup_path v (p # ps) = (case v of JObj kvs \<Rightarrow> lookup_path (py_get p kvs) ps | _ \<Rightarrow> JNull)"

definition config_get :: "(string \<times> json) list \<Rightarrow> string \<Rightarrow> json \<Rightarrow> json" where
  "config_get kvs k dflt = (case map_of kvs k of None \<Rightarrow> dflt | Some v \<Rightarrow> v)"

definition evaluate :: "(string \<times> json) list option \<Rightarrow> json \<Rightarrow> bool" where
  "evaluate config context = (case config of None \<Rightarrow> True
   | Some kvs \<Rightarrow>
      if kvs = [] then True
      else let field = config_get kvs ''field'' JNull; operator = config_get kvs ''operator'' (JStr ''=='');
               target = config_get kvs ''value'' JNull
           in if \<not> py_truthy field then True
              else case field of
                JStr f \<Rightarrow>
                  let actual = lookup_path context (split_at (CHR ''.'') f)
                  in if actual = JNull \<and> target \<noteq> JNull then False else apply_operator actual operator target
              | _ \<Rightarrow> False)"

section \<open>Exact numbers\<close>

lemma ilog_bounds: "0 < n \<Longrightarrow> 2 ^ ilog n \<le> n \<and> n < 2 ^ Suc (ilog n)"
proof (induction n rule: ilog.induct)
  case (1 n)
  show ?case
  proof (cases "n < 2")
    case True
    with 1 show ?thesis by (simp add: ilog.simps)
  next
    case False
    with 1 have "2 ^ ilog (n div 2) \<le> n div 2" "n div 2 < 2 ^ Suc (ilog (n div 2))" by auto
    moreover have "ilog n = Suc (ilog (n div 2))" using False by (simp add: ilog.simps [of n])
    moreover have "2 * (n div 2) \<le> n" "n < 2 * (n div 2) + 2" by simp_all
    ultimately show ?thesis by (simp only: power_Suc) linarith
  qed
qed

lemma round_even_int [simp]: "round_even (of_int k) = k"
  by (simp add: round_even_def)

lemma scale2_inverse: "scale2 (scale2 q (- e)) e = q"
  by (simp add: scale2_def)

lemma scale2_of_int: "0 \<le> e \<Longrightarrow> scale2 (of_int k) e = of_int (k * 2 ^ nat e)"
  by (simp add: scale2_def)

text \<open>Every integer of at most 53 bits is a double.\<close>

lemma nearest_double_int:
  assumes "\<bar>n\<bar> \<le> 2 ^ 53"
  shows "nearest_double (of_int n) = Finite (of_int n)"
proof (cases "n = 0")
  case False
  define m where "m = \<bar>n\<bar>"
  have m: "0 < m" "m \<le> 2 ^ 53" "\<bar>rat_of_int n\<bar> = of_int m" using assms False by (simp_all add: m_def)
  define l where "l = ilog (nat m)"
  have l: "2 ^ l \<le> m" using ilog_bounds [of "nat m"] m(1) by (simp add: l_def le_nat_iff)
  have l53: "l \<le> 53"
  proof (rule ccontr)
    assume "\<not> l \<le> 53"
    then have "(2::int) ^ 54 \<le> 2 ^ l" by (intro power_increasing) simp_all
    with l m(2) show False by simp
  qed
  define e where "e = max (binade (of_int m) - 52) (- 1074)"
  have "binade (of_int m) = int l" using m(1) by (simp add: binade_def l_def)
  then have e: "e = int l - 52" by (simp add: e_def)
  have r: "scale2 (of_int (round_even (scale2 (of_int m) (- e)))) e = of_int m"
  proof (cases "l = 53")
    case True
    with l m(2) have "m = 2 ^ 53" by simp
    then have "scale2 (of_int m) (- e) = of_int (2 ^ 52)" using True e by (simp add: scale2_def)
    then show ?thesis using \<open>m = 2 ^ 53\<close> True e by (simp only: round_even_int) (simp add: scale2_def)
  next
    case False
    with l53 e have "0 \<le> - e" by simp
    then show ?thesis by (metis round_even_int scale2_of_int scale2_inverse)
  qed
  have "\<not> scale2 1 1024 \<le> (of_int m :: rat)"
  proof -
    have "(of_int m :: rat) \<le> of_int (2 ^ 53)" using m(2) by (simp only: of_int_le_iff)
    also have "\<dots> < scale2 1 1024" by (simp add: scale2_def)
    finally show ?thesis by simp
  qed
  then have "nearest_double (of_int n) = Finite (if 0 < n then of_int m else - of_int m)"
    using False r by (simp add: nearest_double_def Let_def m(3) flip: e_def)
  then show ?thesis using False by (auto simp: m_def)
qed (simp add: nearest_double_def)

text \<open>
  C31. Conditions on integers of at most 53 bits are decided exactly, although \<open>float(..)\<close> goes
  through doubles: the six comparison operators are the mathematical comparisons.
\<close>

theorem integer_conditions_exact:
  assumes "\<bar>a\<bar> \<le> 2 ^ 53" and "\<bar>b\<bar> \<le> 2 ^ 53"
  shows "apply_operator (JNum (of_int a)) (JStr ''>'') (JNum (of_int b)) = (a > b) \<and>
    apply_operator (JNum (of_int a)) (JStr ''<'') (JNum (of_int b)) = (a < b) \<and>
    apply_operator (JNum (of_int a)) (JStr ''>='') (JNum (of_int b)) = (a \<ge> b) \<and>
    apply_operator (JNum (of_int a)) (JStr ''<='') (JNum (of_int b)) = (a \<le> b) \<and>
    apply_operator (JNum (of_int a)) (JStr ''=='') (JNum (of_int b)) = (a = b) \<and>
    apply_operator (JNum (of_int a)) (JStr ''!='') (JNum (of_int b)) = (a \<noteq> b)"
proof -
  have "py_float_of (JNum (of_int a)) = Some (Finite (of_int a))"
    and "py_float_of (JNum (of_int b)) = Some (Finite (of_int b))"
    using nearest_double_int [OF assms(1)] nearest_double_int [OF assms(2)] by (simp_all add: py_float_of_def)
  then show ?thesis
    by (auto simp: apply_operator_def compare_with_def float_le_def py_number_def)
qed

lemma integer_conditions_exact_witness:
  "apply_operator (JNum (of_int 1500)) (JStr ''>'') (JNum (of_int 1000)) = ((1500::int) > 1000)"
  using integer_conditions_exact [of 1500 1000] by simp

text \<open>
  A condition whose field is missing from the request and decision data is false whatever its
  operator, so \<open>!=\<close> does not hold of a missing field; a condition without a field, and no condition
  at all, are true.
\<close>

lemma missing_field_condition:
  assumes "map_of kvs ''field'' = Some (JStr f)" and "f \<noteq> ''''"
    and "map_of kvs ''value'' = Some v" and "v \<noteq> JNull"
    and "lookup_path context (split_at (CHR ''.'') f) = JNull"
  shows "\<not> evaluate (Some kvs) context \<and> evaluate (Some (filter (\<lambda>(k, w). k \<noteq> ''field'') kvs)) context \<and>
    evaluate None context"
proof -
  have "\<not> evaluate (Some kvs) context"
    using assms by (auto simp: evaluate_def config_get_def)
  moreover have "map_of (filter (\<lambda>(k, w). k \<noteq> ''field'') kvs) ''field'' = None"
    by (auto simp: map_of_eq_None_iff)
  then have "evaluate (Some (filter (\<lambda>(k, w). k \<noteq> ''field'') kvs)) context"
    by (simp add: evaluate_def config_get_def)
  ultimately show ?thesis by (simp add: evaluate_def)
qed

definition sample_condition :: "(string \<times> json) list" where
  "sample_condition = [(''field'', JStr ''status''), (''operator'', JStr ''!=''), (''value'', JStr ''urgent'')]"

lemma missing_field_condition_witness:
  "\<not> evaluate (Some sample_condition) (JObj [(''request_data'', JObj [])])"
  using missing_field_condition [of sample_condition "''status''" "JStr ''urgent''" "JObj [(''request_data'', JObj [])]"]
  by (simp add: sample_condition_def)

end
