(* ===== verification/StateMachine.thy ===== *)
theory StateMachine
  imports Database
begin

text \<open>
  The request state machine, \<open>app/services/state_machine.py\<close>: the table of allowed transitions and
  its checks.
\<close>

definition STATE_TRANSITIONS :: "request_status \<Rightarrow> request_status list" where
  "STATE_TRANSITIONS s = (case s of
     CREATED \<Rightarrow> [IN_PROGRESS]
   | IN_PROGRESS \<Rightarrow> [APPROVED, REJECTED, ESCALATED]
   | APPROVED \<Rightarrow> [COMPLETED]
   | REJECTED \<Rightarrow> [COMPLETED]
   | ESCALATED \<Rightarrow> [IN_PROGRESS]
   | COMPLETED \<Rightarrow> [])"

definition is_valid_transition :: "request_status \<Rightarrow> request_status \<Rightarrow> bool" where
  "is_valid_transition s t \<longleftrightarrow> (if s = t then True else list_ex (\<lambda>u. t = u) (STATE_TRANSITIONS s))"

definition validate_transition :: "request_status \<Rightarrow> request_status \<Rightarrow> unit op" where
  "validate_transition s t = (if is_valid_transition s t then return_op () else raise_op (InvalidStateTransition s t))"

definition get_allowed_next_states :: "request_status \<Rightarrow> request_status list" where
  "get_allowed_next_states s = STATE_TRANSITIONS s"

definition is_terminal_state :: "request_status \<Rightarrow> bool" where
  "is_terminal_state s = (length (STATE_TRANSITIONS s) = 0)"

section \<open>Properties\<close>

inductive moves :: "request_status \<Rightarrow> request_status \<Rightarrow> bool" where
  stay: "moves s s"
| move: "moves s t \<Longrightarrow> is_valid_transition t u \<Longrightarrow> moves s u"

inductive_cases moves_from_completedE: "moves COMPLETED t"

lemma valid_from_completed [simp]: "is_valid_transition COMPLETED t \<longleftrightarrow> t = COMPLETED"
  by (cases t) (simp_all add: is_valid_transition_def STATE_TRANSITIONS_def)

lemma moves_completed: "moves s t \<Longrightarrow> s = COMPLETED \<Longrightarrow> t = COMPLETED"
  by (induction rule: moves.induct) auto

lemma moves_step: "is_valid_transition s t \<Longrightarrow> moves s t"
  by (rule moves.move [OF moves.stay])

lemma moves_trans: "moves t u \<Longrightarrow> moves s t \<Longrightarrow> moves s u"
  by (induction rule: moves.induct) (auto intro: moves.move)

text \<open>
  The request state machine: COMPLETED is the only terminal state, it can be reached from every
  state and never left, no state leads back to CREATED, and a completed request has been approved or
  rejected immediately before.
\<close>

lemma state_machine_shape:
  "(is_terminal_state s \<longleftrightarrow> s = COMPLETED) \<and> moves s COMPLETED \<and> (moves COMPLETED t \<longleftrightarrow> t = COMPLETED) \<and>
   (is_valid_transition s CREATED \<longleftrightarrow> s = CREATED) \<and>
   (is_valid_transition s COMPLETED \<longleftrightarrow> s \<in> {APPROVED, REJECTED, COMPLETED})"
proof -
  have v: "is_valid_transition CREATED IN_PROGRESS" "is_valid_transition IN_PROGRESS APPROVED"
    "is_valid_transition APPROVED COMPLETED" "is_valid_transition REJECTED COMPLETED"
    "is_valid_transition ESCALATED IN_PROGRESS"
    by (simp_all add: is_valid_transition_def STATE_TRANSITIONS_def)
  then have "moves s COMPLETED"
    by (cases s) (blast intro: moves.intros)+
  moreover have "is_terminal_state s \<longleftrightarrow> s = COMPLETED"
    by (cases s) (simp_all add: is_terminal_state_def STATE_TRANSITIONS_def)
  moreover have "is_valid_transition s CREATED \<longleftrightarrow> s = CREATED"
    by (cases s) (simp_all add: is_valid_transition_def STATE_TRANSITIONS_def)
  moreover have "is_valid_transition s COMPLETED \<longleftrightarrow> s \<in> {APPROVED, REJECTED, COMPLETED}"
    by (cases s) (simp_all add: is_valid_transition_def STATE_TRANSITIONS_def)
  ultimately show ?thesis using moves_completed [of COMPLETED t] moves.stay [of COMPLETED] by blast
qed

end
