(* ===== verification/Rbac.thy ===== *)
theory Rbac
  imports Database
begin

text \<open>
  Role and permission checks of the API, \<open>app/services/rbac.py\<close>. The checks raise
  \<open>PermissionDenied\<close>; they read the roles of the authenticated user and nothing else.
\<close>

definition has_permission :: "user_row \<Rightarrow> string \<Rightarrow> bool" where
  "has_permission u p =
     (if user_roles u = [] then False
      else list_ex (\<lambda>r. list_ex (\<lambda>q. perm_row_name q = p) (role_permissions r)) (user_roles u))"

definition has_role :: "user_row \<Rightarrow> string \<Rightarrow> bool" where
  "has_role u n =
     (if user_roles u = [] then False
      else list_ex (\<lambda>r. to_lower (role_row_name r) = to_lower n) (user_roles u))"

text \<open>A set, here without its order: the names in the order in which the loops add them.\<close>

definition get_user_permissions :: "user_row \<Rightarrow> string list" where
  "get_user_permissions u =
     (if user_roles u = [] then []
      else remdups (concat (map (\<lambda>r. map perm_row_name (role_permissions r)) (user_roles u))))"

definition check_permissions :: "user_row \<Rightarrow> string list \<Rightarrow> ('s, unit) session_op" where
  "check_permissions u required =
     (let user_perms = get_user_permissions u;
          missing = filter (\<lambda>p. \<not> List.member user_perms p) required
      in if missing \<noteq> [] then raise_op PermissionDenied else return_op ())"

definition check_role :: "user_row \<Rightarrow> string \<Rightarrow> ('s, unit) session_op" where
  "check_role u required =
     (if to_lower required = ''admin'' \<and> list_ex (has_role u) [''admin'', ''ADMIN'', ''superadmin''] then return_op ()
      else if has_role u required then return_op ()
      else raise_op PermissionDenied)"

section \<open>Lemmas\<close>

lemma has_permission_iff:
  "has_permission u p \<longleftrightarrow> (\<exists>r \<in> set (user_roles u). \<exists>q \<in> set (role_permissions r). perm_row_name q = p)"
  by (auto simp: has_permission_def list_ex_iff)

lemma has_role_iff:
  "has_role u n \<longleftrightarrow> (\<exists>r \<in> set (user_roles u). to_lower (role_row_name r) = to_lower n)"
  by (auto simp: has_role_def list_ex_iff)

lemma has_role_case: "to_lower m = to_lower n \<Longrightarrow> has_role u m = has_role u n"
  by (simp add: has_role_iff)

lemma set_user_permissions: "set (get_user_permissions u) = {p. has_permission u p}"
  by (auto simp: get_user_permissions_def has_permission_iff)

lemma check_role_pure: "check_role u n d = (fst (check_role u n d), d)"
  by (simp add: check_role_def op_defs)

lemma to_lower_admin [simp]: "to_lower ''admin'' = ''admin''" "to_lower ''ADMIN'' = ''admin''"
  "to_lower ''superadmin'' = ''superadmin''"
  by code_simp+

lemma check_role_admin:
  "check_role u ''admin'' d =
     (if has_role u ''admin'' \<or> has_role u ''superadmin'' then (Inr (), d) else (Inl PermissionDenied, d))"
  using has_role_case [of "''ADMIN''" "''admin''" u] by (simp add: check_role_def op_defs)

text \<open>
  The permission check accepts exactly the users who have each required permission through one
  of their roles, and the role check exactly the users with a role of that name in any letter case,
  where for \<open>admin\<close> a superadmin is accepted too; neither check changes the session.
\<close>

lemma rbac_checks:
  "check_permissions u ps d = ((if set ps \<subseteq> {p. has_permission u p} then Inr () else Inl PermissionDenied), d) \<and>
   check_role u n d =
     ((if has_role u n \<or> (to_lower n = ''admin'' \<and> has_role u ''superadmin'') then Inr () else Inl PermissionDenied), d)"
proof -
  have "check_permissions u ps d = ((if set ps \<subseteq> {p. has_permission u p} then Inr () else Inl PermissionDenied), d)"
    using set_user_permissions [of u]
    by (auto simp: check_permissions_def op_defs Let_def filter_empty_conv)
  moreover have "has_role u ''ADMIN'' = has_role u ''admin''" by (rule has_role_case) simp
  moreover have "to_lower n = ''admin'' \<Longrightarrow> has_role u n = has_role u ''admin''" by (rule has_role_case) simp
  ultimately show ?thesis by (auto simp: check_role_def op_defs)
qed

end
