(* ===== verification/Engine.thy ===== *)
theory Engine
  imports Conditions StateMachine Rbac
begin

text \<open>
  The workflow engine, \<open>app/services/workflow_engine.py\<close>, with the audit service
  \<open>app/services/audit_service.py\<close>: starting a request, processing its current step, resolving the next
  step and finalising. An ORM object is its identifier; the endpoint commits or rolls back.
\<close>

section \<open>Session operations\<close>

definition add_request :: "request_row \<Rightarrow> unit op" where
  "add_request r = change_op (\<lambda>d. d\<lparr>db_requests := db_requests d @ [r]\<rparr>)"

definition add_exec :: "exec_row \<Rightarrow> unit op" where
  "add_exec x = change_op (\<lambda>d. d\<lparr>db_execs := db_execs d @ [x]\<rparr>)"

definition add_history :: "history_row \<Rightarrow> unit op" where
  "add_history h = change_op (\<lambda>d. d\<lparr>db_history := db_history d @ [h]\<rparr>)"

definition set_request :: "uuid \<Rightarrow> (request_row \<Rightarrow> request_row) \<Rightarrow> unit op" where
  "set_request i f = change_op (\<lambda>d. d\<lparr>db_requests := update_row rq_id i f (db_requests d)\<rparr>)"

definition set_exec :: "uuid \<Rightarrow> (exec_row \<Rightarrow> exec_row) \<Rightarrow> unit op" where
  "set_exec i f = change_op (\<lambda>d. d\<lparr>db_execs := update_row ex_id i f (db_execs d)\<rparr>)"

text \<open>\<open>AuditService.log_action\<close>: the entry is flushed; when that fails the session is rolled back to
  the state of the last commit (\<open>base\<close>) and the error goes on.\<close>

definition log_action :: "server \<Rightarrow> db \<Rightarrow> string \<Rightarrow> string \<Rightarrow> uuid \<Rightarrow> uuid option \<Rightarrow> uuid \<Rightarrow> json \<Rightarrow> unit op" where
  "log_action e base action resource_type resource_id actor request meta =
     and_do draw_uuid (\<lambda>i.
     and_do (change_op (\<lambda>d. d\<lparr>db_audit := db_audit d @
       [\<lparr>au_id = i, au_action = action, au_resource_type = resource_type, au_resource_id = resource_id,
         au_actor_id = actor, au_request_id = request, au_meta = meta, au_timestamp = srv_now e\<rparr>]\<rparr>)) (\<lambda>_ d.
     case flush e d of (Inl f, d') \<Rightarrow> (Inl f, rolled_back base d') | (Inr u, d') \<Rightarrow> (Inr u, d')))"

text \<open>\<open>now + timedelta(hours=n)\<close>: a date after the year 9999 or before the year 1 is an
  \<open>OverflowError\<close>.\<close>

definition deadline_after :: "server \<Rightarrow> int \<Rightarrow> int op" where
  "deadline_after e hours =
     (let t = srv_now e + 3600 * hours
      in if - 62135596800 \<le> t \<and> t \<le> 253402300799 then return_op t else raise_op OverflowError)"

definition new_request :: "uuid \<Rightarrow> uuid \<Rightarrow> uuid \<Rightarrow> (string \<times> json) list \<Rightarrow> int \<Rightarrow> request_row" where
  "new_request i workflow_id requester_id data now = \<lparr>rq_id = i, rq_workflow_id = workflow_id, rq_requester_id = requester_id,
     rq_current_step_id = None, rq_status = CREATED, rq_data = JObj data, rq_created_at = now, rq_completed_at = None\<rparr>"

definition new_exec :: "uuid \<Rightarrow> uuid \<Rightarrow> uuid \<Rightarrow> int \<Rightarrow> int \<Rightarrow> exec_row" where
  "new_exec i request step now deadline = \<lparr>ex_id = i, ex_request_id = request, ex_step_id = step, ex_status = StepPending,
     ex_assigned_to = None, ex_started_at = now, ex_completed_at = None, ex_deadline = deadline,
     ex_is_sla_breached = False, ex_comments = JNull, ex_decision_data = JNull\<rparr>"

section \<open>Starting a request\<close>

definition move_status :: "uuid \<Rightarrow> request_status \<Rightarrow> request_status \<Rightarrow> uuid \<Rightarrow> string \<Rightarrow> unit op" where
  "move_status request old_status new_status actor reason =
     and_do (validate_transition old_status new_status) (\<lambda>_.
     and_do (set_request request (\<lambda>r. r\<lparr>rq_status := new_status\<rparr>)) (\<lambda>_.
     and_do draw_uuid (\<lambda>i.
     add_history \<lparr>hi_id = i, hi_request_id = request, hi_from = old_status, hi_to = new_status,
       hi_changed_by = actor, hi_reason = reason\<rparr>)))"

definition enter_step :: "server \<Rightarrow> uuid \<Rightarrow> step_row \<Rightarrow> int op" where
  "enter_step e request step =
     and_do (deadline_after e (sd_sla_hours step)) (\<lambda>deadline.
     and_do draw_uuid (\<lambda>i.
     and_do (add_exec (new_exec i request (sd_id step) (srv_now e) deadline)) (\<lambda>_.
     and_do (set_request request (\<lambda>r. r\<lparr>rq_current_step_id := Some (sd_id step)\<rparr>)) (\<lambda>_.
     return_op deadline))))"

definition start_workflow :: "server \<Rightarrow> uuid \<Rightarrow> uuid \<Rightarrow> (string \<times> json) list \<Rightarrow> uuid op" where
  "start_workflow e workflow_id requester_id data = (\<lambda>base.
     (case query_first e wf_id (\<lambda>w. wf_id w = workflow_id \<and> wf_active w) (db_workflows base) of
        None \<Rightarrow> raise_op WorkflowEngineError
      | Some workflow \<Rightarrow>
     and_do draw_uuid (\<lambda>request.
     and_do (add_request (new_request request workflow_id requester_id data (srv_now e))) (\<lambda>_.
     and_do (flush e) (\<lambda>_.
     and_do (move_status request CREATED IN_PROGRESS requester_id ''Workflow initiation'') (\<lambda>_.
     case query_first e sd_id (\<lambda>s. sd_workflow_id s = workflow_id \<and> sd_order s = 1) (db_steps base) of
        None \<Rightarrow> raise_op WorkflowEngineError
      | Some first_step \<Rightarrow>
     and_do (enter_step e request first_step) (\<lambda>deadline.
     and_do (log_action e base ''WORKFLOW_STARTED'' ''workflow_request'' request (Some requester_id) request
       (JObj [(''workflow_id'', JStr workflow_id)])) (\<lambda>_.
     and_do (send_message e (NewAssignment (sd_id first_step) request (wf_name workflow) (sd_name first_step) deadline)) (\<lambda>_.
     return_op request)))))))) base)"

section \<open>Processing a step\<close>

definition is_admin :: "user_row \<Rightarrow> bool" where
  "is_admin user = list_ex (\<lambda>r. to_lower (role_row_name r) = ''admin'') (user_roles user)"

definition user_role_ids :: "user_row \<Rightarrow> uuid list" where
  "user_role_ids user = map role_row_id (user_roles user)"

definition user_permission_ids :: "user_row \<Rightarrow> uuid list" where
  "user_permission_ids user = concat (map (\<lambda>r. map perm_row_id (role_permissions r)) (user_roles user))"

definition authorize_step :: "user_row \<Rightarrow> uuid \<Rightarrow> unit op" where
  "authorize_step user step_id = (\<lambda>d.
     (if is_admin user then return_op ()
      else case get_row sd_id step_id (db_steps d) of
        None \<Rightarrow> raise_op AttributeError
      | Some step_def \<Rightarrow>
          and_do (check_op (in_opt (sd_required_role_id step_def) (user_role_ids user)) PermissionDenied) (\<lambda>_.
          check_op (in_opt (sd_required_permission_id step_def) (user_permission_ids user)) PermissionDenied)) d)"

text \<open>Closing the current step; \<open>context\<close> is \<open>None\<close> or a dictionary.\<close>

definition close_exec :: "uuid \<Rightarrow> string \<Rightarrow> (string \<times> json) list option \<Rightarrow> int \<Rightarrow> exec_row \<Rightarrow> exec_row" where
  "close_exec user outcome context now x =
     (let x1 = x\<lparr>ex_assigned_to := Some user, ex_status := step_status_of outcome,
                 ex_decision_data := (case context of None \<Rightarrow> JNull | Some kvs \<Rightarrow> JObj kvs)\<rparr>;
          x2 = (case context of None \<Rightarrow> x1
                | Some kvs \<Rightarrow> (case map_of kvs ''comment'' of None \<Rightarrow> x1 | Some c \<Rightarrow> x1\<lparr>ex_comments := c\<rparr>))
      in x2\<lparr>ex_completed_at := Some now\<rparr>)"

definition eval_context :: "request_row \<Rightarrow> (string \<times> json) list option \<Rightarrow> json" where
  "eval_context r context = JObj
     [(''request_data'', if py_truthy (rq_data r) then rq_data r else JObj []),
      (''decision_data'', case context of None \<Rightarrow> JObj [] | Some kvs \<Rightarrow> JObj kvs)]"

text \<open>\<open>for trans in transitions: \<dots>\<close>: the first transition without a condition or whose condition
  holds.\<close>

fun first_open :: "transition_row list \<Rightarrow> json \<Rightarrow> transition_row option" where
  "first_open [] context = None"
| "first_open (t # ts) context =
     (if tr_condition t = None \<or> tr_condition t = Some [] then Some t
      else if evaluate (tr_condition t) context then Some t
      else first_open ts context)"

definition to_step :: "db \<Rightarrow> transition_row \<Rightarrow> step_row option" where
  "to_step d t = (case tr_to t of None \<Rightarrow> None | Some i \<Rightarrow> get_row sd_id i (db_steps d))"

definition resolve_next :: "server \<Rightarrow> db \<Rightarrow> uuid \<Rightarrow> string \<Rightarrow> json \<Rightarrow> step_row option" where
  "resolve_next e d from_step_id outcome context =
     (let transitions = query e tr_id (\<lambda>t. tr_from t = from_step_id \<and> tr_outcome t = outcome) (db_transitions d)
      in if transitions = [] then None
         else case first_open transitions context of None \<Rightarrow> None | Some t \<Rightarrow> to_step d t)"

definition final_reason :: "string \<Rightarrow> string" where
  "final_reason outcome = ''Final step outcome: '' @ outcome"

definition finalize :: "server \<Rightarrow> db \<Rightarrow> uuid \<Rightarrow> request_status \<Rightarrow> string \<Rightarrow> uuid \<Rightarrow> unit op" where
  "finalize e base request old_status outcome actor =
     (let target_status = (if outcome = ''APPROVED'' then APPROVED else REJECTED) in
     and_do (move_status request old_status target_status actor (final_reason outcome)) (\<lambda>_.
     and_do (move_status request target_status COMPLETED actor ''Workflow completion'') (\<lambda>_.
     and_do (set_request request (\<lambda>r. r\<lparr>rq_current_step_id := None, rq_completed_at := Some (srv_now e)\<rparr>)) (\<lambda>_.
     log_action e base ''WORKFLOW_COMPLETED'' ''workflow_request'' request (Some actor) request
       (JObj [(''final_outcome'', JStr outcome)])))))"

text \<open>A notification that cannot be handed over is logged and forgotten.\<close>

definition try_send :: "server \<Rightarrow> message \<Rightarrow> unit op" where
  "try_send e m = (\<lambda>d. case send_message e m d of (Inl f, d') \<Rightarrow> (Inr (), d') | (Inr u, d') \<Rightarrow> (Inr u, d'))"

definition workflow_name_of :: "db \<Rightarrow> uuid \<Rightarrow> string" where
  "workflow_name_of d i = (case get_row wf_id i (db_workflows d) of None \<Rightarrow> '''' | Some w \<Rightarrow> wf_name w)"

definition move_on :: "server \<Rightarrow> db \<Rightarrow> request_row \<Rightarrow> step_row option \<Rightarrow> string \<Rightarrow> uuid \<Rightarrow> unit op" where
  "move_on e base request next_step outcome actor = (case next_step of
     Some step \<Rightarrow>
       and_do (enter_step e (rq_id request) step) (\<lambda>deadline.
       try_send e (NewAssignment (sd_id step) (rq_id request) (workflow_name_of base (rq_workflow_id request)) (sd_name step) deadline))
   | None \<Rightarrow> finalize e base (rq_id request) (rq_status request) outcome actor)"

definition pending_exec :: "server \<Rightarrow> db \<Rightarrow> request_row \<Rightarrow> exec_row option" where
  "pending_exec e d r = query_first e ex_id
     (\<lambda>x. ex_request_id x = rq_id r \<and> Some (ex_step_id x) = rq_current_step_id r \<and> ex_completed_at x = None) (db_execs d)"

definition process_step :: "server \<Rightarrow> uuid \<Rightarrow> user_row \<Rightarrow> string \<Rightarrow> (string \<times> json) list option \<Rightarrow> uuid op" where
  "process_step e request_id user outcome context = (\<lambda>base.
     (case get_row rq_id request_id (db_requests base) of None \<Rightarrow> raise_op WorkflowEngineError
      | Some request \<Rightarrow>
     (case pending_exec e base request of None \<Rightarrow> raise_op WorkflowEngineError
      | Some current_exec \<Rightarrow>
     and_do (authorize_step user (ex_step_id current_exec)) (\<lambda>_.
     and_do (set_exec (ex_id current_exec) (close_exec (user_id user) outcome context (srv_now e))) (\<lambda>_.
     and_do (move_on e base request
       (resolve_next e base (ex_step_id current_exec) outcome (eval_context request context)) outcome (user_id user)) (\<lambda>_.
     and_do (log_action e base ''STEP_COMPLETED'' ''request_step'' (ex_id current_exec) (Some (user_id user)) request_id
       (JObj [(''outcome'', JStr outcome), (''step_id'', JStr (ex_step_id current_exec))])) (\<lambda>_.
     return_op request_id)))))) base)"

section \<open>What each operation does\<close>

lemma definitions_ok_frame [simp]:
  "definitions_ok e (db_drawn_update f d) = definitions_ok e d"
  "definitions_ok e (db_requests_update g d) = definitions_ok e d"
  "definitions_ok e (db_execs_update x d) = definitions_ok e d"
  "definitions_ok e (db_history_update h d) = definitions_ok e d"
  "definitions_ok e (db_audit_update k d) = definitions_ok e d"
  "definitions_ok e (db_outbox_update l d) = definitions_ok e d"
  "definitions_ok e (db_escalations_update m d) = definitions_ok e d"
  by (simp_all add: definitions_ok_def)

lemma rows_ok_frame [simp]:
  "rows_ok e (db_drawn_update f d) = rows_ok e d" "rows_ok e (db_requests_update g d) = rows_ok e d"
  "rows_ok e (db_history_update h d) = rows_ok e d" "rows_ok e (db_audit_update k d) = rows_ok e d"
  "rows_ok e (db_outbox_update l d) = rows_ok e d" "rows_ok e (db_escalations_update m d) = rows_ok e d"
  by (simp_all add: rows_ok_def)

lemma new_exec_ok [simp]: "exec_row_ok e (new_exec i r s now t)"
  by (simp add: exec_row_ok_def new_exec_def known_status_def text_value_def)

lemma flush_ok [simp]: "rows_ok e d \<Longrightarrow> flush e d = (Inr (), d)"
  by (simp add: flush_def)

lemma flush_bad [simp]: "\<not> rows_ok e d \<Longrightarrow> flush e d = (Inl DatabaseError, d)"
  by (simp add: flush_def)

lemma session_ops [simp]:
  "add_request r d = (Inr (), d\<lparr>db_requests := db_requests d @ [r]\<rparr>)"
  "add_exec x d = (Inr (), d\<lparr>db_execs := db_execs d @ [x]\<rparr>)"
  "add_history h d = (Inr (), d\<lparr>db_history := db_history d @ [h]\<rparr>)"
  "set_request i f d = (Inr (), d\<lparr>db_requests := update_row rq_id i f (db_requests d)\<rparr>)"
  "set_exec i g d = (Inr (), d\<lparr>db_execs := update_row ex_id i g (db_execs d)\<rparr>)"
  by (simp_all add: add_request_def add_exec_def add_history_def set_request_def set_exec_def)

lemma move_status_run:
  "move_status r s t a why d =
     (if is_valid_transition s t
      then (Inr (), d\<lparr>db_requests := update_row rq_id r (\<lambda>q. q\<lparr>rq_status := t\<rparr>) (db_requests d),
        db_drawn := Suc (db_drawn d), db_history := db_history d @ [\<lparr>hi_id = db_uuid d (db_drawn d), hi_request_id = r,
          hi_from = s, hi_to = t, hi_changed_by = a, hi_reason = why\<rparr>]\<rparr>)
      else (Inl (InvalidStateTransition s t), d))"
  by (simp add: move_status_def validate_transition_def)

definition step_deadline :: "server \<Rightarrow> step_row \<Rightarrow> int" where
  "step_deadline e s = srv_now e + 3600 * sd_sla_hours s"

definition deadline_ok :: "server \<Rightarrow> step_row \<Rightarrow> bool" where
  "deadline_ok e s = (- 62135596800 \<le> step_deadline e s \<and> step_deadline e s \<le> 253402300799)"

lemma enter_step_run:
  "enter_step e r s d =
     (if deadline_ok e s
      then (Inr (step_deadline e s), d\<lparr>db_drawn := Suc (db_drawn d),
        db_execs := db_execs d @ [new_exec (db_uuid d (db_drawn d)) r (sd_id s) (srv_now e) (step_deadline e s)],
        db_requests := update_row rq_id r (\<lambda>q. q\<lparr>rq_current_step_id := Some (sd_id s)\<rparr>) (db_requests d)\<rparr>)
      else (Inl OverflowError, d))"
  by (simp add: enter_step_def deadline_after_def deadline_ok_def step_deadline_def Let_def)

definition audit_entry :: "server \<Rightarrow> uuid \<Rightarrow> string \<Rightarrow> string \<Rightarrow> uuid \<Rightarrow> uuid option \<Rightarrow> uuid \<Rightarrow> json \<Rightarrow> audit_row" where
  "audit_entry e i action rtype rid actor request meta = \<lparr>au_id = i, au_action = action, au_resource_type = rtype,
     au_resource_id = rid, au_actor_id = actor, au_request_id = request, au_meta = meta, au_timestamp = srv_now e\<rparr>"

lemma log_action_run:
  "log_action e base action rtype rid actor request meta d =
     (let d' = d\<lparr>db_drawn := Suc (db_drawn d),
                 db_audit := db_audit d @ [audit_entry e (db_uuid d (db_drawn d)) action rtype rid actor request meta]\<rparr>
      in if rows_ok e d then (Inr (), d') else (Inl DatabaseError, rolled_back base d'))"
  by (simp add: log_action_def audit_entry_def flush_def Let_def)

lemma send_message_run:
  "send_message e m d = (if srv_delivers e m then (Inr (), d\<lparr>db_outbox := db_outbox d @ [m]\<rparr>) else (Inl BrokerError, d))"
  by (simp add: send_message_def)

lemma try_send_run:
  "try_send e m d = (Inr (), if srv_delivers e m then d\<lparr>db_outbox := db_outbox d @ [m]\<rparr> else d)"
  by (simp add: try_send_def send_message_def)

lemmas op_runs = move_status_run enter_step_run log_action_run send_message_run try_send_run Let_def

lemma update_row_fresh [simp]: "i \<notin> key ` set rows \<Longrightarrow> update_row key i f rows = rows"
  by (induction rows) (auto simp: update_row_def)

lemma update_row_append [simp]: "update_row key i f (xs @ ys) = update_row key i f xs @ update_row key i f ys"
  by (simp add: update_row_def)

lemma update_row_single [simp]: "update_row key i f [x] = [if key x = i then f x else x]"
  by (simp add: update_row_def)

lemma update_row_twice: "(\<And>r. key (f r) = key r) \<Longrightarrow>
    update_row key i g (update_row key i f rows) = update_row key i (g \<circ> f) rows"
  by (simp add: update_row_def)

text \<open>The database after a successful start.\<close>

definition started_request :: "server \<Rightarrow> db \<Rightarrow> uuid \<Rightarrow> uuid \<Rightarrow> (string \<times> json) list \<Rightarrow> step_row \<Rightarrow> request_row" where
  "started_request e d w u data s =
     (new_request (db_uuid d (db_drawn d)) w u data (srv_now e))\<lparr>rq_status := IN_PROGRESS, rq_current_step_id := Some (sd_id s)\<rparr>"

definition start_history :: "db \<Rightarrow> uuid \<Rightarrow> history_row" where
  "start_history d u = \<lparr>hi_id = db_uuid d (Suc (db_drawn d)), hi_request_id = db_uuid d (db_drawn d), hi_from = CREATED,
     hi_to = IN_PROGRESS, hi_changed_by = u, hi_reason = ''Workflow initiation''\<rparr>"

definition started :: "server \<Rightarrow> db \<Rightarrow> uuid \<Rightarrow> uuid \<Rightarrow> (string \<times> json) list \<Rightarrow> step_row \<Rightarrow> db" where
  "started e d w u data s =
     (let rid = db_uuid d (db_drawn d) in
      d\<lparr>db_drawn := db_drawn d + 4,
        db_requests := db_requests d @ [started_request e d w u data s],
        db_execs := db_execs d @ [new_exec (db_uuid d (db_drawn d + 2)) rid (sd_id s) (srv_now e) (step_deadline e s)],
        db_history := db_history d @ [start_history d u],
        db_audit := db_audit d @ [audit_entry e (db_uuid d (db_drawn d + 3)) ''WORKFLOW_STARTED'' ''workflow_request'' rid
          (Some u) rid (JObj [(''workflow_id'', JStr w)])]\<rparr>)"

definition active_workflow :: "server \<Rightarrow> db \<Rightarrow> uuid \<Rightarrow> workflow_row option" where
  "active_workflow e d w = query_first e wf_id (\<lambda>x. wf_id x = w \<and> wf_active x) (db_workflows d)"

definition opening_step :: "server \<Rightarrow> db \<Rightarrow> uuid \<Rightarrow> step_row option" where
  "opening_step e d w = query_first e sd_id (\<lambda>s. sd_workflow_id s = w \<and> sd_order s = 1) (db_steps d)"

lemma fresh_request: "ids_ok d \<Longrightarrow> db_uuid d (db_drawn d) \<notin> rq_id ` set (db_requests d)"
  using fresh_id [of d "db_drawn d"] by (simp add: used_ids_def)

lemma start_valid [simp]: "is_valid_transition CREATED IN_PROGRESS"
  by (simp add: is_valid_transition_def STATE_TRANSITIONS_def)

lemma start_workflow_run:
  assumes "ids_ok d" and "rows_ok e d"
  shows "start_workflow e w u data d = (case active_workflow e d w of
      None \<Rightarrow> (Inl WorkflowEngineError, d)
    | Some wfl \<Rightarrow> (case opening_step e d w of
        None \<Rightarrow> (Inl WorkflowEngineError, snd (start_workflow e w u data d))
      | Some s \<Rightarrow>
          if \<not> deadline_ok e s then (Inl OverflowError, snd (start_workflow e w u data d))
          else let rid = db_uuid d (db_drawn d);
                   msg = NewAssignment (sd_id s) rid (wf_name wfl) (sd_name s) (step_deadline e s)
               in if srv_delivers e msg
                  then (Inr rid, (started e d w u data s)\<lparr>db_outbox := db_outbox d @ [msg]\<rparr>)
                  else (Inl BrokerError, started e d w u data s)))"
proof (cases "active_workflow e d w")
  case None
  then show ?thesis by (simp add: start_workflow_def active_workflow_def)
next
  case (Some wfl)
  note aw = Some
  have fr: "db_uuid d (db_drawn d) \<notin> rq_id ` set (db_requests d)" by (rule fresh_request [OF assms(1)])
  show ?thesis
  proof (cases "opening_step e d w")
    case None
    with aw assms show ?thesis
      by (simp add: start_workflow_def active_workflow_def opening_step_def move_status_run)
  next
    case (Some s)
    with aw assms fr show ?thesis
      by (simp add: start_workflow_def active_workflow_def opening_step_def op_runs started_def started_request_def
          start_history_def new_request_def rows_ok_def eval_nat_numeral db.equality)
  qed
qed

text \<open>Who may process a step, and the database after a step was processed.\<close>

definition step_allowed :: "user_row \<Rightarrow> step_row \<Rightarrow> bool" where
  "step_allowed u s \<longleftrightarrow> is_admin u \<or>
     (in_opt (sd_required_role_id s) (user_role_ids u) \<and> in_opt (sd_required_permission_id s) (user_permission_ids u))"

lemma authorize_step_run:
  "get_row sd_id i (db_steps d) = Some s \<Longrightarrow>
   authorize_step u i d = (if step_allowed u s then Inr () else Inl PermissionDenied, d)"
  by (simp add: authorize_step_def step_allowed_def check_op_def)

definition next_of :: "server \<Rightarrow> db \<Rightarrow> request_row \<Rightarrow> exec_row \<Rightarrow> string \<Rightarrow> (string \<times> json) list option \<Rightarrow> step_row option" where
  "next_of e d r x outcome context = resolve_next e d (ex_step_id x) outcome (eval_context r context)"

definition closed_execs :: "server \<Rightarrow> db \<Rightarrow> exec_row \<Rightarrow> user_row \<Rightarrow> string \<Rightarrow> (string \<times> json) list option \<Rightarrow> exec_row list" where
  "closed_execs e d x u outcome context =
     update_row ex_id (ex_id x) (close_exec (user_id u) outcome context (srv_now e)) (db_execs d)"

definition completion_entry :: "server \<Rightarrow> uuid \<Rightarrow> request_row \<Rightarrow> exec_row \<Rightarrow> user_row \<Rightarrow> string \<Rightarrow> audit_row" where
  "completion_entry e i r x u outcome = audit_entry e i ''STEP_COMPLETED'' ''request_step'' (ex_id x) (Some (user_id u)) (rq_id r)
     (JObj [(''outcome'', JStr outcome), (''step_id'', JStr (ex_step_id x))])"

definition assignment :: "server \<Rightarrow> db \<Rightarrow> request_row \<Rightarrow> step_row \<Rightarrow> message" where
  "assignment e d r s = NewAssignment (sd_id s) (rq_id r) (workflow_name_of d (rq_workflow_id r)) (sd_name s) (step_deadline e s)"

definition moved :: "server \<Rightarrow> db \<Rightarrow> request_row \<Rightarrow> exec_row \<Rightarrow> user_row \<Rightarrow> string \<Rightarrow> (string \<times> json) list option \<Rightarrow> step_row \<Rightarrow> db" where
  "moved e d r x u outcome context s =
     d\<lparr>db_drawn := db_drawn d + 2,
       db_requests := update_row rq_id (rq_id r) (\<lambda>q. q\<lparr>rq_current_step_id := Some (sd_id s)\<rparr>) (db_requests d),
       db_execs := closed_execs e d x u outcome context @
         [new_exec (db_uuid d (db_drawn d)) (rq_id r) (sd_id s) (srv_now e) (step_deadline e s)],
       db_audit := db_audit d @ [completion_entry e (db_uuid d (db_drawn d + 1)) r x u outcome],
       db_outbox := db_outbox d @ (if srv_delivers e (assignment e d r s) then [assignment e d r s] else [])\<rparr>"

definition final_target :: "string \<Rightarrow> request_status" where
  "final_target outcome = (if outcome = ''APPROVED'' then APPROVED else REJECTED)"

definition final_history :: "db \<Rightarrow> request_row \<Rightarrow> user_row \<Rightarrow> string \<Rightarrow> history_row list" where
  "final_history d r u outcome =
     [\<lparr>hi_id = db_uuid d (db_drawn d), hi_request_id = rq_id r, hi_from = rq_status r, hi_to = final_target outcome,
       hi_changed_by = user_id u, hi_reason = final_reason outcome\<rparr>,
      \<lparr>hi_id = db_uuid d (db_drawn d + 1), hi_request_id = rq_id r, hi_from = final_target outcome, hi_to = COMPLETED,
       hi_changed_by = user_id u, hi_reason = ''Workflow completion''\<rparr>]"

definition finalized :: "server \<Rightarrow> db \<Rightarrow> request_row \<Rightarrow> exec_row \<Rightarrow> user_row \<Rightarrow> string \<Rightarrow> (string \<times> json) list option \<Rightarrow> db" where
  "finalized e d r x u outcome context =
     d\<lparr>db_drawn := db_drawn d + 4,
       db_requests := update_row rq_id (rq_id r)
         (\<lambda>q. q\<lparr>rq_status := COMPLETED, rq_current_step_id := None, rq_completed_at := Some (srv_now e)\<rparr>) (db_requests d),
       db_execs := closed_execs e d x u outcome context,
       db_history := db_history d @ final_history d r u outcome,
       db_audit := db_audit d @
         [audit_entry e (db_uuid d (db_drawn d + 2)) ''WORKFLOW_COMPLETED'' ''workflow_request'' (rq_id r) (Some (user_id u)) (rq_id r)
            (JObj [(''final_outcome'', JStr outcome)]),
          completion_entry e (db_uuid d (db_drawn d + 3)) r x u outcome]\<rparr>"

lemma close_exec_id [simp]: "ex_id (close_exec u out c now x) = ex_id x"
  and close_exec_request [simp]: "ex_request_id (close_exec u out c now x) = ex_request_id x"
  and close_exec_step [simp]: "ex_step_id (close_exec u out c now x) = ex_step_id x"
  and close_exec_done [simp]: "ex_completed_at (close_exec u out c now x) = Some now"
  and close_exec_status [simp]: "ex_status (close_exec u out c now x) = step_status_of out"
  by (simp_all add: close_exec_def Let_def split: option.splits)

lemma list_all_update_row:
  assumes "x \<in> set rows" and "distinct (map key rows)" and "list_all P rows"
  shows "list_all P (update_row key (key x) f rows) \<longleftrightarrow> P (f x)"
  using assms by (auto simp: update_row_def list_all_iff distinct_map dest: inj_onD)

lemma pending_exec_Some:
  "pending_exec e d r = Some x \<Longrightarrow> x \<in> set (db_execs d) \<and> ex_request_id x = rq_id r \<and>
     rq_current_step_id r = Some (ex_step_id x) \<and> ex_completed_at x = None"
  unfolding pending_exec_def by (drule query_first_Some) auto

lemma closed_rows_ok:
  assumes "ids_ok d" "rows_ok e d" "pending_exec e d r = Some x"
  shows "list_all (exec_row_ok e) (closed_execs e d x u out c) \<longleftrightarrow> exec_row_ok e (close_exec (user_id u) out c (srv_now e) x)"
  unfolding closed_execs_def
  by (rule list_all_update_row) (use assms pending_exec_Some [OF assms(3)] in \<open>auto simp: ids_ok_def rows_ok_def\<close>)

definition process_result :: "server \<Rightarrow> db \<Rightarrow> request_row \<Rightarrow> exec_row \<Rightarrow> user_row \<Rightarrow> string \<Rightarrow> (string \<times> json) list option \<Rightarrow>
    failure + db" where
  "process_result e d r x u outcome context =
     (case next_of e d r x outcome context of
        Some s \<Rightarrow> if \<not> deadline_ok e s then Inl OverflowError
                  else if exec_row_ok e (close_exec (user_id u) outcome context (srv_now e) x)
                  then Inr (moved e d r x u outcome context s) else Inl DatabaseError
      | None \<Rightarrow> if \<not> is_valid_transition (rq_status r) (final_target outcome)
                then Inl (InvalidStateTransition (rq_status r) (final_target outcome))
                else if exec_row_ok e (close_exec (user_id u) outcome context (srv_now e) x)
                then Inr (finalized e d r x u outcome context) else Inl DatabaseError)"

lemma final_valid_completed [simp]: "is_valid_transition (final_target out) COMPLETED"
  by (simp add: final_target_def is_valid_transition_def STATE_TRANSITIONS_def)

lemma finalize_run:
  "finalize e base i s out a d =
    (if \<not> is_valid_transition s (final_target out) then (Inl (InvalidStateTransition s (final_target out)), d)
     else log_action e base ''WORKFLOW_COMPLETED'' ''workflow_request'' i (Some a) i (JObj [(''final_outcome'', JStr out)])
       (d\<lparr>db_drawn := db_drawn d + 2,
          db_history := db_history d @ [\<lparr>hi_id = db_uuid d (db_drawn d), hi_request_id = i, hi_from = s, hi_to = final_target out,
            hi_changed_by = a, hi_reason = final_reason out\<rparr>,
          \<lparr>hi_id = db_uuid d (db_drawn d + 1), hi_request_id = i, hi_from = final_target out, hi_to = COMPLETED,
            hi_changed_by = a, hi_reason = ''Workflow completion''\<rparr>],
          db_requests := update_row rq_id i
            (\<lambda>q. q\<lparr>rq_status := COMPLETED, rq_current_step_id := None, rq_completed_at := Some (srv_now e)\<rparr>) (db_requests d)\<rparr>))"
  using final_valid_completed [of out]
  by (simp add: finalize_def move_status_run final_target_def [symmetric] update_row_twice o_def Let_def)

lemma process_step_run:
  assumes "ids_ok d" "rows_ok e d" "get_row rq_id i (db_requests d) = Some r" "pending_exec e d r = Some x"
    and "get_row sd_id (ex_step_id x) (db_steps d) = Some s"
  shows "process_step e i u outcome context d =
     (if \<not> step_allowed u s then (Inl PermissionDenied, d)
      else case process_result e d r x u outcome context of
        Inl f \<Rightarrow> (Inl f, snd (process_step e i u outcome context d))
      | Inr d' \<Rightarrow> (Inr i, d'))"
proof -
  have i: "rq_id r = i" using get_row_Some [OF assms(3)] by simp
  note c = closed_rows_ok [OF assms(1,2,4), of u outcome "context"]
  have dk: "definitions_ok e d" using assms(2) by (simp add: rows_ok_def)
  show ?thesis
  proof (cases "next_of e d r x outcome context")
    case None
    then show ?thesis
      using assms i c dk
      by (simp add: process_step_def authorize_step_run process_result_def next_of_def move_on_def finalize_run log_action_run
          Let_def rows_ok_def closed_execs_def finalized_def final_history_def completion_entry_def eval_nat_numeral)
  next
    case (Some t)
    then show ?thesis
      using assms i c dk
      by (simp add: process_step_def authorize_step_run process_result_def next_of_def move_on_def enter_step_run try_send_run log_action_run
          Let_def rows_ok_def closed_execs_def moved_def completion_entry_def assignment_def eval_nat_numeral)
  qed
qed

end
