(* ===== verification/EngineInvariant.thy ===== *)
theory EngineInvariant
  imports Engine
begin

text \<open>
  The well-formedness of a committed database with respect to the engine, and its preservation by
  \<open>start_workflow\<close> and \<open>process_step\<close>: a request is in progress with exactly one open step execution,
  that of its current step, or completed with none; its history is a chain of allowed transitions from
  CREATED to its status; executions and transitions refer to steps of the right workflow.
\<close>

definition open_execs :: "db \<Rightarrow> uuid \<Rightarrow> exec_row list" where
  "open_execs d i = filter (\<lambda>x. ex_request_id x = i \<and> ex_completed_at x = None) (db_execs d)"

definition request_history :: "db \<Rightarrow> uuid \<Rightarrow> history_row list" where
  "request_history d i = filter (\<lambda>h. hi_request_id h = i) (db_history d)"

text \<open>The status at the end of a chain of allowed transitions.\<close>

fun chain_end :: "request_status \<Rightarrow> history_row list \<Rightarrow> request_status option" where
  "chain_end s [] = Some s"
| "chain_end s (h # hs) = (if hi_from h = s \<and> is_valid_transition s (hi_to h) then chain_end (hi_to h) hs else None)"

definition status_ok :: "request_row \<Rightarrow> exec_row list \<Rightarrow> bool" where
  "status_ok r opened = (case rq_status r of
     IN_PROGRESS \<Rightarrow> length opened = 1 \<and> rq_current_step_id r = Some (ex_step_id (hd opened)) \<and> rq_completed_at r = None
   | COMPLETED \<Rightarrow> opened = [] \<and> rq_current_step_id r = None \<and> rq_completed_at r \<noteq> None
   | _ \<Rightarrow> False)"

definition request_ok :: "db \<Rightarrow> request_row \<Rightarrow> bool" where
  "request_ok d r \<longleftrightarrow> status_ok r (open_execs d (rq_id r)) \<and>
     chain_end CREATED (request_history d (rq_id r)) = Some (rq_status r)"

definition step_workflow :: "db \<Rightarrow> uuid \<Rightarrow> uuid option" where
  "step_workflow d i = map_option sd_workflow_id (get_row sd_id i (db_steps d))"

definition exec_ok :: "db \<Rightarrow> exec_row \<Rightarrow> bool" where
  "exec_ok d x \<longleftrightarrow>
     list_ex (\<lambda>r. rq_id r = ex_request_id x \<and> step_workflow d (ex_step_id x) = Some (rq_workflow_id r)) (db_requests d) \<and>
     (ex_completed_at x = None \<longrightarrow> ex_status x = StepPending)"

definition transition_ok :: "db \<Rightarrow> transition_row \<Rightarrow> bool" where
  "transition_ok d t \<longleftrightarrow> step_workflow d (tr_from t) \<noteq> None \<and>
     (tr_to t = None \<or> step_workflow d (the (tr_to t)) = step_workflow d (tr_from t))"

definition workflow_known :: "db \<Rightarrow> request_row \<Rightarrow> bool" where
  "workflow_known d r \<longleftrightarrow> rq_workflow_id r \<in> wf_id ` set (db_workflows d)"

definition engine_ok :: "db \<Rightarrow> bool" where
  "engine_ok d \<longleftrightarrow> ids_ok d \<and> list_all (request_ok d) (db_requests d) \<and> list_all (exec_ok d) (db_execs d) \<and>
     list_all (transition_ok d) (db_transitions d) \<and> list_all (workflow_known d) (db_requests d) \<and>
     list_all (\<lambda>s. sd_workflow_id s \<in> wf_id ` set (db_workflows d)) (db_steps d) \<and>
     list_all (\<lambda>h. hi_request_id h \<in> rq_id ` set (db_requests d)) (db_history d)"

lemma chain_end_append: "chain_end s (hs @ ks) = (case chain_end s hs of None \<Rightarrow> None | Some t \<Rightarrow> chain_end t ks)"
  by (induction hs arbitrary: s) auto

lemma chain_end_moves: "chain_end s hs = Some t \<Longrightarrow> moves s t"
proof (induction hs arbitrary: s)
  case Nil
  then show ?case by (simp add: moves.stay)
next
  case (Cons h hs)
  then have "is_valid_transition s (hi_to h)" "moves (hi_to h) t" by (auto split: if_splits)
  then show ?case by (blast intro: moves_trans moves_step)
qed

lemma engine_ok_ids: "engine_ok d \<Longrightarrow> ids_ok d"
  by (simp add: engine_ok_def)

lemma engine_ok_request: "engine_ok d \<Longrightarrow> r \<in> set (db_requests d) \<Longrightarrow> request_ok d r"
  by (simp add: engine_ok_def list_all_iff)

lemma engine_ok_exec: "engine_ok d \<Longrightarrow> x \<in> set (db_execs d) \<Longrightarrow> exec_ok d x"
  by (simp add: engine_ok_def list_all_iff)

lemma request_unique: "ids_ok d \<Longrightarrow> r \<in> set (db_requests d) \<Longrightarrow> q \<in> set (db_requests d) \<Longrightarrow> rq_id r = rq_id q \<Longrightarrow> r = q"
  by (auto simp: ids_ok_def distinct_map dest: inj_onD)

lemma exec_unique: "ids_ok d \<Longrightarrow> x \<in> set (db_execs d) \<Longrightarrow> y \<in> set (db_execs d) \<Longrightarrow> ex_id x = ex_id y \<Longrightarrow> x = y"
  by (auto simp: ids_ok_def distinct_map dest: inj_onD)

lemma exec_has_request: "engine_ok d \<Longrightarrow> x \<in> set (db_execs d) \<Longrightarrow> ex_request_id x \<in> rq_id ` set (db_requests d)"
  using engine_ok_exec [of d x] by (auto simp: exec_ok_def list_ex_iff intro!: image_eqI [OF sym])

lemma exec_step_workflow:
  assumes "engine_ok d" "x \<in> set (db_execs d)" "r \<in> set (db_requests d)" "ex_request_id x = rq_id r"
  shows "step_workflow d (ex_step_id x) = Some (rq_workflow_id r)"
  using engine_ok_exec [OF assms(1,2)] assms request_unique [OF engine_ok_ids [OF assms(1)] _ assms(3)]
  by (auto simp: exec_ok_def list_ex_iff)

section \<open>Rows outside an update\<close>

lemma filter_update_row_other:
  "(\<And>r. r \<in> set rows \<Longrightarrow> key r = i \<Longrightarrow> \<not> P r \<and> \<not> P (f r)) \<Longrightarrow> filter P (update_row key i f rows) = filter P rows"
  by (induction rows) (auto simp: update_row_def)

lemma filter_update_row_out:
  "(\<And>r. r \<in> set rows \<Longrightarrow> key r = i \<Longrightarrow> \<not> P (f r)) \<Longrightarrow>
    filter P (update_row key i f rows) = filter (\<lambda>r. P r \<and> key r \<noteq> i) rows"
  by (induction rows) (auto simp: update_row_def)

lemma update_row_ids: "(\<And>r. key (f r) = key r) \<Longrightarrow> key ` set (update_row key i f rows) = key ` set rows"
  using map_update_row [of key f key i rows] by (metis list.set_map)

section \<open>Frames\<close>

lemma open_execs_frame [simp]:
  "open_execs (db_drawn_update f d) i = open_execs d i" "open_execs (db_requests_update g d) i = open_execs d i"
  "open_execs (db_history_update h d) i = open_execs d i" "open_execs (db_audit_update k d) i = open_execs d i"
  "open_execs (db_outbox_update l d) i = open_execs d i" "open_execs (db_escalations_update m d) i = open_execs d i"
  by (simp_all add: open_execs_def)

lemma request_history_frame [simp]:
  "request_history (db_drawn_update f d) i = request_history d i" "request_history (db_requests_update g d) i = request_history d i"
  "request_history (db_execs_update h d) i = request_history d i" "request_history (db_audit_update k d) i = request_history d i"
  "request_history (db_outbox_update l d) i = request_history d i" "request_history (db_escalations_update m d) i = request_history d i"
  by (simp_all add: request_history_def)

lemma step_workflow_frame [simp]:
  "step_workflow (db_drawn_update f d) i = step_workflow d i" "step_workflow (db_requests_update g d) i = step_workflow d i"
  "step_workflow (db_execs_update h d) i = step_workflow d i" "step_workflow (db_audit_update k d) i = step_workflow d i"
  "step_workflow (db_history_update n d) i = step_workflow d i"
  "step_workflow (db_outbox_update l d) i = step_workflow d i" "step_workflow (db_escalations_update m d) i = step_workflow d i"
  by (simp_all add: step_workflow_def)

lemma no_rows_of_new:
  assumes "engine_ok d" "i \<notin> rq_id ` set (db_requests d)"
  shows "open_execs d i = []" "request_history d i = []"
  using assms exec_has_request [OF assms(1)]
  by (auto simp: open_execs_def request_history_def filter_empty_conv engine_ok_def list_all_iff)

text \<open>The part of the invariant that depends on tables the engine does not change.\<close>

lemma engine_okI:
  assumes "engine_ok d" and "ids_ok d'"
    and same: "db_workflows d' = db_workflows d" "db_steps d' = db_steps d" "db_transitions d' = db_transitions d"
    and "\<And>r. r \<in> set (db_requests d') \<Longrightarrow> request_ok d' r \<and> workflow_known d r"
    and "\<And>x. x \<in> set (db_execs d') \<Longrightarrow> exec_ok d' x"
    and "\<And>h. h \<in> set (db_history d') \<Longrightarrow> hi_request_id h \<in> rq_id ` set (db_requests d')"
  shows "engine_ok d'"
  using assms by (auto simp: engine_ok_def list_all_iff transition_ok_def step_workflow_def workflow_known_def)

lemma fresh_exec: "ids_ok d \<Longrightarrow> db_drawn d \<le> n \<Longrightarrow> db_uuid d n \<notin> ex_id ` set (db_execs d)"
  using fresh_id [of d n] by (simp add: used_ids_def)

lemma disjoint_part: "A \<subseteq> U \<Longrightarrow> I \<inter> U = {} \<Longrightarrow> A \<inter> I = {}"
  by blast

text \<open>Identifiers stay distinct when rows with newly drawn ones are added.\<close>

lemma ids_ok_extend:
  assumes "ids_ok d" and "db_uuid d' = db_uuid d" "db_drawn d \<le> db_drawn d'"
    and "db_workflows d' = db_workflows d" "db_steps d' = db_steps d" "db_transitions d' = db_transitions d"
    and "map rq_id (db_requests d') = map rq_id (db_requests d) @ map (db_uuid d) ns"
    and "map ex_id (db_execs d') = map ex_id (db_execs d) @ map (db_uuid d) ms"
    and "distinct ns" "distinct ms" "\<And>n. n \<in> set ns \<union> set ms \<Longrightarrow> db_drawn d \<le> n \<and> n < db_drawn d'"
  shows "ids_ok d'"
proof -
  have i: "inj (db_uuid d)" using assms(1) by (simp add: ids_ok_def)
  have r: "rq_id ` set (db_requests d') = rq_id ` set (db_requests d) \<union> db_uuid d ` set ns"
    by (metis assms(7) list.set_map set_append)
  have x: "ex_id ` set (db_execs d') = ex_id ` set (db_execs d) \<union> db_uuid d ` set ms"
    by (metis assms(8) list.set_map set_append)
  have new: "distinct (map (db_uuid d) ns)" "distinct (map (db_uuid d) ms)"
    using assms(9,10) by (simp_all add: distinct_map inj_on_subset [OF i])
  have rn: "rq_id ` set (db_requests d) \<inter> db_uuid d ` set ns = {}"
    and xn: "ex_id ` set (db_execs d) \<inter> db_uuid d ` set ms = {}"
  proof -
    have f: "n \<in> set ns \<union> set ms \<Longrightarrow> db_uuid d n \<notin> used_ids d" for n
      using fresh_id [OF assms(1), of n] assms(11) [of n] by simp
    have n: "db_uuid d ` set ns \<inter> used_ids d = {}" "db_uuid d ` set ms \<inter> used_ids d = {}" using f by auto
    have u: "rq_id ` set (db_requests d) \<subseteq> used_ids d" "ex_id ` set (db_execs d) \<subseteq> used_ids d"
      by (auto simp: used_ids_def)
    show "rq_id ` set (db_requests d) \<inter> db_uuid d ` set ns = {}" by (rule disjoint_part [OF u(1) n(1)])
    show "ex_id ` set (db_execs d) \<inter> db_uuid d ` set ms = {}" by (rule disjoint_part [OF u(2) n(2)])
  qed
  have "distinct (map rq_id (db_requests d'))"
    unfolding assms(7) distinct_append using assms(1) new(1) rn by (simp add: ids_ok_def)
  moreover have "distinct (map ex_id (db_execs d'))"
    unfolding assms(8) distinct_append using assms(1) new(2) xn by (simp add: ids_ok_def)
  moreover have "used_ids d' \<subseteq> db_uuid d ` {..<db_drawn d'}"
  proof -
    have "db_uuid d ` set ns \<union> db_uuid d ` set ms \<subseteq> db_uuid d ` {..<db_drawn d'}" using assms(11) by auto
    moreover have "used_ids d \<subseteq> db_uuid d ` {..<db_drawn d'}"
      using assms(1,3) by (auto simp: ids_ok_def)
    moreover have "used_ids d' = used_ids d \<union> db_uuid d ` set ns \<union> db_uuid d ` set ms"
      using r x assms(4-6) by (auto simp: used_ids_def)
    ultimately show ?thesis using assms(2) by auto
  qed
  ultimately show ?thesis using assms(1-6) by (simp add: ids_ok_def)
qed

section \<open>Starting keeps the invariant\<close>

lemma new_exec_fields [simp]:
  "ex_id (new_exec i r s now t) = i" "ex_request_id (new_exec i r s now t) = r" "ex_step_id (new_exec i r s now t) = s"
  "ex_completed_at (new_exec i r s now t) = None" "ex_status (new_exec i r s now t) = StepPending"
  by (simp_all add: new_exec_def)

lemma started_request_fields [simp]:
  "rq_id (started_request e d w u data s) = db_uuid d (db_drawn d)" "rq_status (started_request e d w u data s) = IN_PROGRESS"
  "rq_workflow_id (started_request e d w u data s) = w" "rq_current_step_id (started_request e d w u data s) = Some (sd_id s)"
  "rq_completed_at (started_request e d w u data s) = None"
  by (simp_all add: started_request_def new_request_def)

lemma start_history_fields [simp]:
  "hi_request_id (start_history d u) = db_uuid d (db_drawn d)" "hi_from (start_history d u) = CREATED"
  "hi_to (start_history d u) = IN_PROGRESS"
  by (simp_all add: start_history_def)

lemma started_fields [simp]:
  "db_uuid (started e d w u data s) = db_uuid d" "db_drawn (started e d w u data s) = db_drawn d + 4"
  "db_workflows (started e d w u data s) = db_workflows d" "db_steps (started e d w u data s) = db_steps d"
  "db_transitions (started e d w u data s) = db_transitions d"
  "db_requests (started e d w u data s) = db_requests d @ [started_request e d w u data s]"
  "db_execs (started e d w u data s) = db_execs d @
     [new_exec (db_uuid d (db_drawn d + 2)) (db_uuid d (db_drawn d)) (sd_id s) (srv_now e) (step_deadline e s)]"
  "db_history (started e d w u data s) = db_history d @ [start_history d u]"
  "db_outbox (started e d w u data s) = db_outbox d" "db_escalations (started e d w u data s) = db_escalations d"
  by (simp_all add: started_def Let_def)

lemma started_ids_ok: "ids_ok d \<Longrightarrow> ids_ok (started e d w u data s)"
  by (rule ids_ok_extend [where ns = "[db_drawn d]" and ms = "[db_drawn d + 2]"]) auto

lemma get_step: "ids_ok d \<Longrightarrow> s \<in> set (db_steps d) \<Longrightarrow> get_row sd_id (sd_id s) (db_steps d) = Some s"
  by (simp add: get_row_unique ids_ok_def)

lemma started_ok:
  assumes "engine_ok d" "active_workflow e d w = Some wfl" "opening_step e d w = Some s"
  shows "engine_ok (started e d w u data s)"
proof -
  let ?d' = "started e d w u data s"
  let ?i = "db_uuid d (db_drawn d)"
  note ids = engine_ok_ids [OF assms(1)]
  have new: "?i \<notin> rq_id ` set (db_requests d)" by (rule fresh_request [OF ids])
  have w: "wfl \<in> set (db_workflows d)" "wf_id wfl = w"
    using query_first_Some [OF assms(2) [unfolded active_workflow_def]] by auto
  have s: "s \<in> set (db_steps d)" "sd_workflow_id s = w"
    using query_first_Some [OF assms(3) [unfolded opening_step_def]] by auto
  have sw: "step_workflow d (sd_id s) = Some w" using get_step [OF ids s(1)] s(2) by (simp add: step_workflow_def)
  have o: "open_execs ?d' j = (if j = ?i then [new_exec (db_uuid d (db_drawn d + 2)) ?i (sd_id s) (srv_now e) (step_deadline e s)]
      else open_execs d j)" for j
    using no_rows_of_new [OF assms(1) new] by (auto simp: open_execs_def)
  have h: "request_history ?d' j = (if j = ?i then [start_history d u] else request_history d j)" for j
    using no_rows_of_new [OF assms(1) new] by (auto simp: request_history_def)
  have sw': "step_workflow ?d' j = step_workflow d j" for j by (simp add: step_workflow_def)
  have rq: "db_requests ?d' = db_requests d @ [started_request e d w u data s]" by (simp add:)
  have ro: "request_ok ?d' r \<and> workflow_known d r" if "r \<in> set (db_requests ?d')" for r
  proof (cases "r \<in> set (db_requests d)")
    case True
    with new have "rq_id r \<noteq> ?i" by (metis imageI)
    with True assms(1) show ?thesis
      by (simp add: request_ok_def o h engine_ok_def list_all_iff)
  next
    case False
    with that rq have "r = started_request e d w u data s" by simp
    with w show ?thesis by (auto simp: request_ok_def o h status_ok_def workflow_known_def)
  qed
  have xo: "exec_ok ?d' x" if "x \<in> set (db_execs ?d')" for x
  proof (cases "x \<in> set (db_execs d)")
    case True
    from engine_ok_exec [OF assms(1) True] show ?thesis by (auto simp: exec_ok_def sw' rq)
  next
    case False
    with that have "x = new_exec (db_uuid d (db_drawn d + 2)) ?i (sd_id s) (srv_now e) (step_deadline e s)"
      by (simp add:)
    then show ?thesis using sw by (simp add: exec_ok_def sw' rq)
  qed
  show ?thesis
    by (rule engine_okI [OF assms(1) started_ids_ok [OF ids] _ _ _ ro xo])
      (use assms(1) in \<open>auto simp: engine_ok_def list_all_iff\<close>)
qed

section \<open>Processing keeps the invariant\<close>

lemma single_member: "length xs = 1 \<Longrightarrow> x \<in> set xs \<Longrightarrow> xs = [x]"
  by (cases xs) auto

text \<open>The pending execution of a request does not depend on the order of the database's rows.\<close>

lemma pending_exec_iff:
  assumes "engine_ok d" "r \<in> set (db_requests d)"
  shows "pending_exec e d r = Some x \<longleftrightarrow> rq_status r = IN_PROGRESS \<and> open_execs d (rq_id r) = [x]"
proof
  assume p: "pending_exec e d r = Some x"
  then have x: "x \<in> set (open_execs d (rq_id r))" and c: "rq_current_step_id r = Some (ex_step_id x)"
    using pending_exec_Some [OF p] by (auto simp: open_execs_def)
  have "status_ok r (open_execs d (rq_id r))"
    using engine_ok_request [OF assms] by (simp add: request_ok_def)
  with c have "rq_status r = IN_PROGRESS \<and> length (open_execs d (rq_id r)) = 1"
    by (cases "rq_status r") (simp_all add: status_ok_def)
  with x show "rq_status r = IN_PROGRESS \<and> open_execs d (rq_id r) = [x]" by (simp add: single_member)
next
  assume o: "rq_status r = IN_PROGRESS \<and> open_execs d (rq_id r) = [x]"
  then have "x \<in> set (open_execs d (rq_id r))" by simp
  moreover have "rq_current_step_id r = Some (ex_step_id x)"
    using engine_ok_request [OF assms] o by (simp add: request_ok_def status_ok_def)
  moreover have "y = x" if "y \<in> set (db_execs d)" "ex_request_id y = rq_id r" "ex_completed_at y = None" for y
  proof -
    have "y \<in> set (open_execs d (rq_id r))" using that by (simp add: open_execs_def)
    with o show ?thesis by simp
  qed
  ultimately show "pending_exec e d r = Some x"
    unfolding pending_exec_def by (intro query_first_unique) (auto simp: open_execs_def)
qed

lemma closed_open_execs:
  assumes "engine_ok d" "r \<in> set (db_requests d)" "pending_exec e d r = Some x"
  shows "filter (\<lambda>y. ex_request_id y = j \<and> ex_completed_at y = None) (closed_execs e d x u out c) =
    (if j = rq_id r then [] else open_execs d j)"
proof -
  have x: "x \<in> set (db_execs d)" "ex_request_id x = rq_id r" and o: "open_execs d (rq_id r) = [x]"
    using pending_exec_Some [OF assms(3)] assms by (auto simp: pending_exec_iff)
  have "filter (\<lambda>y. ex_request_id y = j \<and> ex_completed_at y = None) (closed_execs e d x u out c) =
      filter (\<lambda>y. (ex_request_id y = j \<and> ex_completed_at y = None) \<and> ex_id y \<noteq> ex_id x) (db_execs d)"
    unfolding closed_execs_def by (rule filter_update_row_out) simp
  also have "\<dots> = filter (\<lambda>y. ex_id y \<noteq> ex_id x) (open_execs d j)"
    by (simp add: open_execs_def conj_commute)
  also have "\<dots> = (if j = rq_id r then [] else open_execs d j)"
  proof (cases "j = rq_id r")
    case True
    with o show ?thesis by simp
  next
    case False
    have "y = x" if "y \<in> set (db_execs d)" "ex_id y = ex_id x" for y
      by (rule exec_unique [OF engine_ok_ids [OF assms(1)] that(1) x(1) that(2)])
    then have "ex_id y \<noteq> ex_id x" if "y \<in> set (open_execs d j)" for y
      using that x(2) False by (auto simp: open_execs_def)
    then have "filter (\<lambda>y. ex_id y \<noteq> ex_id x) (open_execs d j) = open_execs d j" by (simp add: filter_id_conv)
    with False show ?thesis by simp
  qed
  finally show ?thesis .
qed

lemma closed_exec_ok:
  assumes "engine_ok d" "y \<in> set (closed_execs e d x u out c)"
  shows "list_ex (\<lambda>r. rq_id r = ex_request_id y \<and> step_workflow d (ex_step_id y) = Some (rq_workflow_id r)) (db_requests d) \<and>
    (ex_completed_at y = None \<longrightarrow> ex_status y = StepPending)"
proof -
  from assms(2) obtain z where z: "z \<in> set (db_execs d)"
    and y: "y = (if ex_id z = ex_id x then close_exec (user_id u) out c (srv_now e) z else z)"
    by (auto simp: closed_execs_def set_update_row)
  from engine_ok_exec [OF assms(1) z] show ?thesis by (auto simp: y exec_ok_def)
qed

lemma moved_fields [simp]:
  "db_uuid (moved e d r x u out c s) = db_uuid d" "db_drawn (moved e d r x u out c s) = db_drawn d + 2"
  "db_workflows (moved e d r x u out c s) = db_workflows d" "db_steps (moved e d r x u out c s) = db_steps d"
  "db_transitions (moved e d r x u out c s) = db_transitions d" "db_history (moved e d r x u out c s) = db_history d"
  "db_requests (moved e d r x u out c s) =
     update_row rq_id (rq_id r) (\<lambda>q. q\<lparr>rq_current_step_id := Some (sd_id s)\<rparr>) (db_requests d)"
  "db_execs (moved e d r x u out c s) = closed_execs e d x u out c @
     [new_exec (db_uuid d (db_drawn d)) (rq_id r) (sd_id s) (srv_now e) (step_deadline e s)]"
  "db_escalations (moved e d r x u out c s) = db_escalations d"
  by (simp_all add: moved_def)

lemma finalized_fields [simp]:
  "db_uuid (finalized e d r x u out c) = db_uuid d" "db_drawn (finalized e d r x u out c) = db_drawn d + 4"
  "db_workflows (finalized e d r x u out c) = db_workflows d" "db_steps (finalized e d r x u out c) = db_steps d"
  "db_transitions (finalized e d r x u out c) = db_transitions d"
  "db_history (finalized e d r x u out c) = db_history d @ final_history d r u out"
  "db_requests (finalized e d r x u out c) = update_row rq_id (rq_id r)
     (\<lambda>q. q\<lparr>rq_status := COMPLETED, rq_current_step_id := None, rq_completed_at := Some (srv_now e)\<rparr>) (db_requests d)"
  "db_execs (finalized e d r x u out c) = closed_execs e d x u out c"
  "db_escalations (finalized e d r x u out c) = db_escalations d" "db_outbox (finalized e d r x u out c) = db_outbox d"
  by (simp_all add: finalized_def)

lemma closed_execs_ids [simp]: "map ex_id (closed_execs e d x u out c) = map ex_id (db_execs d)"
  by (simp add: closed_execs_def)

lemma moved_ids_ok: "ids_ok d \<Longrightarrow> ids_ok (moved e d r x u out c s)"
  by (rule ids_ok_extend [where ns = "[]" and ms = "[db_drawn d]"]) auto

lemma finalized_ids_ok: "ids_ok d \<Longrightarrow> ids_ok (finalized e d r x u out c)"
  by (rule ids_ok_extend [where ns = "[]" and ms = "[]"]) auto

lemma first_open_in: "first_open ts k = Some t \<Longrightarrow> t \<in> set ts"
  by (induction ts) (auto split: if_splits)

lemma next_of_step:
  assumes "engine_ok d" "r \<in> set (db_requests d)" "x \<in> set (db_execs d)" "ex_request_id x = rq_id r"
    and "next_of e d r x out c = Some s"
  shows "s \<in> set (db_steps d) \<and> sd_workflow_id s = rq_workflow_id r \<and> step_workflow d (sd_id s) = Some (rq_workflow_id r)"
proof -
  let ?ts = "query e tr_id (\<lambda>t. tr_from t = ex_step_id x \<and> tr_outcome t = out) (db_transitions d)"
  obtain t where t: "first_open ?ts (eval_context r c) = Some t" "to_step d t = Some s"
    using assms(5) by (auto simp: next_of_def resolve_next_def Let_def split: if_splits option.splits)
  then have m: "t \<in> set (db_transitions d)" "tr_from t = ex_step_id x" using first_open_in [OF t(1)] by auto
  obtain i where i: "tr_to t = Some i" "get_row sd_id i (db_steps d) = Some s"
    using t(2) by (auto simp: to_step_def split: option.splits)
  have "transition_ok d t" using assms(1) m(1) by (simp add: engine_ok_def list_all_iff)
  then have "step_workflow d i = step_workflow d (ex_step_id x)" using i m(2) by (simp add: transition_ok_def)
  also have "\<dots> = Some (rq_workflow_id r)" by (rule exec_step_workflow [OF assms(1,3,2,4)])
  finally show ?thesis using i(2) get_row_Some [OF i(2)] by (auto simp: step_workflow_def)
qed

lemma update_row_in: "q \<in> set (update_row key i f rows) \<Longrightarrow> (\<exists>r \<in> set rows. key r = i \<and> q = f r) \<or> (q \<in> set rows \<and> key q \<noteq> i)"
  by (auto simp: set_update_row split: if_splits)

lemma updated_request:
  assumes "ids_ok d" "r \<in> set (db_requests d)" "q \<in> set (update_row rq_id (rq_id r) f (db_requests d))"
  shows "q = f r \<or> (q \<in> set (db_requests d) \<and> rq_id q \<noteq> rq_id r)"
  using update_row_in [OF assms(3)] request_unique [OF assms(1) _ assms(2)] by metis

lemma updated_requests_ids: "(\<And>q. rq_id (f q) = rq_id q) \<Longrightarrow> rq_id ` set (update_row rq_id i f rows) = rq_id ` set rows"
  by (rule update_row_ids)

lemma list_ex_update_requests:
  "(\<And>q. rq_id (f q) = rq_id q \<and> rq_workflow_id (f q) = rq_workflow_id q) \<Longrightarrow>
   list_ex (\<lambda>q. rq_id q = j \<and> w = Some (rq_workflow_id q)) (update_row rq_id i f rows) =
   list_ex (\<lambda>q. rq_id q = j \<and> w = Some (rq_workflow_id q)) rows"
  by (induction rows) (auto simp: update_row_def)

lemma moved_ok:
  assumes "engine_ok d" "r \<in> set (db_requests d)" "pending_exec e d r = Some x" "next_of e d r x out c = Some s"
  shows "engine_ok (moved e d r x u out c s)"
proof -
  let ?d' = "moved e d r x u out c s"
  note ids = engine_ok_ids [OF assms(1)]
  have x: "x \<in> set (db_execs d)" "ex_request_id x = rq_id r" and st: "rq_status r = IN_PROGRESS"
    using pending_exec_Some [OF assms(3)] assms by (auto simp: pending_exec_iff)
  note n = next_of_step [OF assms(1,2) x assms(4)]
  let ?new = "new_exec (db_uuid d (db_drawn d)) (rq_id r) (sd_id s) (srv_now e) (step_deadline e s)"
  have o: "open_execs ?d' j = (if j = rq_id r then [?new] else open_execs d j)" for j
    using closed_open_execs [OF assms(1-3)] by (simp add: open_execs_def)
  have h: "request_history ?d' j = request_history d j" for j by (simp add: request_history_def)
  have sw: "step_workflow ?d' j = step_workflow d j" for j by (simp add: step_workflow_def)
  have ro: "request_ok ?d' q \<and> workflow_known d q" if q: "q \<in> set (db_requests ?d')" for q
  proof (cases "rq_id q = rq_id r")
    case True
    with q have "q = r\<lparr>rq_current_step_id := Some (sd_id s)\<rparr>" using updated_request [OF ids assms(2)] by auto
    then show ?thesis
      using engine_ok_request [OF assms(1,2)] st assms(1,2)
      by (simp add: request_ok_def o h status_ok_def engine_ok_def list_all_iff workflow_known_def)
  next
    case False
    with q have "q \<in> set (db_requests d)" by (auto dest!: update_row_in)
    with False engine_ok_request [OF assms(1)] assms(1) show ?thesis
      by (simp add: request_ok_def o h engine_ok_def list_all_iff)
  qed
  have xo: "exec_ok ?d' y" if y: "y \<in> set (db_execs ?d')" for y
  proof (cases "y = ?new")
    case True
    have "list_ex (\<lambda>q. rq_id q = rq_id r \<and> step_workflow d (sd_id s) = Some (rq_workflow_id q)) (db_requests d)"
      using n assms(2) by (auto simp: list_ex_iff)
    then show ?thesis by (simp add: True exec_ok_def sw list_ex_update_requests)
  next
    case False
    with y have "y \<in> set (closed_execs e d x u out c)" by simp
    from closed_exec_ok [OF assms(1) this] show ?thesis by (simp add: exec_ok_def sw list_ex_update_requests)
  qed
  show ?thesis
    by (rule engine_okI [OF assms(1) moved_ids_ok [OF ids] _ _ _ ro xo])
      (use assms(1) in \<open>auto simp: engine_ok_def list_all_iff updated_requests_ids\<close>)
qed

lemma in_progress_final [simp]: "is_valid_transition IN_PROGRESS (final_target out)"
  by (simp add: final_target_def is_valid_transition_def STATE_TRANSITIONS_def)

lemma finalized_ok:
  assumes "engine_ok d" "r \<in> set (db_requests d)" "pending_exec e d r = Some x"
  shows "engine_ok (finalized e d r x u out c)"
proof -
  let ?d' = "finalized e d r x u out c"
  let ?f = "\<lambda>q. q\<lparr>rq_status := COMPLETED, rq_current_step_id := None, rq_completed_at := Some (srv_now e)\<rparr>"
  note ids = engine_ok_ids [OF assms(1)]
  have st: "rq_status r = IN_PROGRESS" using assms by (auto simp: pending_exec_iff)
  have o: "open_execs ?d' j = (if j = rq_id r then [] else open_execs d j)" for j
    using closed_open_execs [OF assms(1-3)] by (simp add: open_execs_def)
  have h: "request_history ?d' j = request_history d j @ (if j = rq_id r then final_history d r u out else [])" for j
    by (simp add: request_history_def final_history_def)
  have sw: "step_workflow ?d' j = step_workflow d j" for j by (simp add: step_workflow_def)
  have ch: "chain_end CREATED (request_history d (rq_id r)) = Some IN_PROGRESS"
    using engine_ok_request [OF assms(1,2)] st by (simp add: request_ok_def)
  have ro: "request_ok ?d' q \<and> workflow_known d q" if q: "q \<in> set (db_requests ?d')" for q
  proof (cases "rq_id q = rq_id r")
    case True
    with q have "q = ?f r" using updated_request [OF ids assms(2)] by auto
    then show ?thesis
      using ch st assms(1,2)
      by (simp add: request_ok_def o h status_ok_def chain_end_append final_history_def engine_ok_def list_all_iff workflow_known_def)
  next
    case False
    with q have "q \<in> set (db_requests d)" by (auto dest!: update_row_in)
    with False engine_ok_request [OF assms(1)] assms(1) show ?thesis
      by (simp add: request_ok_def o h engine_ok_def list_all_iff)
  qed
  have xo: "exec_ok ?d' y" if y: "y \<in> set (db_execs ?d')" for y
    using closed_exec_ok [OF assms(1), of y e x u out c] y by (simp add: exec_ok_def sw list_ex_update_requests)
  show ?thesis
    by (rule engine_okI [OF assms(1) finalized_ids_ok [OF ids] _ _ _ ro xo])
      (use assms(1,2) in \<open>auto simp: engine_ok_def list_all_iff updated_requests_ids final_history_def\<close>)
qed

end
