(* ===== verification/Transactions.thy ===== *)
theory Transactions
  imports EngineInvariant
begin

text \<open>
  The contract of the operations that run in a transaction of their own: messages are only added,
  identifiers are only drawn, and when the operation succeeds the invariant of the committed database
  holds again. The locale derives what a client of such an operation relies on; it is interpreted on the
  engine here, and on the SLA scan and the workflow service in their theories.
\<close>

section \<open>Operations that only add messages and identifiers\<close>

definition extends :: "db \<Rightarrow> db \<Rightarrow> bool" where
  "extends d d' \<longleftrightarrow> db_uuid d' = db_uuid d \<and> db_drawn d \<le> db_drawn d' \<and> prefix (db_outbox d) (db_outbox d')"

definition grows :: "'a op \<Rightarrow> bool" where
  "grows m \<longleftrightarrow> (\<forall>d. extends d (snd (m d)))"

lemma extends_refl [simp]: "extends d d"
  by (simp add: extends_def)

lemma extends_trans: "extends d d' \<Longrightarrow> extends d' d'' \<Longrightarrow> extends d d''"
  by (auto simp: extends_def)

lemma growsD: "grows m \<Longrightarrow> extends d (snd (m d))"
  by (simp add: grows_def)

lemma grows_and_do [intro]: "grows m \<Longrightarrow> (\<And>x. grows (f x)) \<Longrightarrow> grows (and_do m f)"
  unfolding grows_def and_do_def by (auto split: prod.splits sum.splits) (metis extends_trans snd_conv)+

lemma grows_at: "(\<And>b. grows (f b)) \<Longrightarrow> grows (\<lambda>b. f b b)"
  by (simp add: grows_def)

lemma grows_basic [intro!, simp]:
  "grows (return_op x)" "grows (raise_op err)" "grows draw_uuid" "grows (check_op b err)" "grows (flush e)"
  "grows (send_message e m)" "grows (try_send e m)"
  by (auto simp: grows_def extends_def op_defs flush_def send_message_def try_send_def)

lemma grows_tables [intro!, simp]:
  "grows (add_request r)" "grows (add_exec x)" "grows (add_history h)" "grows (set_request i f)" "grows (set_exec i g)"
  by (simp_all add: grows_def extends_def)

lemma grows_log_action [intro!, simp]: "grows (log_action e base action rtype rid actor req meta)"
  by (simp add: grows_def extends_def log_action_run Let_def rolled_back_def)

lemma grows_cases [intro]:
  "(\<And>x. grows (f x)) \<Longrightarrow> grows g \<Longrightarrow> grows (case y of None \<Rightarrow> g | Some x \<Rightarrow> f x)"
  "grows m \<Longrightarrow> grows n \<Longrightarrow> grows (if b then m else n)"
  by (cases y) auto

lemma grows_move_status [intro!, simp]: "grows (move_status r s t a why)"
  unfolding move_status_def validate_transition_def by (intro grows_and_do grows_cases) simp_all

lemma grows_enter_step [intro!, simp]: "grows (enter_step e r st)"
  unfolding enter_step_def deadline_after_def Let_def by (intro grows_and_do grows_cases) simp_all

lemma grows_finalize [intro!, simp]: "grows (finalize e base r s out a)"
  unfolding finalize_def Let_def by (intro grows_and_do) simp_all

lemma grows_move_on [intro!, simp]: "grows (move_on e base r next out a)"
  unfolding move_on_def by (intro grows_cases grows_and_do) simp_all

lemmas grows_rules = grows_cases grows_and_do grows_basic grows_tables grows_log_action grows_move_status grows_enter_step
  grows_finalize grows_move_on

lemma grows_authorize [intro!, simp]: "grows (authorize_step u i)"
  unfolding authorize_step_def by (rule grows_at) (intro grows_rules)

lemma grows_start_workflow: "grows (start_workflow e w u data)"
  unfolding start_workflow_def by (rule grows_at) (intro grows_rules)

lemma grows_process_step: "grows (process_step e i u out c)"
  unfolding process_step_def by (rule grows_at) (intro grows_rules grows_authorize)

section \<open>The contract\<close>

locale transaction =
  fixes run :: "'a op" and ok :: "db \<Rightarrow> bool"
  assumes keeps: "ok d \<Longrightarrow> run d = (Inr x, d') \<Longrightarrow> ok d'"
    and grows_run: "grows run"
    and ok_extends: "ok d \<Longrightarrow> extends d d' \<Longrightarrow> ok (rolled_back d d')"
begin

lemma committed_ok: "ok d \<Longrightarrow> ok (snd (transact run d))"
  using keeps [of d] ok_extends [of d] growsD [OF grows_run, of d]
  by (auto simp: transact_def split: prod.splits sum.splits)

lemma committed_extends: "extends d (snd (transact run d))"
  using growsD [OF grows_run, of d] by (auto simp: transact_def extends_def rolled_back_def split: prod.splits sum.splits)

text \<open>Repeating the operation, with whatever result, keeps the invariant too.\<close>

lemma repeated_ok: "ok d \<Longrightarrow> ok (((\<lambda>d. snd (transact run d)) ^^ n) d)"
  by (induction n) (simp_all add: committed_ok)

text \<open>A failed operation leaves every table as it was.\<close>

lemma failure_restores: "fst (transact run d) = Inl f \<Longrightarrow> snd (transact run d) = rolled_back d (snd (run d))"
  by (auto simp: transact_def split: prod.splits sum.splits)

lemma success_commits: "fst (transact run d) = Inr x \<Longrightarrow> snd (transact run d) = snd (run d) \<and> fst (run d) = Inr x"
  by (auto simp: transact_def split: prod.splits sum.splits)

end

section \<open>The committed database\<close>

definition committed :: "server \<Rightarrow> db \<Rightarrow> bool" where
  "committed e d \<longleftrightarrow> engine_ok d \<and> rows_ok e d"

lemma rolled_back_fields [simp]:
  "db_uuid (rolled_back d d') = db_uuid d'" "db_drawn (rolled_back d d') = db_drawn d'" "db_outbox (rolled_back d d') = db_outbox d'"
  "db_workflows (rolled_back d d') = db_workflows d" "db_steps (rolled_back d d') = db_steps d"
  "db_transitions (rolled_back d d') = db_transitions d" "db_requests (rolled_back d d') = db_requests d"
  "db_execs (rolled_back d d') = db_execs d" "db_history (rolled_back d d') = db_history d"
  "db_audit (rolled_back d d') = db_audit d" "db_escalations (rolled_back d d') = db_escalations d"
  by (simp_all add: rolled_back_def)

lemma committed_frame:
  assumes "committed e d" "extends d d'"
    and "db_workflows d' = db_workflows d" "db_steps d' = db_steps d" "db_transitions d' = db_transitions d"
    and "db_requests d' = db_requests d" "db_execs d' = db_execs d" "db_history d' = db_history d"
  shows "committed e d'"
proof -
  have "ids_ok d'"
    by (rule ids_ok_extend [where ns = "[]" and ms = "[]" and d = d])
      (use assms in \<open>simp_all add: committed_def engine_ok_def extends_def\<close>)
  then have "engine_ok d'"
    using assms by (simp add: committed_def engine_ok_def list_all_iff request_ok_def open_execs_def request_history_def
        exec_ok_def transition_ok_def step_workflow_def workflow_known_def)
  with assms show ?thesis by (simp add: committed_def rows_ok_def definitions_ok_def)
qed

lemma committed_rolled_back: "committed e d \<Longrightarrow> extends d d' \<Longrightarrow> committed e (rolled_back d d')"
  by (erule committed_frame) (simp_all add: extends_def)

lemma start_workflow_Inr:
  assumes "committed e d" "start_workflow e w u data d = (Inr i, d')"
  obtains wfl s where "active_workflow e d w = Some wfl" "opening_step e d w = Some s" "deadline_ok e s"
    "i = db_uuid d (db_drawn d)"
    "d' = (started e d w u data s)\<lparr>db_outbox := db_outbox d @ [NewAssignment (sd_id s) i (wf_name wfl) (sd_name s) (step_deadline e s)]\<rparr>"
proof -
  have "ids_ok d" "rows_ok e d" using assms(1) by (simp_all add: committed_def engine_ok_ids)
  from start_workflow_run [OF this, of w u data, unfolded assms(2)] that show thesis
    by (auto simp: Let_def split: option.splits if_splits)
qed

lemma started_committed:
  assumes "committed e d" "start_workflow e w u data d = (Inr i, d')"
  shows "committed e d'"
proof (rule start_workflow_Inr [OF assms])
  fix wfl s
  assume a: "active_workflow e d w = Some wfl" "opening_step e d w = Some s"
    and d': "d' = (started e d w u data s)\<lparr>db_outbox := db_outbox d @ [NewAssignment (sd_id s) i (wf_name wfl) (sd_name s) (step_deadline e s)]\<rparr>"
  have "committed e (started e d w u data s)"
    using started_ok [OF _ a] assms(1) by (simp add: committed_def rows_ok_def definitions_ok_def)
  then show ?thesis by (rule committed_frame) (simp_all add: d' extends_def)
qed

interpretation start: transaction "start_workflow e w u data" "committed e" for e w u data
  by unfold_locales (auto intro: started_committed committed_rolled_back grows_start_workflow)

lemma process_step_Inr:
  assumes "committed e d" "process_step e i u out c d = (Inr j, d')"
  obtains r x s where "r \<in> set (db_requests d)" "rq_id r = i" "j = i" "pending_exec e d r = Some x"
    "get_row sd_id (ex_step_id x) (db_steps d) = Some s" "step_allowed u s" "process_result e d r x u out c = Inr d'"
proof -
  have ok: "engine_ok d" "ids_ok d" "rows_ok e d" using assms(1) by (simp_all add: committed_def engine_ok_ids)
  obtain r where r: "get_row rq_id i (db_requests d) = Some r"
    using assms(2) by (cases "get_row rq_id i (db_requests d)") (auto simp: process_step_def)
  obtain x where x: "pending_exec e d r = Some x"
    using assms(2) r by (cases "pending_exec e d r") (auto simp: process_step_def)
  have m: "r \<in> set (db_requests d)" "rq_id r = i" using get_row_Some [OF r] by auto
  have "step_workflow d (ex_step_id x) = Some (rq_workflow_id r)"
    using exec_step_workflow [OF ok(1) _ m(1)] pending_exec_Some [OF x] by simp
  then obtain s where s: "get_row sd_id (ex_step_id x) (db_steps d) = Some s" by (auto simp: step_workflow_def)
  from process_step_run [OF ok(2,3) r x s, of u out c, unfolded assms(2)] that [OF m _ x s] show thesis
    by (auto split: if_splits sum.splits)
qed

lemma processed_committed:
  assumes "committed e d" "process_step e i u out c d = (Inr j, d')"
  shows "committed e d'"
proof (rule process_step_Inr [OF assms])
  fix r x s
  assume a: "r \<in> set (db_requests d)" "pending_exec e d r = Some x" "process_result e d r x u out c = Inr d'"
  have ok: "engine_ok d" "ids_ok d" "rows_ok e d" using assms(1) by (simp_all add: committed_def engine_ok_ids)
  have cr: "exec_row_ok e (close_exec (user_id u) out c (srv_now e) x)"
    using a(3) by (auto simp: process_result_def split: option.splits if_splits)
  then have "list_all (exec_row_ok e) (closed_execs e d x u out c)" by (simp add: closed_rows_ok [OF ok(2,3) a(2)])
  moreover have "definitions_ok e d" using ok(3) by (simp add: rows_ok_def)
  ultimately show ?thesis
    using a(3) moved_ok [OF ok(1) a(1,2)] finalized_ok [OF ok(1) a(1,2)]
    by (auto simp: process_result_def committed_def rows_ok_def definitions_ok_def split: option.splits if_splits)
qed

interpretation process: transaction "process_step e i u out c" "committed e" for e i u out c
  by unfold_locales (auto intro: processed_committed committed_rolled_back grows_process_step)

end
