(* ===== verification/Sample.thy ===== *)
theory Sample
  imports Transactions
begin

text \<open>
  A small committed database on which the properties of the backend are instantiated: one workflow of
  two steps, the first of which needs the manager role, and two requests in progress, one at each step.
\<close>

definition uid :: "nat \<Rightarrow> uuid" where
  "uid n = replicate n (CHR ''i'')"

lemma inj_uid: "inj uid"
  by (rule inj_on_inverseI [where g = length]) (simp add: uid_def)

lemma uid_eq [simp]: "uid m = uid n \<longleftrightarrow> m = n"
  using inj_uid by (auto dest: injD)

definition manager_role :: role_row where
  "manager_role = \<lparr>role_row_id = uid 100, role_row_name = ''Manager'', role_permissions = []\<rparr>"

definition sample_user :: "role_row list \<Rightarrow> user_row" where
  "sample_user rs = \<lparr>user_id = uid 101, user_email = ''ann@example.org'', user_full_name = ''Ann'', user_active = True, user_roles = rs\<rparr>"

text \<open>A driver that takes texts, numbers and truth values for a text column, and no containers.\<close>

definition scalar_value :: "json \<Rightarrow> bool" where
  "scalar_value v = (case v of JArr xs \<Rightarrow> False | JObj kvs \<Rightarrow> False | _ \<Rightarrow> True)"

definition sample_server :: "(message \<Rightarrow> bool) \<Rightarrow> server" where
  "sample_server delivers = \<lparr>srv_now = 1000, srv_strict = True, srv_rank = length, srv_delivers = delivers,
     srv_role_ids = [uid 100], srv_permission_ids = [], srv_text = scalar_value\<rparr>"

definition sample_step :: "nat \<Rightarrow> int \<Rightarrow> string \<Rightarrow> uuid option \<Rightarrow> step_row" where
  "sample_step i k name role = \<lparr>sd_id = uid i, sd_workflow_id = uid 1, sd_order = k, sd_name = name, sd_description = None,
     sd_required_role_id = role, sd_required_permission_id = None, sd_sla_hours = 24, sd_is_conditional = False, sd_condition = None\<rparr>"

definition review_step :: step_row where
  "review_step = sample_step 2 1 ''Review'' (Some (uid 100))"

definition payment_step :: step_row where
  "payment_step = sample_step 3 2 ''Payment'' None"

definition sample_request :: "nat \<Rightarrow> nat \<Rightarrow> request_row" where
  "sample_request i s = \<lparr>rq_id = uid i, rq_workflow_id = uid 1, rq_requester_id = uid 101, rq_current_step_id = Some (uid s),
     rq_status = IN_PROGRESS, rq_data = JObj [], rq_created_at = 0, rq_completed_at = None\<rparr>"

definition sample_exec :: "nat \<Rightarrow> nat \<Rightarrow> nat \<Rightarrow> int \<Rightarrow> exec_row" where
  "sample_exec i r s deadline = new_exec (uid i) (uid r) (uid s) 0 deadline"

definition closed_sample_exec :: exec_row where
  "closed_sample_exec = close_exec (uid 101) ''APPROVED'' None 50 (sample_exec 8 6 2 100)"

definition opening_history :: "nat \<Rightarrow> nat \<Rightarrow> history_row" where
  "opening_history i r = \<lparr>hi_id = uid i, hi_request_id = uid r, hi_from = CREATED, hi_to = IN_PROGRESS, hi_changed_by = uid 101,
     hi_reason = ''Workflow initiation''\<rparr>"

definition sample_transition :: transition_row where
  "sample_transition = \<lparr>tr_id = uid 4, tr_from = uid 2, tr_to = Some (uid 3), tr_condition = None, tr_outcome = ''APPROVED''\<rparr>"

definition sample_workflow :: workflow_row where
  "sample_workflow = \<lparr>wf_id = uid 1, wf_name = ''Invoice'', wf_description = None, wf_active = True, wf_created_by = uid 101, wf_created_at = 0\<rparr>"

definition sample_db :: db where
  "sample_db = \<lparr>db_uuid = uid, db_drawn = 20, db_workflows = [sample_workflow],
     db_steps = [review_step, payment_step], db_transitions = [sample_transition],
     db_requests = [sample_request 5 2, sample_request 6 3],
     db_execs = [sample_exec 7 5 2 100, closed_sample_exec, sample_exec 9 6 3 200],
     db_history = [opening_history 10 5, opening_history 11 6], db_audit = [], db_escalations = [], db_outbox = []\<rparr>"

lemmas sample_rows = sample_workflow_def sample_step_def review_step_def payment_step_def sample_request_def sample_exec_def
  closed_sample_exec_def opening_history_def sample_transition_def manager_role_def sample_user_def

lemma sample_tables [simp]:
  "db_uuid sample_db = uid" "db_drawn sample_db = 20" "db_workflows sample_db = [sample_workflow]"
  "db_steps sample_db = [review_step, payment_step]" "db_transitions sample_db = [sample_transition]"
  "db_requests sample_db = [sample_request 5 2, sample_request 6 3]"
  "db_execs sample_db = [sample_exec 7 5 2 100, closed_sample_exec, sample_exec 9 6 3 200]"
  "db_history sample_db = [opening_history 10 5, opening_history 11 6]" "db_outbox sample_db = []"
  by (simp_all add: sample_db_def)

lemma sample_env [simp]:
  "srv_now (sample_server f) = 1000" "srv_strict (sample_server f)" "srv_rank (sample_server f) = length"
  "srv_delivers (sample_server f) = f" "srv_role_ids (sample_server f) = [uid 100]"
  by (simp_all add: sample_server_def)

lemma sample_ids_ok: "ids_ok sample_db"
  by (auto simp: ids_ok_def inj_uid used_ids_def sample_rows)

lemma sample_engine_ok: "engine_ok sample_db"
  by (simp add: engine_ok_def sample_ids_ok request_ok_def open_execs_def request_history_def status_ok_def
      exec_ok_def step_workflow_def get_row_def transition_ok_def workflow_known_def sample_rows)

lemma sample_committed: "committed (sample_server f) sample_db"
  by (simp add: committed_def sample_engine_ok rows_ok_def definitions_ok_def exec_row_ok_def step_row_ok_def
      transition_row_ok_def sample_rows int32_def in_opt_def known_status_def text_value_def scalar_value_def new_exec_def close_exec_def
      step_status_of_def)

end
