(* ===== verification/EngineProperties.thy ===== *)
theory EngineProperties
  imports Sample
begin

text \<open>
  What the workflow engine guarantees on a committed database, for every outcome of starting a request
  and of processing a step; an operation runs in a transaction, as the endpoints run it.
\<close>

definition same_tables :: "db \<Rightarrow> db \<Rightarrow> bool" where
  "same_tables d d' \<longleftrightarrow> db_workflows d' = db_workflows d \<and> db_steps d' = db_steps d \<and> db_transitions d' = db_transitions d \<and>
     db_requests d' = db_requests d \<and> db_execs d' = db_execs d \<and> db_history d' = db_history d \<and> db_audit d' = db_audit d \<and>
     db_escalations d' = db_escalations d"

lemma same_tables_refl [simp]: "same_tables d d"
  by (simp add: same_tables_def)

lemma same_tables_rolled_back [simp]: "same_tables d (rolled_back d d')"
  by (simp add: same_tables_def)

lemma transact_Inl: "fst (m d) = Inl f \<Longrightarrow> transact m d = (Inl f, rolled_back d (snd (m d)))"
  by (cases "m d") (simp add: transact_def)

lemma transact_Inr: "m d = (Inr x, d') \<Longrightarrow> transact m d = (Inr x, d')"
  by (simp add: transact_def)

lemma transact_failed: "fst (transact m d) = Inl f \<Longrightarrow> same_tables d (snd (transact m d))"
  by (auto simp: transact_def split: prod.splits sum.splits)

section \<open>Starting\<close>

definition start_failure :: "server \<Rightarrow> db \<Rightarrow> uuid \<Rightarrow> failure option" where
  "start_failure e d w = (case active_workflow e d w of None \<Rightarrow> Some WorkflowEngineError
   | Some wfl \<Rightarrow> (case opening_step e d w of None \<Rightarrow> Some WorkflowEngineError
   | Some s \<Rightarrow> if \<not> deadline_ok e s then Some OverflowError
     else if \<not> srv_delivers e (NewAssignment (sd_id s) (db_uuid d (db_drawn d)) (wf_name wfl) (sd_name s) (step_deadline e s))
     then Some BrokerError else None))"

lemma start_fst:
  assumes "committed e d"
  shows "fst (start_workflow e w u data d) = (case start_failure e d w of Some f \<Rightarrow> Inl f | None \<Rightarrow> Inr (db_uuid d (db_drawn d)))"
proof -
  have "ids_ok d" "rows_ok e d" using assms by (simp_all add: committed_def engine_ok_ids)
  from start_workflow_run [OF this, of w u data, THEN arg_cong [where f = fst]] show ?thesis
    by (simp add: start_failure_def Let_def split: option.splits)
qed

lemma sample_start:
  "start_failure (sample_server (\<lambda>m. True)) sample_db (uid 1) = None"
  "opening_step (sample_server (\<lambda>m. True)) sample_db (uid 1) = Some review_step"
proof -
  have q: "active_workflow (sample_server (\<lambda>m. True)) sample_db (uid 1) = Some sample_workflow"
    by (simp add: active_workflow_def query_first_def query_def sample_workflow_def)
  show o: "opening_step (sample_server (\<lambda>m. True)) sample_db (uid 1) = Some review_step"
    by (simp add: opening_step_def query_first_def query_def review_step_def payment_step_def sample_step_def)
  show "start_failure (sample_server (\<lambda>m. True)) sample_db (uid 1) = None"
    by (simp add: start_failure_def q o deadline_ok_def step_deadline_def review_step_def sample_step_def del: One_nat_def)
qed

text \<open>
  C7. Starting a request of a workflow that is inactive or unknown or has no step of order 1, whose
  deadline is out of range or whose message the broker refuses fails and leaves every table as it was;
  otherwise it adds exactly one request, in progress at a first step of the workflow, with one pending
  execution of that step due after its SLA hours, and a history of one row.
\<close>

theorem start_workflow_behaviour:
  assumes "committed e d" and "transact (start_workflow e w u data) d = (res, d')"
  shows "case start_failure e d w of
      Some f \<Rightarrow> res = Inl f \<and> same_tables d d'
    | None \<Rightarrow> \<exists>s i. res = Inr i \<and> i \<notin> rq_id ` set (db_requests d) \<and>
        s \<in> set (db_steps d) \<and> sd_workflow_id s = w \<and> sd_order s = 1 \<and>
        db_requests d' = db_requests d @ [started_request e d w u data s] \<and> i = db_uuid d (db_drawn d) \<and>
        map ex_deadline (open_execs d' i) = [srv_now e + 3600 * sd_sla_hours s] \<and>
        map ex_step_id (open_execs d' i) = [sd_id s] \<and>
        map (\<lambda>h. (hi_from h, hi_to h)) (request_history d' i) = [(CREATED, IN_PROGRESS)] \<and>
        length (db_outbox d') = length (db_outbox d) + 1"
proof (cases "start_failure e d w")
  case (Some f)
  then have "fst (start_workflow e w u data d) = Inl f" using start_fst [OF assms(1)] by simp
  from transact_Inl [of "start_workflow e w u data" d, OF this] assms(2) Some show ?thesis by simp
next
  case None
  then obtain d'' where r: "start_workflow e w u data d = (Inr (db_uuid d (db_drawn d)), d'')"
    using start_fst [OF assms(1), of w u data] by (cases "start_workflow e w u data d") auto
  from transact_Inr [of "start_workflow e w u data" d, OF r] assms(2) have eq: "res = Inr (db_uuid d (db_drawn d))" "d' = d''" by simp_all
  have ok: "engine_ok d" using assms(1) by (simp add: committed_def)
  have new: "db_uuid d (db_drawn d) \<notin> rq_id ` set (db_requests d)" by (rule fresh_request [OF engine_ok_ids [OF ok]])
  obtain wfl :: workflow_row and s where s: "opening_step e d w = Some s"
    and d'': "d'' = (started e d w u data s)\<lparr>db_outbox := db_outbox d @ [NewAssignment (sd_id s) (db_uuid d (db_drawn d)) (wf_name wfl)
      (sd_name s) (step_deadline e s)]\<rparr>" by (rule start_workflow_Inr [OF assms(1) r]) blast
  have m: "s \<in> set (db_steps d) \<and> sd_workflow_id s = w \<and> sd_order s = 1"
    using query_first_Some [OF s [unfolded opening_step_def]] .
  show ?thesis
    using None eq d'' new no_rows_of_new [OF ok new] m
    by (simp add: open_execs_def request_history_def step_deadline_def new_exec_def) (intro exI [of _ s], simp)
qed

lemma start_workflow_behaviour_witness:
  "start_failure (sample_server (\<lambda>m. True)) sample_db (uid 1) = None \<and>
   length (db_requests (snd (transact (start_workflow (sample_server (\<lambda>m. True)) (uid 1) (uid 101) []) sample_db))) = 3"
  using start_workflow_behaviour [OF sample_committed, of "\<lambda>m. True" "uid 1" "uid 101" "[]", OF prod.collapse [symmetric]] sample_start(1)
  by auto

section \<open>Processing\<close>

definition current_step_def :: "db \<Rightarrow> request_row \<Rightarrow> step_row option" where
  "current_step_def d r = (case rq_current_step_id r of None \<Rightarrow> None | Some i \<Rightarrow> get_row sd_id i (db_steps d))"

definition process_outcome :: "server \<Rightarrow> db \<Rightarrow> request_row \<Rightarrow> user_row \<Rightarrow> string \<Rightarrow> (string \<times> json) list option \<Rightarrow> failure + db" where
  "process_outcome e d r u out c = (case current_step_def d r of None \<Rightarrow> Inl WorkflowEngineError
   | Some s \<Rightarrow> if \<not> step_allowed u s then Inl PermissionDenied
     else process_result e d r (hd (open_execs d (rq_id r))) u out c)"

lemma in_progress_exec:
  assumes "engine_ok d" "r \<in> set (db_requests d)" "rq_status r = IN_PROGRESS"
  obtains x s where "open_execs d (rq_id r) = [x]" "pending_exec e d r = Some x" "x \<in> set (db_execs d)" "ex_request_id x = rq_id r"
    "get_row sd_id (ex_step_id x) (db_steps d) = Some s" "current_step_def d r = Some s" "sd_workflow_id s = rq_workflow_id r"
proof -
  have st: "status_ok r (open_execs d (rq_id r))" using engine_ok_request [OF assms(1,2)] by (simp add: request_ok_def)
  with assms(3) obtain x where o: "open_execs d (rq_id r) = [x]"
    by (cases "open_execs d (rq_id r)") (auto simp: status_ok_def length_Suc_conv)
  with assms have p: "pending_exec e d r = Some x" by (simp add: pending_exec_iff)
  note x = pending_exec_Some [OF p]
  have "step_workflow d (ex_step_id x) = Some (rq_workflow_id r)"
    using exec_step_workflow [OF assms(1) _ assms(2)] x by simp
  then obtain s where "get_row sd_id (ex_step_id x) (db_steps d) = Some s" "sd_workflow_id s = rq_workflow_id r"
    by (auto simp: step_workflow_def)
  with that [OF o p] x show thesis by (simp add: current_step_def_def)
qed

lemma not_in_progress:
  assumes "engine_ok d" "r \<in> set (db_requests d)" "rq_status r \<noteq> IN_PROGRESS"
  shows "current_step_def d r = None" "pending_exec e d r = None" "rq_status r = COMPLETED"
proof -
  have "status_ok r (open_execs d (rq_id r))" using engine_ok_request [OF assms(1,2)] by (simp add: request_ok_def)
  with assms(3) have "rq_current_step_id r = None \<and> rq_status r = COMPLETED"
    by (cases "rq_status r") (simp_all add: status_ok_def)
  then show "current_step_def d r = None" "rq_status r = COMPLETED" by (simp_all add: current_step_def_def)
  show "pending_exec e d r = None" using assms by (cases "pending_exec e d r") (auto simp: pending_exec_iff)
qed

lemma process_transact:
  assumes "committed e d" "r \<in> set (db_requests d)"
  shows "case process_outcome e d r u out c of
      Inl f \<Rightarrow> fst (transact (process_step e (rq_id r) u out c) d) = Inl f \<and>
        same_tables d (snd (transact (process_step e (rq_id r) u out c) d))
    | Inr d' \<Rightarrow> transact (process_step e (rq_id r) u out c) d = (Inr (rq_id r), d')"
proof -
  have ok: "engine_ok d" "ids_ok d" "rows_ok e d" using assms(1) by (simp_all add: committed_def engine_ok_ids)
  have g: "get_row rq_id (rq_id r) (db_requests d) = Some r" by (rule get_row_unique) (use assms(2) ok(2) in \<open>simp_all add: ids_ok_def\<close>)
  show ?thesis
  proof (cases "rq_status r = IN_PROGRESS")
    case True
    obtain x s where x: "open_execs d (rq_id r) = [x]" "pending_exec e d r = Some x"
      and s: "get_row sd_id (ex_step_id x) (db_steps d) = Some s" "current_step_def d r = Some s"
      by (metis in_progress_exec [OF ok(1) assms(2) True])
    note run = process_step_run [OF ok(2,3) g x(2) s(1), of u out c]
    show ?thesis
      by (cases "process_outcome e d r u out c")
        (use run in \<open>auto simp: process_outcome_def s(2) x(1) transact_def split: if_splits sum.splits prod.splits\<close>)
  next
    case False
    have "process_step e (rq_id r) u out c d = (Inl WorkflowEngineError, d)"
      by (simp add: process_step_def g not_in_progress [OF ok(1) assms(2) False])
    then show ?thesis
      by (simp add: process_outcome_def not_in_progress [OF ok(1) assms(2) False] transact_def)
  qed
qed

text \<open>
  C8. A request is processed only while it is in progress and only for a user who is an administrator or
  has the role and the permission that the current step requires; a refused attempt leaves every table as
  it was.
\<close>

theorem process_step_authorization:
  assumes "committed e d" and "r \<in> set (db_requests d)"
    and "transact (process_step e (rq_id r) u out c) d = (res, d')"
  shows "(\<forall>i. res = Inr i \<longrightarrow> rq_status r = IN_PROGRESS \<and> (\<exists>s. current_step_def d r = Some s \<and> step_allowed u s)) \<and>
    (\<forall>f. res = Inl f \<longrightarrow> same_tables d d') \<and>
    (rq_status r = COMPLETED \<longrightarrow> res = Inl WorkflowEngineError) \<and>
    (\<forall>s. current_step_def d r = Some s \<and> \<not> step_allowed u s \<longrightarrow> res = Inl PermissionDenied)"
proof -
  have ok: "engine_ok d" using assms(1) by (simp add: committed_def)
  note p = process_transact [OF assms(1,2), of u out c, unfolded assms(3)]
  show ?thesis
  proof (cases "rq_status r = IN_PROGRESS")
    case True
    obtain s where "current_step_def d r = Some s" by (rule in_progress_exec [OF ok assms(2) True]) (rule that)
    then show ?thesis using p True
      by (cases "process_outcome e d r u out c") (auto simp: process_outcome_def split: if_splits)
  next
    case False
    then show ?thesis using p by (simp add: process_outcome_def not_in_progress [OF ok assms(2) False])
  qed
qed

lemma sample_current: "current_step_def sample_db (sample_request 5 2) = Some review_step"
  by (simp add: current_step_def_def sample_request_def get_row_def review_step_def sample_step_def)

lemma process_step_authorization_witness:
  "fst (transact (process_step (sample_server (\<lambda>m. True)) (uid 5) (sample_user []) ''APPROVED'' None) sample_db) = Inl PermissionDenied"
proof -
  have "\<not> step_allowed (sample_user []) review_step"
    by (simp add: step_allowed_def is_admin_def sample_user_def review_step_def sample_step_def in_opt_def user_role_ids_def)
  with process_step_authorization [OF sample_committed, of "sample_request 5 2" "\<lambda>m. True" "sample_user []" "''APPROVED''" None,
      OF _ prod.collapse [symmetric]] sample_current
  show ?thesis by (simp add: sample_request_def)
qed

text \<open>What the database says to the closed execution: PostgreSQL takes the names of the step statuses, and
  the comment of the context, when it has one, must be a text value.\<close>

definition comment_ok :: "server \<Rightarrow> (string \<times> json) list option \<Rightarrow> bool" where
  "comment_ok e c = (case c of None \<Rightarrow> True | Some kvs \<Rightarrow> (case map_of kvs ''comment'' of None \<Rightarrow> True | Some v \<Rightarrow> text_value e v))"

lemma closed_row_ok:
  "exec_row_ok e x \<Longrightarrow> exec_row_ok e (close_exec u out c now x) \<longleftrightarrow>
    (srv_strict e \<longrightarrow> known_status (step_status_of out)) \<and> comment_ok e c"
  by (auto simp: exec_row_ok_def close_exec_def comment_ok_def Let_def split: option.splits)

lemma decided_row_ok:
  assumes "exec_row_ok e x" "out = ''APPROVED'' \<or> out = ''REJECTED''" "comment_ok e c"
  shows "exec_row_ok e (close_exec u out c now x)"
  using assms by (auto simp: closed_row_ok step_status_of_def known_status_def)

text \<open>A decision at the end of a workflow, for the endpoints too.\<close>

lemma final_decision:
  assumes "committed e d" and "r \<in> set (db_requests d)" and "current_step_def d r = Some s" and "step_allowed u s"
    and "open_execs d (rq_id r) = [x]" and "next_of e d r x out c = None"
    and "exec_row_ok e (close_exec (user_id u) out c (srv_now e) x)"
    and "transact (process_step e (rq_id r) u out c) d = (res, d')"
  shows "res = Inr (rq_id r) \<and> open_execs d' (rq_id r) = [] \<and>
    r\<lparr>rq_status := COMPLETED, rq_current_step_id := None, rq_completed_at := Some (srv_now e)\<rparr> \<in> set (db_requests d') \<and>
    map (\<lambda>h. (hi_from h, hi_to h)) (request_history d' (rq_id r)) =
      map (\<lambda>h. (hi_from h, hi_to h)) (request_history d (rq_id r)) @
      (if out = ''APPROVED'' then [(IN_PROGRESS, APPROVED), (APPROVED, COMPLETED)] else [(IN_PROGRESS, REJECTED), (REJECTED, COMPLETED)])"
proof -
  have ok: "engine_ok d" using assms(1) by (simp add: committed_def)
  have st: "rq_status r = IN_PROGRESS"
    using assms(3) not_in_progress [OF ok assms(2)] by (cases "rq_status r = IN_PROGRESS") auto
  then have p: "pending_exec e d r = Some x" using assms(5) by (simp add: pending_exec_iff [OF ok assms(2)])
  have "process_outcome e d r u out c = Inr (finalized e d r x u out c)"
    using assms(3-7) st by (simp add: process_outcome_def process_result_def)
  with process_transact [OF assms(1,2), of u out c] assms(8) have d': "res = Inr (rq_id r)" "d' = finalized e d r x u out c"
    by simp_all
  have "open_execs d' (rq_id r) = []"
    using closed_open_execs [OF ok assms(2) p, of "rq_id r"] by (simp add: d'(2) open_execs_def)
  moreover have "r\<lparr>rq_status := COMPLETED, rq_current_step_id := None, rq_completed_at := Some (srv_now e)\<rparr> \<in> set (db_requests d')"
    using assms(2) by (auto simp: d'(2) set_update_row)
  moreover have "request_history d' (rq_id r) = request_history d (rq_id r) @ final_history d r u out"
    by (simp add: d'(2) request_history_def final_history_def)
  ultimately show ?thesis using d'(1) st by (simp add: final_history_def final_target_def)
qed

lemma final_decision_refused:
  assumes "committed e d" and "r \<in> set (db_requests d)" and "current_step_def d r = Some s" and "step_allowed u s"
    and "open_execs d (rq_id r) = [x]" and "next_of e d r x out c = None"
    and "\<not> exec_row_ok e (close_exec (user_id u) out c (srv_now e) x)"
    and "transact (process_step e (rq_id r) u out c) d = (res, d')"
  shows "res = Inl DatabaseError \<and> same_tables d d'"
proof -
  have ok: "engine_ok d" using assms(1) by (simp add: committed_def)
  have st: "rq_status r = IN_PROGRESS"
    using assms(3) not_in_progress [OF ok assms(2)] by (cases "rq_status r = IN_PROGRESS") auto
  have "process_outcome e d r u out c = Inl DatabaseError"
    using assms(3-7) st by (simp add: process_outcome_def process_result_def)
  with process_transact [OF assms(1,2), of u out c] assms(8) show ?thesis by auto
qed

text \<open>
  C9. When no transition of the current step answers to the outcome, an allowed decision ends the request
  at whatever step it is, if the database takes the closed execution, that is if the outcome names a step
  status (only PostgreSQL asks) and the comment is a text value: its status becomes COMPLETED with no
  current step and no open execution, and its history gains a move to APPROVED when the outcome is
  APPROVED and to REJECTED for every other outcome, followed by the move to COMPLETED. If the database does
  not take it, the decision fails and no table changes.
\<close>

theorem final_decision_completes:
  assumes "committed e d" and "r \<in> set (db_requests d)" and "current_step_def d r = Some s" and "step_allowed u s"
    and "open_execs d (rq_id r) = [x]" and "next_of e d r x out c = None"
    and "transact (process_step e (rq_id r) u out c) d = (res, d')"
  shows "if (srv_strict e \<longrightarrow> known_status (step_status_of out)) \<and> comment_ok e c
    then res = Inr (rq_id r) \<and> open_execs d' (rq_id r) = [] \<and>
      r\<lparr>rq_status := COMPLETED, rq_current_step_id := None, rq_completed_at := Some (srv_now e)\<rparr> \<in> set (db_requests d') \<and>
      map (\<lambda>h. (hi_from h, hi_to h)) (request_history d' (rq_id r)) =
        map (\<lambda>h. (hi_from h, hi_to h)) (request_history d (rq_id r)) @
        (if out = ''APPROVED'' then [(IN_PROGRESS, APPROVED), (APPROVED, COMPLETED)] else [(IN_PROGRESS, REJECTED), (REJECTED, COMPLETED)])
    else res = Inl DatabaseError \<and> same_tables d d'"
proof -
  have "x \<in> set (open_execs d (rq_id r))" by (simp add: assms(5))
  then have "exec_row_ok e x" using assms(1) by (simp add: open_execs_def committed_def rows_ok_def list_all_iff)
  note row = closed_row_ok [OF this, of "user_id u" out c "srv_now e"]
  show ?thesis
    using final_decision [OF assms(1-6) _ assms(7)] final_decision_refused [OF assms(1-6) _ assms(7)] row by presburger
qed

lemma sample_final_next:
  "next_of (sample_server f) sample_db (sample_request 6 3) (sample_exec 9 6 3 200) ''APPROVED'' None = None"
  by (simp add: next_of_def resolve_next_def query_def sample_exec_def sample_transition_def)

lemma sample_execute_next:
  "next_of (sample_server f) sample_db (sample_request 6 3) (sample_exec 9 6 3 200) ''EXECUTE'' None = None"
  by (simp add: next_of_def resolve_next_def query_def sample_exec_def sample_transition_def)

lemma final_decision_completes_witness:
  "map (\<lambda>h. (hi_from h, hi_to h)) (request_history (snd (transact (process_step (sample_server (\<lambda>m. True)) (uid 6)
       (sample_user []) ''APPROVED'' None) sample_db)) (uid 6)) =
     [(CREATED, IN_PROGRESS), (IN_PROGRESS, APPROVED), (APPROVED, COMPLETED)] \<and>
   fst (transact (process_step (sample_server (\<lambda>m. True)) (uid 6) (sample_user []) ''EXECUTE'' None) sample_db) = Inl DatabaseError"
proof -
  have s: "current_step_def sample_db (sample_request 6 3) = Some payment_step"
    by (simp add: current_step_def_def sample_request_def get_row_def review_step_def payment_step_def sample_step_def)
  have a: "step_allowed (sample_user []) payment_step"
    by (simp add: step_allowed_def payment_step_def sample_step_def in_opt_def)
  have x: "open_execs sample_db (rq_id (sample_request 6 3)) = [sample_exec 9 6 3 200]"
    by (simp add: open_execs_def sample_exec_def sample_request_def closed_sample_exec_def)
  have h: "map (\<lambda>h. (hi_from h, hi_to h)) (request_history sample_db (uid 6)) = [(CREATED, IN_PROGRESS)]"
    by (simp add: request_history_def opening_history_def)
  have k: "known_status (step_status_of ''APPROVED'')" "\<not> known_status (step_status_of ''EXECUTE'')"
    by (simp_all add: step_status_of_def known_status_def)
  note f = final_decision_completes [OF sample_committed _ s a x _ prod.collapse [symmetric], of "\<lambda>m. True"]
  show ?thesis
    using f [OF _ sample_final_next] f [of "''EXECUTE''" None] sample_execute_next h k
    by (simp add: comment_ok_def sample_request_def)
qed

text \<open>An outcome outside the enum, for the endpoints too.\<close>

lemma unknown_outcome:
  assumes "committed e d" and "r \<in> set (db_requests d)" and "srv_strict e" and "\<not> known_status (step_status_of out)"
    and "transact (process_step e (rq_id r) u out c) d = (res, d')"
  shows "(\<exists>f. res = Inl f) \<and> same_tables d d'"
proof -
  have "\<not> exec_row_ok e (close_exec (user_id u) out c (srv_now e) x)" for x
    using assms(3,4) by (simp add: exec_row_ok_def)
  then have "\<exists>f. process_outcome e d r u out c = Inl f"
    by (auto simp: process_outcome_def process_result_def split: option.splits)
  with process_transact [OF assms(1,2), of u out c] assms(5) show ?thesis by auto
qed

text \<open>
  PostgreSQL refuses an outcome that is not a step status: processing a step with such an outcome
  fails for every user, request and workflow, and leaves every table as it was.
\<close>

lemma unknown_outcome_fails:
  assumes "committed e d" and "r \<in> set (db_requests d)" and "srv_strict e" and "\<not> known_status (step_status_of out)"
    and "transact (process_step e (rq_id r) u out c) d = (res, d')"
  shows "(\<exists>f. res = Inl f) \<and> same_tables d d'"
  by (rule unknown_outcome [OF assms])

lemma unknown_outcome_fails_witness:
  "same_tables sample_db (snd (transact (process_step (sample_server (\<lambda>m. True)) (uid 5) (sample_user [manager_role]) ''APPROVE'' None) sample_db))"
proof -
  have "\<not> known_status (step_status_of ''APPROVE'')" by (simp add: step_status_of_def known_status_def)
  with unknown_outcome_fails [OF sample_committed, of "sample_request 5 2" "\<lambda>m. True" "''APPROVE''" "sample_user [manager_role]" None,
      OF _ _ _ prod.collapse [symmetric]]
  show ?thesis by (simp add: sample_request_def)
qed

end
