(* ===== verification/WorkflowService.thy ===== *)
theory WorkflowService
  imports EngineProperties
begin

text \<open>
  Workflow definitions: the input models of \<open>app/schemas/workflow.py\<close> and the service
  \<open>app/services/workflow_service.py\<close>. How pydantic coerces a JSON value to an integer, a boolean or a
  UUID is a parameter (\<open>codec\<close>); the lengths and ranges are checked as the models declare them.
\<close>

section \<open>Input models\<close>

record codec =
  cd_int :: "json \<Rightarrow> int option"
  cd_bool :: "json \<Rightarrow> bool option"
  cd_uuid :: "json \<Rightarrow> uuid option"

record step_in =
  si_name :: string
  si_description :: "string option"
  si_order :: int
  si_sla_hours :: int
  si_role_id :: "uuid option"
  si_permission_id :: "uuid option"
  si_is_conditional :: bool
  si_condition :: "(string \<times> json) list option"

record transition_in =
  ti_from :: int
  ti_to :: "int option"
  ti_outcome :: string
  ti_condition :: "(string \<times> json) list option"

record workflow_in =
  wi_name :: string
  wi_description :: "string option"
  wi_active :: bool
  wi_steps :: "step_in list"
  wi_transitions :: "transition_in list"

text \<open>Fields without a default, \<open>Optional\<close> fields with default \<open>None\<close>, and fields with another
  default, which refuse \<open>null\<close>. The result is \<open>None\<close> for a validation error.\<close>

definition required :: "(json \<Rightarrow> 'a option) \<Rightarrow> string \<Rightarrow> (string \<times> json) list \<Rightarrow> 'a option" where
  "required f k kvs = (case map_of kvs k of None \<Rightarrow> None | Some v \<Rightarrow> f v)"

definition optional :: "(json \<Rightarrow> 'a option) \<Rightarrow> string \<Rightarrow> (string \<times> json) list \<Rightarrow> 'a option option" where
  "optional f k kvs = (case map_of kvs k of None \<Rightarrow> Some None | Some JNull \<Rightarrow> Some None | Some v \<Rightarrow> map_option Some (f v))"

definition defaulted :: "'a \<Rightarrow> (json \<Rightarrow> 'a option) \<Rightarrow> string \<Rightarrow> (string \<times> json) list \<Rightarrow> 'a option" where
  "defaulted dflt f k kvs = (case map_of kvs k of None \<Rightarrow> Some dflt | Some v \<Rightarrow> f v)"

definition read_text :: "json \<Rightarrow> string option" where
  "read_text v = (case v of JStr s \<Rightarrow> Some s | _ \<Rightarrow> None)"

definition bounded_text :: "nat \<Rightarrow> nat \<Rightarrow> json \<Rightarrow> string option" where
  "bounded_text a b v = (case v of JStr s \<Rightarrow> if a \<le> length s \<and> length s \<le> b then Some s else None | _ \<Rightarrow> None)"

definition read_dict :: "json \<Rightarrow> (string \<times> json) list option" where
  "read_dict v = (case v of JObj kvs \<Rightarrow> Some kvs | _ \<Rightarrow> None)"

definition at_least :: "int \<Rightarrow> (json \<Rightarrow> int option) \<Rightarrow> json \<Rightarrow> int option" where
  "at_least a f v = (case f v of None \<Rightarrow> None | Some i \<Rightarrow> if a \<le> i then Some i else None)"

definition read_list :: "(json \<Rightarrow> 'a option) \<Rightarrow> json \<Rightarrow> 'a list option" where
  "read_list f v = (case v of JArr xs \<Rightarrow> those (map f xs) | _ \<Rightarrow> None)"

definition WorkflowStepCreate :: "codec \<Rightarrow> json \<Rightarrow> step_in option" where
  "WorkflowStepCreate cd v = (case v of JObj kvs \<Rightarrow>
     Option.bind (required (bounded_text 1 100) ''name'' kvs) (\<lambda>name.
     Option.bind (optional read_text ''description'' kvs) (\<lambda>description.
     Option.bind (required (at_least 1 (cd_int cd)) ''step_order'' kvs) (\<lambda>order.
     Option.bind (defaulted 24 (at_least 1 (cd_int cd)) ''sla_hours'' kvs) (\<lambda>sla.
     Option.bind (optional (cd_uuid cd) ''required_role_id'' kvs) (\<lambda>role.
     Option.bind (optional (cd_uuid cd) ''required_permission_id'' kvs) (\<lambda>permission.
     Option.bind (defaulted False (cd_bool cd) ''is_conditional'' kvs) (\<lambda>conditional.
     Option.bind (optional read_dict ''condition_config'' kvs) (\<lambda>condition.
     Some \<lparr>si_name = name, si_description = description, si_order = order, si_sla_hours = sla, si_role_id = role,
       si_permission_id = permission, si_is_conditional = conditional, si_condition = condition\<rparr>))))))))
   | _ \<Rightarrow> None)"

definition StepTransitionCreate :: "codec \<Rightarrow> json \<Rightarrow> transition_in option" where
  "StepTransitionCreate cd v = (case v of JObj kvs \<Rightarrow>
     Option.bind (required (cd_int cd) ''from_step_order'' kvs) (\<lambda>from_order.
     Option.bind (optional (cd_int cd) ''to_step_order'' kvs) (\<lambda>to_order.
     Option.bind (required read_text ''outcome'' kvs) (\<lambda>outcome.
     Option.bind (optional read_dict ''condition_config'' kvs) (\<lambda>condition.
     Some \<lparr>ti_from = from_order, ti_to = to_order, ti_outcome = outcome, ti_condition = condition\<rparr>))))
   | _ \<Rightarrow> None)"

definition WorkflowCreate :: "codec \<Rightarrow> json \<Rightarrow> workflow_in option" where
  "WorkflowCreate cd v = (case v of JObj kvs \<Rightarrow>
     Option.bind (required (bounded_text 1 255) ''name'' kvs) (\<lambda>name.
     Option.bind (optional read_text ''description'' kvs) (\<lambda>description.
     Option.bind (defaulted True (cd_bool cd) ''is_active'' kvs) (\<lambda>active.
     Option.bind (defaulted [] (read_list (WorkflowStepCreate cd)) ''steps'' kvs) (\<lambda>steps.
     Option.bind (defaulted [] (read_list (StepTransitionCreate cd)) ''transitions'' kvs) (\<lambda>transitions.
     Some \<lparr>wi_name = name, wi_description = description, wi_active = active, wi_steps = steps, wi_transitions = transitions\<rparr>)))))
   | _ \<Rightarrow> None)"

section \<open>Creating a workflow\<close>

definition add_workflow :: "workflow_row \<Rightarrow> unit op" where
  "add_workflow w = change_op (\<lambda>d. d\<lparr>db_workflows := db_workflows d @ [w]\<rparr>)"

definition add_step :: "step_row \<Rightarrow> unit op" where
  "add_step s = change_op (\<lambda>d. d\<lparr>db_steps := db_steps d @ [s]\<rparr>)"

definition add_transition :: "transition_row \<Rightarrow> unit op" where
  "add_transition t = change_op (\<lambda>d. d\<lparr>db_transitions := db_transitions d @ [t]\<rparr>)"

definition step_row_of :: "uuid \<Rightarrow> uuid \<Rightarrow> step_in \<Rightarrow> step_row" where
  "step_row_of workflow i s = \<lparr>sd_id = i, sd_workflow_id = workflow, sd_order = si_order s, sd_name = si_name s,
     sd_description = si_description s, sd_required_role_id = si_role_id s, sd_required_permission_id = si_permission_id s,
     sd_sla_hours = si_sla_hours s, sd_is_conditional = si_is_conditional s, sd_condition = si_condition s\<rparr>"

text \<open>The loop over the steps returns the dictionary from orders to steps; a later step of the same
  order replaces the earlier one.\<close>

fun create_steps :: "server \<Rightarrow> uuid \<Rightarrow> step_in list \<Rightarrow> (int \<times> uuid) list \<Rightarrow> (int \<times> uuid) list op" where
  "create_steps e workflow [] steps_map = return_op steps_map"
| "create_steps e workflow (s # ss) steps_map =
     and_do draw_uuid (\<lambda>i.
     and_do (add_step (step_row_of workflow i s)) (\<lambda>_.
     and_do (flush e) (\<lambda>_.
     create_steps e workflow ss ((si_order s, i) # steps_map))))"

definition to_step_id :: "(int \<times> uuid) list \<Rightarrow> transition_in \<Rightarrow> uuid option" where
  "to_step_id steps_map t = (case ti_to t of None \<Rightarrow> None | Some k \<Rightarrow> map_of steps_map k)"

definition transition_row_of :: "uuid \<Rightarrow> uuid \<Rightarrow> (int \<times> uuid) list \<Rightarrow> transition_in \<Rightarrow> transition_row" where
  "transition_row_of i from_step steps_map t = \<lparr>tr_id = i, tr_from = from_step, tr_to = to_step_id steps_map t,
     tr_condition = ti_condition t, tr_outcome = ti_outcome t\<rparr>"

fun create_transitions :: "(int \<times> uuid) list \<Rightarrow> transition_in list \<Rightarrow> unit op" where
  "create_transitions steps_map [] = return_op ()"
| "create_transitions steps_map (t # ts) = (case map_of steps_map (ti_from t) of
     None \<Rightarrow> create_transitions steps_map ts
   | Some from_step \<Rightarrow>
     and_do draw_uuid (\<lambda>i.
     and_do (add_transition (transition_row_of i from_step steps_map t)) (\<lambda>_.
     create_transitions steps_map ts)))"

text \<open>The commit at the end flushes the transitions.\<close>

definition create_workflow :: "server \<Rightarrow> workflow_in \<Rightarrow> uuid \<Rightarrow> uuid op" where
  "create_workflow e workflow_in creator_id =
     and_do draw_uuid (\<lambda>w.
     and_do (add_workflow \<lparr>wf_id = w, wf_name = wi_name workflow_in, wf_description = wi_description workflow_in, wf_active = True,
       wf_created_by = creator_id, wf_created_at = srv_now e\<rparr>) (\<lambda>_.
     and_do (flush e) (\<lambda>_.
     and_do (create_steps e w (wi_steps workflow_in) []) (\<lambda>steps_map.
     and_do (create_transitions steps_map (wi_transitions workflow_in)) (\<lambda>_.
     and_do (flush e) (\<lambda>_.
     return_op w))))))"

section \<open>Reading and deleting\<close>

definition get_workflow :: "uuid \<Rightarrow> workflow_row op" where
  "get_workflow i = (\<lambda>d. case get_row wf_id i (db_workflows d) of None \<Rightarrow> (Inl ResourceNotFound, d) | Some w \<Rightarrow> (Inr w, d))"

definition list_workflows :: "server \<Rightarrow> nat \<Rightarrow> nat \<Rightarrow> db \<Rightarrow> workflow_row list" where
  "list_workflows e skip limit d = take limit (drop skip (query e wf_id (\<lambda>w. True) (db_workflows d)))"

text \<open>Deleting a workflow deletes its steps and the transitions from and to them (\<open>cascade\<close>); the ORM sets
  \<open>workflow_id\<close> of its requests to null, which the column refuses.\<close>

definition workflow_step_ids :: "db \<Rightarrow> uuid \<Rightarrow> uuid list" where
  "workflow_step_ids d i = map sd_id (filter (\<lambda>s. sd_workflow_id s = i) (db_steps d))"

definition remove_workflow :: "uuid \<Rightarrow> db \<Rightarrow> db" where
  "remove_workflow i d = d\<lparr>db_workflows := filter (\<lambda>w. wf_id w \<noteq> i) (db_workflows d),
     db_steps := filter (\<lambda>s. sd_workflow_id s \<noteq> i) (db_steps d),
     db_transitions := filter (\<lambda>t. tr_from t \<notin> set (workflow_step_ids d i) \<and>
       \<not> (case tr_to t of None \<Rightarrow> False | Some j \<Rightarrow> List.member (workflow_step_ids d i) j)) (db_transitions d)\<rparr>"

definition delete_workflow :: "server \<Rightarrow> uuid \<Rightarrow> unit op" where
  "delete_workflow e i =
     and_do (get_workflow i) (\<lambda>w d.
     if list_ex (\<lambda>r. rq_workflow_id r = i) (db_requests d) then (Inl DatabaseError, d)
     else and_do (change_op (remove_workflow i)) (\<lambda>_. flush e) d)"

section \<open>What creation does\<close>

fun step_rows :: "(nat \<Rightarrow> uuid) \<Rightarrow> uuid \<Rightarrow> nat \<Rightarrow> step_in list \<Rightarrow> step_row list" where
  "step_rows u w n [] = []"
| "step_rows u w n (s # ss) = step_row_of w (u n) s # step_rows u w (Suc n) ss"

fun steps_map_from :: "(nat \<Rightarrow> uuid) \<Rightarrow> nat \<Rightarrow> step_in list \<Rightarrow> (int \<times> uuid) list \<Rightarrow> (int \<times> uuid) list" where
  "steps_map_from u n [] m = m"
| "steps_map_from u n (s # ss) m = steps_map_from u (Suc n) ss ((si_order s, u n) # m)"

fun transition_rows :: "(nat \<Rightarrow> uuid) \<Rightarrow> nat \<Rightarrow> (int \<times> uuid) list \<Rightarrow> transition_in list \<Rightarrow> transition_row list" where
  "transition_rows u n m [] = []"
| "transition_rows u n m (t # ts) = (case map_of m (ti_from t) of None \<Rightarrow> transition_rows u n m ts
     | Some i \<Rightarrow> transition_row_of (u n) i m t # transition_rows u (Suc n) m ts)"

definition step_input_ok :: "server \<Rightarrow> step_in \<Rightarrow> bool" where
  "step_input_ok e s = step_row_ok e (step_row_of [] [] s)"

lemma step_row_of_ok [simp]: "step_row_ok e (step_row_of w i s) = step_input_ok e s"
  by (simp add: step_input_ok_def step_row_ok_def step_row_of_def)

lemma step_row_of_fields [simp]:
  "sd_id (step_row_of w i s) = i" "sd_workflow_id (step_row_of w i s) = w" "sd_order (step_row_of w i s) = si_order s"
  "sd_sla_hours (step_row_of w i s) = si_sla_hours s" "sd_required_role_id (step_row_of w i s) = si_role_id s"
  "sd_required_permission_id (step_row_of w i s) = si_permission_id s" "sd_name (step_row_of w i s) = si_name s"
  by (simp_all add: step_row_of_def)

lemma step_rows_ids: "map sd_id (step_rows u w n ss) = map u [n..<n + length ss]"
  by (induction ss arbitrary: n) (simp_all add: upt_rec)

lemma step_rows_workflow: "s \<in> set (step_rows u w n ss) \<Longrightarrow> sd_workflow_id s = w"
  by (induction ss arbitrary: n) auto

lemma step_rows_ok [simp]: "list_all (step_row_ok e) (step_rows u w n ss) = list_all (step_input_ok e) ss"
  by (induction ss arbitrary: n) simp_all

lemma step_rows_length [simp]: "length (step_rows u w n ss) = length ss"
  by (induction ss arbitrary: n) simp_all

lemma step_rows_nth: "k < length ss \<Longrightarrow> step_rows u w n ss ! k = step_row_of w (u (n + k)) (ss ! k)"
proof (induction ss arbitrary: n k)
  case (Cons s ss)
  then show ?case by (cases k) simp_all
qed simp

lemma steps_map_range: "map_of (steps_map_from u n ss m) k = Some i \<Longrightarrow> i \<in> u ` {n..<n + length ss} \<or> map_of m k = Some i"
proof (induction ss arbitrary: n m)
  case (Cons s ss)
  have "i \<in> u ` {Suc n..<Suc n + length ss} \<or> map_of ((si_order s, u n) # m) k = Some i"
    using Cons.IH [of "Suc n" "(si_order s, u n) # m"] Cons.prems by simp
  then show ?case by (auto split: if_splits)
qed simp

lemma transition_rows_in:
  "t \<in> set (transition_rows u n m ts) \<Longrightarrow>
    tr_id t \<in> u ` {n..<n + length (transition_rows u n m ts)} \<and> (\<exists>a. map_of m a = Some (tr_from t)) \<and>
    (tr_to t = None \<or> (\<exists>k. map_of m k = tr_to t))"
proof (induction ts arbitrary: n)
  case (Cons a ts)
  show ?case
  proof (cases "map_of m (ti_from a)")
    case None
    with Cons show ?thesis by simp
  next
    case (Some i)
    let ?l = "length (transition_rows u (Suc n) m ts)"
    from Some Cons.prems consider (first) "t = transition_row_of (u n) i m a" | (later) "t \<in> set (transition_rows u (Suc n) m ts)"
      by auto
    then show ?thesis
    proof cases
      case first
      then have "tr_to t = None \<or> (\<exists>k. map_of m k = tr_to t)"
        by (auto simp: transition_row_of_def to_step_id_def split: option.splits)
      with first Some show ?thesis by (auto simp: transition_row_of_def)
    next
      case later
      have "u ` {Suc n..<Suc n + ?l} \<subseteq> u ` {n..<n + Suc ?l}" by (rule image_mono) auto
      with Cons.IH [OF later] Some show ?thesis by auto
    qed
  qed
qed simp

lemma definitions_ok_steps: "definitions_ok e (d\<lparr>db_steps := db_steps d @ ss\<rparr>) \<longleftrightarrow> definitions_ok e d \<and> list_all (step_row_ok e) ss"
  by (auto simp: definitions_ok_def)

lemma create_steps_run:
  "rows_ok e d \<Longrightarrow> create_steps e w ss m d =
     (if list_all (step_input_ok e) ss
      then (Inr (steps_map_from (db_uuid d) (db_drawn d) ss m),
        d\<lparr>db_drawn := db_drawn d + length ss, db_steps := db_steps d @ step_rows (db_uuid d) w (db_drawn d) ss\<rparr>)
      else (Inl DatabaseError, snd (create_steps e w ss m d)))"
proof (induction ss arbitrary: d m)
  case (Cons s ss)
  let ?d = "d\<lparr>db_drawn := Suc (db_drawn d), db_steps := db_steps d @ [step_row_of w (db_uuid d (db_drawn d)) s]\<rparr>"
  have r: "rows_ok e ?d \<longleftrightarrow> step_input_ok e s" using Cons.prems by (auto simp: rows_ok_def definitions_ok_def)
  show ?case
  proof (cases "step_input_ok e s")
    case True
    have "create_steps e w (s # ss) m d = create_steps e w ss ((si_order s, db_uuid d (db_drawn d)) # m) ?d"
      using r True by (simp add: add_step_def)
    then show ?thesis using Cons.IH [of ?d "(si_order s, db_uuid d (db_drawn d)) # m"] r True by auto
  next
    case False
    with r show ?thesis by (simp add: add_step_def)
  qed
qed simp

lemma create_transitions_run:
  "create_transitions m ts d = (Inr (), d\<lparr>db_drawn := db_drawn d + length (transition_rows (db_uuid d) (db_drawn d) m ts),
     db_transitions := db_transitions d @ transition_rows (db_uuid d) (db_drawn d) m ts\<rparr>)"
  by (induction ts arbitrary: d) (simp_all add: add_transition_def split: option.splits)

definition created_map :: "db \<Rightarrow> workflow_in \<Rightarrow> (int \<times> uuid) list" where
  "created_map d wi = steps_map_from (db_uuid d) (Suc (db_drawn d)) (wi_steps wi) []"

definition created_steps :: "db \<Rightarrow> workflow_in \<Rightarrow> step_row list" where
  "created_steps d wi = step_rows (db_uuid d) (db_uuid d (db_drawn d)) (Suc (db_drawn d)) (wi_steps wi)"

definition created_transitions :: "db \<Rightarrow> workflow_in \<Rightarrow> transition_row list" where
  "created_transitions d wi =
     transition_rows (db_uuid d) (Suc (db_drawn d + length (wi_steps wi))) (created_map d wi) (wi_transitions wi)"

definition created_workflow :: "server \<Rightarrow> db \<Rightarrow> workflow_in \<Rightarrow> uuid \<Rightarrow> workflow_row" where
  "created_workflow e d wi c = \<lparr>wf_id = db_uuid d (db_drawn d), wf_name = wi_name wi, wf_description = wi_description wi,
     wf_active = True, wf_created_by = c, wf_created_at = srv_now e\<rparr>"

definition created :: "server \<Rightarrow> db \<Rightarrow> workflow_in \<Rightarrow> uuid \<Rightarrow> db" where
  "created e d wi c = d\<lparr>db_workflows := db_workflows d @ [created_workflow e d wi c],
     db_steps := db_steps d @ created_steps d wi,
     db_drawn := Suc (db_drawn d + length (wi_steps wi) + length (created_transitions d wi)),
     db_transitions := db_transitions d @ created_transitions d wi\<rparr>"

lemma created_fields [simp]:
  "db_uuid (created e d wi c) = db_uuid d"
  "db_drawn (created e d wi c) = Suc (db_drawn d + length (wi_steps wi) + length (created_transitions d wi))"
  "db_workflows (created e d wi c) = db_workflows d @ [created_workflow e d wi c]"
  "db_steps (created e d wi c) = db_steps d @ created_steps d wi"
  "db_transitions (created e d wi c) = db_transitions d @ created_transitions d wi"
  "db_requests (created e d wi c) = db_requests d" "db_execs (created e d wi c) = db_execs d"
  "db_history (created e d wi c) = db_history d" "db_outbox (created e d wi c) = db_outbox d"
  "db_audit (created e d wi c) = db_audit d" "db_escalations (created e d wi c) = db_escalations d"
  by (simp_all add: created_def)

text \<open>The database accepts the new rows.\<close>

definition workflow_accepted :: "server \<Rightarrow> db \<Rightarrow> workflow_in \<Rightarrow> bool" where
  "workflow_accepted e d wi \<longleftrightarrow> wi_name wi \<notin> wf_name ` set (db_workflows d) \<and> list_all (step_input_ok e) (wi_steps wi) \<and>
     list_all (transition_row_ok e) (created_transitions d wi)"

lemma create_workflow_run:
  assumes "rows_ok e d"
  shows "create_workflow e wi c d =
    (if workflow_accepted e d wi then (Inr (db_uuid d (db_drawn d)), created e d wi c)
     else (Inl DatabaseError, snd (create_workflow e wi c d)))"
proof -
  let ?w = "created_workflow e d wi c"
  let ?d = "d\<lparr>db_drawn := Suc (db_drawn d), db_workflows := db_workflows d @ [?w]\<rparr>"
  have r: "rows_ok e ?d \<longleftrightarrow> wi_name wi \<notin> wf_name ` set (db_workflows d)"
    using assms by (auto simp: rows_ok_def definitions_ok_def created_workflow_def)
  show ?thesis
  proof (cases "wi_name wi \<in> wf_name ` set (db_workflows d)")
    case True
    with r show ?thesis
      by (simp add: create_workflow_def add_workflow_def workflow_accepted_def created_workflow_def)
  next
    case False
    note d = create_steps_run [of e ?d "db_uuid d (db_drawn d)" "wi_steps wi" "[]"]
    show ?thesis
    proof (cases "list_all (step_input_ok e) (wi_steps wi)")
      case True
      have f: "rows_ok e (created e d wi c) \<longleftrightarrow> list_all (transition_row_ok e) (created_transitions d wi)"
        using assms False True by (auto simp: rows_ok_def definitions_ok_def created_workflow_def created_steps_def)
      have "create_workflow e wi c d = and_do (flush e) (\<lambda>_. return_op (db_uuid d (db_drawn d))) (created e d wi c)"
        using d r False True
        by (simp add: create_workflow_def add_workflow_def created_workflow_def [symmetric] create_transitions_run created_def
            created_map_def [symmetric] created_transitions_def [symmetric] created_steps_def [symmetric])
      then show ?thesis
        using False True f by (cases "rows_ok e (created e d wi c)") (simp_all add: workflow_accepted_def)
    next
      case nok: False
      obtain d2 where "create_steps e (db_uuid d (db_drawn d)) (wi_steps wi) [] ?d = (Inl DatabaseError, d2)"
        using d r False nok by (metis (full_types))
      with r False nok show ?thesis
        by (simp add: create_workflow_def add_workflow_def workflow_accepted_def created_workflow_def [symmetric])
    qed
  qed
qed

section \<open>Creation and deletion keep the invariant\<close>

lemma step_workflow_append:
  "step_workflow d i = Some w \<Longrightarrow> step_workflow (d\<lparr>db_steps := db_steps d @ ss\<rparr>) i = Some w"
  by (auto simp: step_workflow_def get_row_append)

lemma created_ids_ok:
  assumes "ids_ok d"
  shows "ids_ok (created e d wi c)"
proof -
  let ?d' = "created e d wi c"
  have i: "inj (db_uuid d)" using assms by (simp add: ids_ok_def)
  have f: "n \<ge> db_drawn d \<Longrightarrow> db_uuid d n \<notin> used_ids d" for n by (rule fresh_id [OF assms])
  have s: "map sd_id (created_steps d wi) = map (db_uuid d) [Suc (db_drawn d)..<Suc (db_drawn d) + length (wi_steps wi)]"
    by (simp add: created_steps_def step_rows_ids)
  then have ss: "sd_id ` set (created_steps d wi) = db_uuid d ` {Suc (db_drawn d)..<Suc (db_drawn d) + length (wi_steps wi)}"
    by (metis list.set_map set_upt)
  have ws: "wf_id ` set (db_workflows d) \<subseteq> used_ids d" "sd_id ` set (db_steps d) \<subseteq> used_ids d"
    by (auto simp: used_ids_def)
  have dw: "distinct (map wf_id (db_workflows ?d'))"
    using assms f [of "db_drawn d"] ws(1) by (auto simp: ids_ok_def created_workflow_def)
  have "db_uuid d ` {Suc (db_drawn d)..<Suc (db_drawn d) + length (wi_steps wi)} \<inter> used_ids d = {}"
    using f by auto
  from disjoint_part [OF ws(2) this] have "sd_id ` set (db_steps d) \<inter> sd_id ` set (created_steps d wi) = {}"
    by (simp only: ss)
  moreover have "distinct (map sd_id (created_steps d wi))"
    unfolding s by (simp add: distinct_map inj_on_subset [OF i])
  ultimately have ds: "distinct (map sd_id (db_steps ?d'))"
    using assms by (simp add: ids_ok_def)
  have ts: "tr_id ` set (created_transitions d wi) \<subseteq> db_uuid d ` {..<db_drawn ?d'}"
  proof
    fix j
    assume "j \<in> tr_id ` set (created_transitions d wi)"
    then obtain t where t: "t \<in> set (created_transitions d wi)" "j = tr_id t" by auto
    from transition_rows_in [OF t(1) [unfolded created_transitions_def]] t(2)
    show "j \<in> db_uuid d ` {..<db_drawn ?d'}" by (auto simp: created_transitions_def)
  qed
  have "used_ids ?d' \<subseteq> used_ids d \<union> {db_uuid d (db_drawn d)} \<union> sd_id ` set (created_steps d wi) \<union> tr_id ` set (created_transitions d wi)"
    by (auto simp: used_ids_def created_workflow_def)
  moreover have "sd_id ` set (created_steps d wi) \<subseteq> db_uuid d ` {..<db_drawn ?d'}" unfolding ss by (rule image_mono) auto
  moreover have "used_ids d \<subseteq> db_uuid d ` {..<db_drawn ?d'}"
    using assms by (auto simp: ids_ok_def)
  moreover have "db_uuid d (db_drawn d) \<in> db_uuid d ` {..<db_drawn ?d'}" by simp
  ultimately have "used_ids ?d' \<subseteq> db_uuid d ` {..<db_drawn ?d'}" using ts by blast
  then show ?thesis using assms dw ds by (simp add: ids_ok_def)
qed

lemma created_map_step:
  assumes "ids_ok d" "map_of (created_map d wi) k = Some i"
  shows "step_workflow (created e d wi c) i = Some (db_uuid d (db_drawn d))"
proof -
  from steps_map_range [OF assms(2) [unfolded created_map_def]]
  have "i \<in> db_uuid d ` set [Suc (db_drawn d)..<Suc (db_drawn d) + length (wi_steps wi)]" by (simp only: set_upt map_of.simps option.distinct simp_thms)
  then have "i \<in> set (map sd_id (created_steps d wi))" by (simp only: created_steps_def step_rows_ids list.set_map)
  then obtain s where s: "s \<in> set (created_steps d wi)" "sd_id s = i" by auto
  then have "get_row sd_id i (db_steps (created e d wi c)) = Some s"
    using get_step [OF created_ids_ok [OF assms(1)], of s] by auto
  then show ?thesis using step_rows_workflow [OF s(1) [unfolded created_steps_def]] by (simp add: step_workflow_def)
qed

lemma created_committed:
  assumes "committed e d" "workflow_accepted e d wi"
  shows "committed e (created e d wi c)"
proof -
  let ?d' = "created e d wi c"
  have ok: "engine_ok d" "rows_ok e d" and ids: "ids_ok d" using assms(1) by (simp_all add: committed_def engine_ok_ids)
  have sw: "step_workflow d i = Some w \<Longrightarrow> step_workflow ?d' i = Some w" for i w
    by (auto simp: step_workflow_def get_row_append)
  have oe: "open_execs ?d' i = open_execs d i" and rh: "request_history ?d' i = request_history d i" for i
    by (simp_all add: open_execs_def request_history_def)
  have tr: "transition_ok ?d' t" if "t \<in> set (db_transitions ?d')" for t
  proof (cases "t \<in> set (db_transitions d)")
    case True
    with ok(1) have "transition_ok d t" by (simp add: engine_ok_def list_all_iff)
    then show ?thesis using sw by (auto simp: transition_ok_def)
  next
    case False
    with that have "t \<in> set (created_transitions d wi)" by simp
    from transition_rows_in [OF this [unfolded created_transitions_def]] created_map_step [OF ids, of wi _ _ e c]
    show ?thesis by (cases "tr_to t") (auto simp: transition_ok_def)
  qed
  have xo: "exec_ok ?d' x" if "x \<in> set (db_execs d)" for x
    using engine_ok_exec [OF ok(1) that] sw by (auto simp: exec_ok_def list_ex_iff)
  have so: "sd_workflow_id s \<in> wf_id ` set (db_workflows ?d')" if "s \<in> set (db_steps ?d')" for s
  proof (cases "s \<in> set (db_steps d)")
    case True
    with ok(1) show ?thesis by (auto simp: engine_ok_def list_all_iff)
  next
    case False
    with that have "s \<in> set (created_steps d wi)" by simp
    from step_rows_workflow [OF this [unfolded created_steps_def]] show ?thesis by (simp add: created_workflow_def)
  qed
  have "engine_ok ?d'"
    using ok(1) created_ids_ok [OF ids] tr xo so
    by (auto simp: engine_ok_def list_all_iff request_ok_def oe rh workflow_known_def)
  moreover have "rows_ok e ?d'"
    using ok(2) assms(2)
    by (auto simp: rows_ok_def definitions_ok_def workflow_accepted_def created_workflow_def created_steps_def)
  ultimately show ?thesis by (simp add: committed_def)
qed

lemma grows_definitions [intro!, simp]: "grows (add_workflow w)" "grows (add_step s)" "grows (add_transition t)"
  by (simp_all add: grows_def extends_def add_workflow_def add_step_def add_transition_def)

lemma grows_create_steps [intro!, simp]: "grows (create_steps e w ss m)"
proof (induction ss arbitrary: m)
  case (Cons s ss)
  show ?case unfolding create_steps.simps by (intro grows_rules grows_definitions Cons.IH)
qed (simp add: grows_basic(1) [unfolded return_op_def] return_op_def)

lemma grows_create_transitions [intro!, simp]: "grows (create_transitions m ts)"
proof (induction ts)
  case (Cons t ts)
  show ?case unfolding create_transitions.simps by (intro grows_rules grows_definitions Cons.IH)
qed (simp add: grows_basic(1) [unfolded return_op_def] return_op_def)

lemma grows_create_workflow: "grows (create_workflow e wi c)"
  unfolding create_workflow_def
  by (intro grows_rules grows_definitions grows_create_steps grows_create_transitions)

lemma create_workflow_Inr:
  "rows_ok e d \<Longrightarrow> create_workflow e wi c d = (Inr i, d') \<Longrightarrow>
    workflow_accepted e d wi \<and> i = db_uuid d (db_drawn d) \<and> d' = created e d wi c"
  by (subst (asm) create_workflow_run) (auto split: if_splits)

interpretation create: transaction "create_workflow e wi c" "committed e" for e wi c
proof
  fix d i d'
  assume c: "committed e d" and r: "create_workflow e wi c d = (Inr i, d')"
  from c have "rows_ok e d" by (simp add: committed_def)
  from create_workflow_Inr [OF this r] created_committed [OF c] show "committed e d'" by simp
qed (auto intro: grows_create_workflow committed_rolled_back)

lemma delete_workflow_run:
  assumes "rows_ok e d"
  shows "delete_workflow e i d =
    (if i \<notin> wf_id ` set (db_workflows d) then (Inl ResourceNotFound, d)
     else if list_ex (\<lambda>r. rq_workflow_id r = i) (db_requests d) then (Inl DatabaseError, d)
     else (Inr (), remove_workflow i d))"
proof (cases "get_row wf_id i (db_workflows d)")
  case None
  then have "i \<notin> wf_id ` set (db_workflows d)" by (simp add: get_row_None)
  with None show ?thesis by (simp add: delete_workflow_def get_workflow_def)
next
  case (Some w)
  have "rows_ok e (remove_workflow i d)"
    using assms by (auto simp: rows_ok_def definitions_ok_def remove_workflow_def list_all_iff intro: distinct_map_filter)
  moreover have "i \<in> wf_id ` set (db_workflows d)" using get_row_Some [OF Some] by auto
  ultimately show ?thesis using Some by (simp add: delete_workflow_def get_workflow_def)
qed

lemma get_row_filter: "get_row key j rows = Some r \<Longrightarrow> P r \<Longrightarrow> get_row key j (filter P rows) = Some r"
  by (induction rows) (auto simp: get_row_def split: if_splits)

lemma removed_ids_ok: "ids_ok d \<Longrightarrow> ids_ok (remove_workflow i d)"
  by (auto simp: ids_ok_def remove_workflow_def used_ids_def intro: distinct_map_filter)

lemma workflow_step_ids_iff:
  assumes "ids_ok d"
  shows "j \<in> set (workflow_step_ids d i) \<longleftrightarrow> step_workflow d j = Some i"
proof
  assume "j \<in> set (workflow_step_ids d i)"
  then obtain s where "s \<in> set (db_steps d)" "sd_workflow_id s = i" "sd_id s = j" by (auto simp: workflow_step_ids_def)
  with get_step [OF assms] show "step_workflow d j = Some i" by (auto simp: step_workflow_def)
next
  assume "step_workflow d j = Some i"
  then show "j \<in> set (workflow_step_ids d i)"
    by (auto simp: step_workflow_def workflow_step_ids_def dest!: get_row_Some)
qed

lemma removed_step_workflow:
  assumes "ids_ok d"
  shows "step_workflow (remove_workflow i d) j = (if step_workflow d j = Some i then None else step_workflow d j)"
proof (cases "get_row sd_id j (db_steps d)")
  case None
  then have "get_row sd_id j (db_steps (remove_workflow i d)) = None" by (auto simp: get_row_None remove_workflow_def)
  with None show ?thesis by (simp add: step_workflow_def)
next
  case (Some s)
  have "s' = s" if "s' \<in> set (db_steps d)" "sd_id s' = j" for s'
    using get_step [OF assms that(1)] that(2) Some by simp
  then have "sd_workflow_id s = i \<Longrightarrow> get_row sd_id j (db_steps (remove_workflow i d)) = None"
    by (auto simp: get_row_None remove_workflow_def)
  with Some get_row_filter [of sd_id j "db_steps d" s "\<lambda>s. sd_workflow_id s \<noteq> i"] show ?thesis
    by (auto simp: step_workflow_def remove_workflow_def)
qed

lemma removed_committed:
  assumes "committed e d" "\<not> list_ex (\<lambda>r. rq_workflow_id r = i) (db_requests d)"
  shows "committed e (remove_workflow i d)"
proof -
  let ?d' = "remove_workflow i d"
  have ok: "engine_ok d" "rows_ok e d" and ids: "ids_ok d" using assms(1) by (simp_all add: committed_def engine_ok_ids)
  have nr: "rq_workflow_id r \<noteq> i" if "r \<in> set (db_requests d)" for r using assms(2) that by (auto simp: list_ex_iff)
  note i' = removed_ids_ok [OF ids, of i] and sw = removed_step_workflow [OF ids, of i] and member = workflow_step_ids_iff [OF ids, of _ i]
  have f: "db_requests ?d' = db_requests d" "db_execs ?d' = db_execs d" "db_history ?d' = db_history d"
    by (simp_all add: remove_workflow_def)
  have tr: "transition_ok ?d' t" if "t \<in> set (db_transitions ?d')" for t
  proof -
    have "t \<in> set (db_transitions d)" "step_workflow d (tr_from t) \<noteq> Some i"
      using that by (simp_all add: remove_workflow_def member)
    moreover from this ok(1) have "transition_ok d t" by (simp add: engine_ok_def list_all_iff)
    ultimately show ?thesis by (auto simp: transition_ok_def sw)
  qed
  have xo: "exec_ok ?d' x" if "x \<in> set (db_execs d)" for x
  proof -
    from engine_ok_exec [OF ok(1) that] obtain r where r: "r \<in> set (db_requests d)" "rq_id r = ex_request_id x"
      "step_workflow d (ex_step_id x) = Some (rq_workflow_id r)" and p: "ex_completed_at x = None \<longrightarrow> ex_status x = StepPending"
      by (auto simp: exec_ok_def list_ex_iff)
    then have "step_workflow ?d' (ex_step_id x) = Some (rq_workflow_id r)" using nr [OF r(1)] by (simp add: sw)
    with r p show ?thesis by (auto simp: exec_ok_def list_ex_iff f)
  qed
  have w: "wf_id ` set (db_workflows ?d') = wf_id ` set (db_workflows d) - {i}"
    and s: "set (db_steps ?d') = {s \<in> set (db_steps d). sd_workflow_id s \<noteq> i}"
    by (auto simp: remove_workflow_def)
  have oe: "open_execs ?d' j = open_execs d j" and rh: "request_history ?d' j = request_history d j" for j
    by (simp_all add: open_execs_def request_history_def f)
  have ro: "request_ok ?d' r \<and> workflow_known ?d' r" if "r \<in> set (db_requests d)" for r
    using ok(1) that nr [OF that] by (simp add: engine_ok_def list_all_iff request_ok_def workflow_known_def oe rh w)
  have "engine_ok ?d'"
    using ok(1) i' tr xo ro f by (simp add: engine_ok_def list_all_iff w s)
  moreover have "rows_ok e ?d'"
    using ok(2) by (auto simp: rows_ok_def definitions_ok_def remove_workflow_def list_all_iff intro: distinct_map_filter)
  ultimately show ?thesis by (simp add: committed_def)
qed

lemma grows_delete: "grows (delete_workflow e i)"
  by (auto simp: grows_def delete_workflow_def get_workflow_def and_do_def flush_def remove_workflow_def extends_def change_op_def
      split: option.splits)

interpretation delete: transaction "delete_workflow e i" "committed e" for e i
proof
  fix d u d'
  assume c: "committed e d" and r: "delete_workflow e i d = (Inr u, d')"
  from c have "rows_ok e d" by (simp add: committed_def)
  from delete_workflow_run [OF this, of i] r removed_committed [OF c] show "committed e d'" by (auto split: if_splits)
qed (auto intro: grows_delete committed_rolled_back)

end
