(* ===== verification/Schemas.thy ===== *)
theory Schemas
  imports Json
begin

text \<open>
  The values the API returns, as the response models under \<open>app/schemas/\<close> declare them and the
  frontend's interfaces read them. Identifiers are the canonical text of UUIDs, instants are
  integers (seconds). Fields that no page reads and no property mentions are left out.
\<close>

record role_out =
  role_id :: uuid
  role_name :: string

record permission_out =
  perm_id :: uuid
  perm_name :: string

record user_out =
  usr_id :: uuid
  usr_full_name :: string
  usr_roles :: "role_out list"

record request_step_out =
  so_id :: uuid
  so_status :: string
  so_outcome :: "string option"
  so_deadline :: "int option"
  so_completed_at :: "int option"
  so_step_name :: "string option"
  so_step_order :: "int option"

record request_out =
  ro_id :: uuid
  ro_workflow_id :: uuid
  ro_requester_id :: uuid
  ro_status :: string
  ro_request_data :: "json option"
  ro_current_step_id :: "uuid option"
  ro_created_at :: int
  ro_steps :: "request_step_out list"

record task_out =
  tk_request_id :: uuid
  tk_request_step_id :: uuid
  tk_workflow_name :: string
  tk_step_name :: string
  tk_step_description :: "string option"
  tk_deadline :: "int option"
  tk_is_sla_breached :: bool
  tk_request_data :: "json option"
  tk_created_at :: int

record workflow_step_out =
  wso_id :: uuid
  wso_name :: string
  wso_step_order :: int

record workflow_out =
  wo_id :: uuid
  wo_name :: string
  wo_description :: "string option"
  wo_is_active :: bool
  wo_created_at :: int
  wo_steps :: "workflow_step_out list"

record audit_out =
  ao_id :: uuid
  ao_action :: string
  ao_timestamp :: int

record stats_out =
  sts_active :: nat
  sts_completed :: nat
  sts_overdue :: nat
  sts_pending :: nat

record admin_stats_out =
  as_users :: nat
  as_workflows :: nat
  as_requests :: nat
  as_sla_breaches :: nat

text \<open>\<open>id.slice(0, 8).toUpperCase()\<close>, the short form of an identifier that the pages show.\<close>

definition short_id :: "uuid \<Rightarrow> string" where
  "short_id i = to_upper (take 8 i)"

text \<open>\<open>steps.sort((a, b) => (a.step_order || 0) - (b.step_order || 0))\<close>, a stable sort.\<close>

definition by_step_order :: "request_step_out list \<Rightarrow> request_step_out list" where
  "by_step_order = sort_key (\<lambda>s. case so_step_order s of None \<Rightarrow> 0 | Some n \<Rightarrow> n)"

text \<open>The steps of the request page and the task timeline are in their own order.\<close>

lemma by_step_order_set [simp]: "set (by_step_order ss) = set ss"
  by (simp add: by_step_order_def)

lemma by_step_order_Nil [simp]: "by_step_order [] = []"
  by (simp add: by_step_order_def)

end
