(* ===== verification/SlaMonitor.thy ===== *)
theory SlaMonitor
  imports Sample "HOL-Library.Multiset"
begin

text \<open>
  The SLA monitor, \<open>app/services/sla_monitor.py\<close>, and its periodic task, \<open>app/tasks/sla.py\<close>: every
  open step execution past its deadline is marked once, with an escalation record, an audit entry and a
  message to the administrators. A failing escalation is logged and the loop goes on; the session is
  committed when at least one escalation succeeded.
\<close>

definition send_sla_breach_email :: "server \<Rightarrow> exec_row \<Rightarrow> string \<Rightarrow> string \<Rightarrow> unit op" where
  "send_sla_breach_email e x workflow_name step_name =
     send_message e (SlaBreach (ex_id x) (ex_request_id x) workflow_name step_name (ex_deadline x))"

definition exec_workflow_name :: "db \<Rightarrow> exec_row \<Rightarrow> string" where
  "exec_workflow_name d x = (case get_row rq_id (ex_request_id x) (db_requests d) of None \<Rightarrow> ''''
     | Some r \<Rightarrow> workflow_name_of d (rq_workflow_id r))"

definition exec_step_name :: "db \<Rightarrow> exec_row \<Rightarrow> string" where
  "exec_step_name d x = (case get_row sd_id (ex_step_id x) (db_steps d) of None \<Rightarrow> '''' | Some s \<Rightarrow> sd_name s)"

definition escalate_step :: "server \<Rightarrow> db \<Rightarrow> exec_row \<Rightarrow> unit op" where
  "escalate_step e base x =
     and_do (set_exec (ex_id x) (\<lambda>y. y\<lparr>ex_is_sla_breached := True\<rparr>)) (\<lambda>_.
     and_do draw_uuid (\<lambda>i.
     and_do (change_op (\<lambda>d. d\<lparr>db_escalations := db_escalations d @
       [\<lparr>es_id = i, es_step_id = ex_id x, es_level = 1, es_at = srv_now e\<rparr>]\<rparr>)) (\<lambda>_.
     and_do (log_action e base ''SLA_BREACH_DETECTED'' ''request_step'' (ex_id x) None (ex_request_id x)
       (JObj [(''deadline'', JNum (of_int (ex_deadline x)))])) (\<lambda>_.
     send_sla_breach_email e x (exec_workflow_name base x) (exec_step_name base x)))))"

definition is_overdue :: "server \<Rightarrow> exec_row \<Rightarrow> bool" where
  "is_overdue e x \<longleftrightarrow> (ex_status x = StepPending \<or> ex_status x = StepInProgress) \<and> ex_deadline x < srv_now e \<and>
     \<not> ex_is_sla_breached x"

definition overdue_steps :: "server \<Rightarrow> db \<Rightarrow> exec_row list" where
  "overdue_steps e d = query e ex_id (is_overdue e) (db_execs d)"

text \<open>The loop: the number of escalations that succeeded, and the session.\<close>

fun escalate_all :: "server \<Rightarrow> db \<Rightarrow> exec_row list \<Rightarrow> nat \<Rightarrow> db \<Rightarrow> nat \<times> db" where
  "escalate_all e base [] n d = (n, d)"
| "escalate_all e base (x # xs) n d = (case escalate_step e base x d of
     (Inl f, d') \<Rightarrow> escalate_all e base xs n d'
   | (Inr u, d') \<Rightarrow> escalate_all e base xs (Suc n) d')"

definition scan_for_breaches :: "server \<Rightarrow> nat op" where
  "scan_for_breaches e = (\<lambda>base.
     let (breach_count, d) = escalate_all e base (overdue_steps e base) 0 base
     in if breach_count > 0 then (case flush e d of (Inl f, d') \<Rightarrow> (Inl f, rolled_back base d') | (Inr u, d') \<Rightarrow> (Inr breach_count, d'))
        else (Inr 0, rolled_back base d))"

text \<open>The task closes its session, which drops what was not committed, and answers 0 for an
  exception.\<close>

definition check_all_slas :: "server \<Rightarrow> db \<Rightarrow> nat \<times> db" where
  "check_all_slas e d = (case scan_for_breaches e d of (Inl f, d') \<Rightarrow> (0, d') | (Inr n, d') \<Rightarrow> (n, d'))"

section \<open>One escalation and the loop\<close>

definition breach_message :: "db \<Rightarrow> exec_row \<Rightarrow> message" where
  "breach_message d x = SlaBreach (ex_id x) (ex_request_id x) (exec_workflow_name d x) (exec_step_name d x) (ex_deadline x)"

definition mark_breached :: "exec_row \<Rightarrow> exec_row" where
  "mark_breached x = x\<lparr>ex_is_sla_breached := True\<rparr>"

definition escalation_of :: "server \<Rightarrow> uuid \<Rightarrow> exec_row \<Rightarrow> escalation_row" where
  "escalation_of e i x = \<lparr>es_id = i, es_step_id = ex_id x, es_level = 1, es_at = srv_now e\<rparr>"

lemma mark_breached_fields [simp]:
  "ex_id (mark_breached x) = ex_id x" "ex_request_id (mark_breached x) = ex_request_id x" "ex_step_id (mark_breached x) = ex_step_id x"
  "ex_completed_at (mark_breached x) = ex_completed_at x" "ex_status (mark_breached x) = ex_status x"
  "ex_is_sla_breached (mark_breached x) = True" "exec_row_ok e (mark_breached x) = exec_row_ok e x"
  "mark_breached (mark_breached x) = mark_breached x"
  by (simp_all add: mark_breached_def exec_row_ok_def)

lemma list_all_mark [simp]: "list_all (exec_row_ok e) (update_row ex_id i mark_breached xs) = list_all (exec_row_ok e) xs"
  by (induction xs) (auto simp: update_row_def)

definition escalated :: "server \<Rightarrow> db \<Rightarrow> exec_row \<Rightarrow> db \<Rightarrow> db" where
  "escalated e base x d = d\<lparr>db_drawn := db_drawn d + 2, db_execs := update_row ex_id (ex_id x) mark_breached (db_execs d),
     db_escalations := db_escalations d @ [escalation_of e (db_uuid d (db_drawn d)) x],
     db_audit := db_audit d @ [audit_entry e (db_uuid d (db_drawn d + 1)) ''SLA_BREACH_DETECTED'' ''request_step'' (ex_id x) None
       (ex_request_id x) (JObj [(''deadline'', JNum (of_int (ex_deadline x)))])],
     db_outbox := db_outbox d @ (if srv_delivers e (breach_message base x) then [breach_message base x] else [])\<rparr>"

lemma escalate_step_run:
  assumes "rows_ok e d"
  shows "escalate_step e base x d =
    (if srv_delivers e (breach_message base x) then Inr () else Inl BrokerError, escalated e base x d)"
  using assms
  by (simp add: escalate_step_def log_action_run Let_def send_sla_breach_email_def send_message_run escalated_def
      breach_message_def escalation_of_def mark_breached_def [abs_def] rows_ok_def list_all_mark [unfolded mark_breached_def [abs_def]])

lemma escalated_fields [simp]:
  "db_uuid (escalated e b x d) = db_uuid d" "db_drawn (escalated e b x d) = db_drawn d + 2"
  "db_workflows (escalated e b x d) = db_workflows d" "db_steps (escalated e b x d) = db_steps d"
  "db_transitions (escalated e b x d) = db_transitions d" "db_requests (escalated e b x d) = db_requests d"
  "db_history (escalated e b x d) = db_history d"
  "db_execs (escalated e b x d) = update_row ex_id (ex_id x) mark_breached (db_execs d)"
  by (simp_all add: escalated_def)

definition delivers_breach :: "server \<Rightarrow> db \<Rightarrow> exec_row \<Rightarrow> bool" where
  "delivers_breach e d x = srv_delivers e (breach_message d x)"

lemma escalated_rows_ok [simp]: "rows_ok e (escalated e b x d) = rows_ok e d"
  by (simp add: rows_ok_def definitions_ok_def)

lemma escalate_all_run:
  "rows_ok e d \<Longrightarrow> escalate_all e b xs n d = (n + length (filter (delivers_breach e b) xs), fold (escalated e b) xs d)"
  by (induction xs arbitrary: n d) (simp_all add: escalate_step_run delivers_breach_def)

definition mark_ids :: "uuid set \<Rightarrow> exec_row \<Rightarrow> exec_row" where
  "mark_ids I x = (if ex_id x \<in> I then mark_breached x else x)"

lemma mark_ids_fields [simp]:
  "ex_id (mark_ids I x) = ex_id x" "ex_request_id (mark_ids I x) = ex_request_id x" "ex_step_id (mark_ids I x) = ex_step_id x"
  "ex_completed_at (mark_ids I x) = ex_completed_at x" "ex_status (mark_ids I x) = ex_status x"
  "exec_row_ok e (mark_ids I x) = exec_row_ok e x" "ex_deadline (mark_ids I x) = ex_deadline x"
  by (simp_all add: mark_ids_def) (simp add: mark_breached_def)

lemma update_row_mark: "update_row ex_id i mark_breached rows = map (mark_ids {i}) rows"
  by (simp add: update_row_def mark_ids_def)

lemma mark_ids_comp: "mark_ids I (mark_ids J x) = mark_ids (I \<union> J) x"
  by (simp add: mark_ids_def)

lemma fold_escalated_fields [simp]:
  "db_uuid (fold (escalated e b) xs d) = db_uuid d" "db_drawn (fold (escalated e b) xs d) = db_drawn d + 2 * length xs"
  "db_workflows (fold (escalated e b) xs d) = db_workflows d" "db_steps (fold (escalated e b) xs d) = db_steps d"
  "db_transitions (fold (escalated e b) xs d) = db_transitions d" "db_requests (fold (escalated e b) xs d) = db_requests d"
  "db_history (fold (escalated e b) xs d) = db_history d"
  by (induction xs arbitrary: d) simp_all

lemma fold_escalated_execs: "db_execs (fold (escalated e b) xs d) = map (mark_ids (ex_id ` set xs)) (db_execs d)"
proof (induction xs arbitrary: d)
  case Nil
  then show ?case by (simp add: mark_ids_def)
next
  case (Cons x xs)
  then show ?case by (simp add: update_row_mark mark_ids_comp o_def Un_commute)
qed


lemma fold_escalated_outbox:
  "db_outbox (fold (escalated e b) xs d) = db_outbox d @ map (breach_message b) (filter (delivers_breach e b) xs)"
  by (induction xs arbitrary: d) (simp_all add: escalated_def delivers_breach_def)

lemma scan_run:
  assumes "rows_ok e d"
  shows "scan_for_breaches e d =
    (let xs = overdue_steps e d; n = length (filter (delivers_breach e d) xs); d' = fold (escalated e d) xs d
     in (Inr n, if n > 0 then d' else rolled_back d d'))"
proof -
  have "rows_ok e (fold (escalated e d) xs d)" for xs
    using assms by (simp add: rows_ok_def definitions_ok_def fold_escalated_execs list_all_iff)
  with assms show ?thesis by (simp add: scan_for_breaches_def escalate_all_run Let_def)
qed

lemma overdue_set [simp]: "set (overdue_steps e d) = {x \<in> set (db_execs d). is_overdue e x}"
  by (simp add: overdue_steps_def)

section \<open>The scan in the contract of transactions\<close>

lemma marked_open_execs:
  "db_execs d' = map (mark_ids I) (db_execs d) \<Longrightarrow> open_execs d' i = map (mark_ids I) (open_execs d i)"
  by (simp add: open_execs_def filter_map o_def)

lemma marked_engine_ok:
  assumes "engine_ok d" "ids_ok d'" "db_execs d' = map (mark_ids I) (db_execs d)" "db_requests d' = db_requests d"
    and same: "db_workflows d' = db_workflows d" "db_steps d' = db_steps d" "db_transitions d' = db_transitions d" "db_history d' = db_history d"
  shows "engine_ok d'"
proof (rule engine_okI [OF assms(1,2) same(1-3)])
  fix r
  assume "r \<in> set (db_requests d')"
  with assms have "request_ok d r" "workflow_known d r" by (auto simp: engine_ok_def list_all_iff)
  moreover have "status_ok r (map (mark_ids I) os) = status_ok r os" for os
    by (cases os) (simp_all add: status_ok_def split: request_status.splits)
  ultimately show "request_ok d' r \<and> workflow_known d r"
    using marked_open_execs [OF assms(3)] same(4) by (simp add: request_ok_def request_history_def)
next
  fix x
  assume "x \<in> set (db_execs d')"
  with assms(3) obtain y where "y \<in> set (db_execs d)" "x = mark_ids I y" by auto
  with engine_ok_exec [OF assms(1)] assms(4) same(2) show "exec_ok d' x" by (auto simp: exec_ok_def step_workflow_def)
next
  fix h
  assume "h \<in> set (db_history d')"
  with assms same(4) show "hi_request_id h \<in> rq_id ` set (db_requests d')" by (simp add: engine_ok_def list_all_iff)
qed

lemma escalated_committed:
  assumes "committed e d"
  shows "committed e (fold (escalated e b) xs d)"
proof -
  let ?d' = "fold (escalated e b) xs d"
  have i: "ids_ok ?d'"
    by (rule ids_ok_extend [where ns = "[]" and ms = "[]" and d = d])
      (use assms in \<open>simp_all add: committed_def engine_ok_ids fold_escalated_execs o_def\<close>)
  have "engine_ok ?d'"
    by (rule marked_engine_ok [OF _ i fold_escalated_execs]) (use assms in \<open>simp_all add: committed_def\<close>)
  with assms show ?thesis
    by (simp add: committed_def rows_ok_def definitions_ok_def fold_escalated_execs list_all_iff)
qed

lemma grows_scan: "grows (scan_for_breaches e)"
proof -
  have s: "grows (escalate_step e b x)" for b x
    unfolding escalate_step_def send_sla_breach_email_def
    by (intro grows_rules) (simp add: grows_def extends_def change_op_def)
  have "extends d (snd (escalate_all e b xs n d))" for b xs n d
  proof (induction xs arbitrary: n d)
    case (Cons x xs)
    have "extends d (snd (escalate_step e b x d))" by (rule growsD [OF s])
    with Cons show ?case
      by (auto split: prod.splits sum.splits) (metis extends_trans snd_conv)+
  qed simp
  then show ?thesis
    unfolding grows_def scan_for_breaches_def flush_def
    by (auto simp: Let_def extends_def split: prod.splits) (metis snd_conv)+
qed

interpretation scan: transaction "scan_for_breaches e" "committed e" for e
proof
  fix d n d'
  assume c: "committed e d" and s: "scan_for_breaches e d = (Inr n, d')"
  then have r: "rows_ok e d" by (simp add: committed_def)
  have "committed e (rolled_back d (fold (escalated e d) (overdue_steps e d) d))"
    by (rule committed_rolled_back [OF c])
      (simp add: extends_def fold_escalated_outbox)
  with s scan_run [OF r] escalated_committed [OF c] show "committed e d'"
    by (auto simp: Let_def split: if_splits)
qed (auto intro: grows_scan committed_rolled_back)

section \<open>Properties\<close>

lemma not_overdue_marked: "\<not> is_overdue e (mark_breached x)"
  by (simp add: is_overdue_def)


lemma check_run:
  assumes "committed e d"
  shows "check_all_slas e d =
    (let xs = overdue_steps e d; n = length (filter (delivers_breach e d) xs); d' = fold (escalated e d) xs d
     in (n, if n > 0 then d' else rolled_back d d'))"
  using scan_run [of e d] assms by (simp add: check_all_slas_def committed_def Let_def)



text \<open>
  C23. When the broker takes the message of one overdue execution and refuses that of another, the scan
  commits the mark of both: the second is never reported, by this scan or a later one.
\<close>

theorem sla_lost_report:
  assumes "committed e d" and "x \<in> set (db_execs d)" "is_overdue e x" "delivers_breach e d x"
    and "y \<in> set (db_execs d)" "is_overdue e y" "\<not> delivers_breach e d y" "breach_message d y \<notin> set (db_outbox d)"
    and "check_all_slas e d = (n, d')"
  shows "mark_breached y \<in> set (db_execs d') \<and> breach_message d y \<notin> set (db_outbox d') \<and>
    \<not> is_overdue e' (mark_breached y)"
proof -
  let ?xs = "overdue_steps e d"
  have n: "n = length (filter (delivers_breach e d) ?xs)" and d': "d' = (if n > 0 then fold (escalated e d) ?xs d
      else rolled_back d (fold (escalated e d) ?xs d))"
    using check_run [OF assms(1)] assms(9) by (simp_all add: Let_def)
  have "x \<in> set (filter (delivers_breach e d) ?xs)" using assms(2-4) by simp
  then have "n > 0" using n by (metis length_pos_if_in_set)
  with d' have d'': "d' = fold (escalated e d) ?xs d" by simp
  have "mark_ids (ex_id ` set ?xs) y = mark_breached y" using assms(5,6) by (simp add: mark_ids_def)
  then have "mark_breached y \<in> set (db_execs d')"
    using assms(5) unfolding d'' fold_escalated_execs by (metis (no_types) imageI list.set_map)
  moreover have "breach_message d y \<notin> breach_message d ` set (filter (delivers_breach e d) ?xs)"
    using assms(7) by (auto simp: delivers_breach_def)
  ultimately show ?thesis using assms(8) by (auto simp: d'' fold_escalated_outbox not_overdue_marked)
qed

definition refusing_server :: server where
  "refusing_server = sample_server (\<lambda>m. case m of SlaBreach x r w s t \<Rightarrow> x \<noteq> uid 9 | _ \<Rightarrow> True)"

lemma sla_lost_report_witness:
  "mark_breached (sample_exec 9 6 3 200) \<in> set (db_execs (snd (check_all_slas refusing_server sample_db))) \<and>
   breach_message sample_db (sample_exec 9 6 3 200) \<notin> set (db_outbox (snd (check_all_slas refusing_server sample_db)))"
proof -
  have o: "is_overdue refusing_server (sample_exec i r s t)" if "t < 1000" for i r s t
    using that by (simp add: is_overdue_def refusing_server_def sample_exec_def new_exec_def)
  have "delivers_breach refusing_server sample_db (sample_exec 7 5 2 100)"
    and "\<not> delivers_breach refusing_server sample_db (sample_exec 9 6 3 200)"
    by (simp_all add: delivers_breach_def refusing_server_def breach_message_def sample_exec_def)
  moreover have "committed refusing_server sample_db" by (simp add: refusing_server_def sample_committed)
  ultimately show ?thesis
    using sla_lost_report [of refusing_server sample_db "sample_exec 7 5 2 100" "sample_exec 9 6 3 200"
        "fst (check_all_slas refusing_server sample_db)" "snd (check_all_slas refusing_server sample_db)"] o
    by simp
qed

end
