(* ===== verification/Uuids.thy ===== *)
theory Uuids
  imports Prelude
begin

text \<open>
  \<open>uuid.UUID(text)\<close> and \<open>str(uuid)\<close> of Python's standard library, on which the endpoints rest that take
  an identifier as text: \<open>UUID\<close> accepts more than the canonical text (braces, \<open>urn:uuid:\<close>, missing hyphens,
  upper case, even the prefix and the underscores of an integer literal), and every value is printed in
  the one canonical form that this development uses as the identifier.
\<close>

section \<open>Printing\<close>

definition hex_digit :: "nat \<Rightarrow> char" where
  "hex_digit d = ''0123456789abcdef'' ! d"

text \<open>\<open>'%0kx' % n\<close> for \<open>n < 16 ^ k\<close>.\<close>

fun hex_text :: "nat \<Rightarrow> nat \<Rightarrow> string" where
  "hex_text 0 n = []"
| "hex_text (Suc k) n = hex_text k (n div 16) @ [hex_digit (n mod 16)]"

definition uuid_text :: "nat \<Rightarrow> uuid" where
  "uuid_text n = (let h = hex_text 32 n in
     take 8 h @ ''-'' @ take 4 (drop 8 h) @ ''-'' @ take 4 (drop 12 h) @ ''-'' @ take 4 (drop 16 h) @ ''-'' @ drop 20 h)"

section \<open>Reading\<close>

text \<open>\<open>s.replace(sub, '')\<close> for a non-empty \<open>sub\<close>.\<close>

function remove_text :: "string \<Rightarrow> string \<Rightarrow> string" where
  "remove_text sub [] = []"
| "remove_text sub (c # s) =
     (if take (length sub) (c # s) = sub then remove_text sub (drop (length sub - 1) s) else c # remove_text sub s)"
  by pat_completeness auto
termination by (relation "measure (\<lambda>(sub, s). length s)") auto

text \<open>\<open>s.strip(\<dots>)\<close>.\<close>

definition strip_chars :: "(char \<Rightarrow> bool) \<Rightarrow> string \<Rightarrow> string" where
  "strip_chars P s = rev (dropWhile P (rev (dropWhile P s)))"

definition py_space :: "char \<Rightarrow> bool" where
  "py_space c = (let n = (of_char c :: nat) in (9 \<le> n \<and> n \<le> 13) \<or> (28 \<le> n \<and> n \<le> 32))"

definition hex_value :: "char \<Rightarrow> nat option" where
  "hex_value c = (let n = (of_char c :: nat) in
     if 48 \<le> n \<and> n \<le> 57 then Some (n - 48)
     else if 97 \<le> n \<and> n \<le> 102 then Some (n - 87)
     else if 65 \<le> n \<and> n \<le> 70 then Some (n - 55) else None)"

text \<open>The digits of an integer literal: single underscores may stand between them.\<close>

fun hex_number :: "nat \<Rightarrow> bool \<Rightarrow> string \<Rightarrow> nat option" where
  "hex_number n after_digit [] = (if after_digit then Some n else None)"
| "hex_number n after_digit (c # s) = (case hex_value c of
     Some v \<Rightarrow> hex_number (16 * n + v) True s
   | None \<Rightarrow> if c = CHR ''_'' \<and> after_digit then hex_number n False s else None)"

text \<open>\<open>int(s, 16)\<close> of a text without a minus sign.\<close>

definition int_base16 :: "string \<Rightarrow> nat option" where
  "int_base16 s =
     (let t = strip_chars py_space s;
          u = (if take 1 t = ''+'' then drop 1 t else t);
          v = (if take 2 u = ''0x'' \<or> take 2 u = ''0X''
               then (if take 1 (drop 2 u) = ''_'' then drop 3 u else drop 2 u) else u)
      in hex_number 0 False v)"

definition uuid_int :: "string \<Rightarrow> nat option" where
  "uuid_int s =
     (let h = filter (\<lambda>c. c \<noteq> CHR ''-'') (strip_chars (\<lambda>c. c = CHR ''{'' \<or> c = CHR ''}'')
                (remove_text ''uuid:'' (remove_text ''urn:'' s)))
      in if length h \<noteq> 32 then None
         else case int_base16 h of None \<Rightarrow> None | Some n \<Rightarrow> if n < 2 ^ 128 then Some n else None)"

text \<open>The identifier, \<open>None\<close> for a \<open>ValueError\<close>.\<close>

definition parse_uuid :: "string \<Rightarrow> uuid option" where
  "parse_uuid s = map_option uuid_text (uuid_int s)"

section \<open>Lemmas\<close>

lemma length_hex_text [simp]: "length (hex_text k n) = k"
  by (induction k arbitrary: n) simp_all

text \<open>A digit is none of the characters that reading treats in a way of their own.\<close>

definition special :: "char \<Rightarrow> bool" where
  "special c \<longleftrightarrow> py_space c \<or> List.member ''-+_{}xXu'' c"

lemma hex_digits: "list_all (\<lambda>d. hex_value (hex_digit d) = Some d \<and> \<not> special (hex_digit d)) [0..<16]"
  by code_simp

lemma hex_digit_props: "d < 16 \<Longrightarrow> hex_value (hex_digit d) = Some d" "d < 16 \<Longrightarrow> \<not> special (hex_digit d)"
  using hex_digits unfolding list_all_iff by simp_all

lemma length_uuid_text [simp]: "length (uuid_text n) = 36"
  by (simp add: uuid_text_def Let_def)

lemma hex_text_digits: "c \<in> set (hex_text k n) \<Longrightarrow> \<exists>d < 16. c = hex_digit d"
  by (induction k arbitrary: n) (auto intro: exI [of _ "_ mod 16"])

lemma hex_text_plain: "c \<in> set (hex_text k n) \<Longrightarrow> \<not> special c"
  using hex_text_digits hex_digit_props(2) by blast

lemma uuid_text_chars: "c \<in> set (uuid_text n) \<Longrightarrow> c = CHR ''-'' \<or> \<not> special c"
  using hex_text_plain [of c 32 n] by (auto simp: uuid_text_def Let_def dest: in_set_takeD in_set_dropD)

lemma remove_text_absent: "c \<notin> set s \<Longrightarrow> remove_text (c # sub) s = s"
  by (induction s) auto

lemma dropWhile_none: "\<forall>c \<in> set s. \<not> P c \<Longrightarrow> dropWhile P s = s"
  by (cases s) auto

lemma strip_chars_plain: "\<forall>c \<in> set s. \<not> P c \<Longrightarrow> strip_chars P s = s"
  by (simp add: strip_chars_def dropWhile_none)

lemma hex_number_append: "hex_number n b xs = Some m \<Longrightarrow> xs \<noteq> [] \<Longrightarrow> hex_number n b (xs @ ys) = hex_number m True ys"
proof (induction xs arbitrary: n b)
  case (Cons c xs)
  then show ?case by (cases "xs = []") (auto split: option.splits if_splits)
qed simp

lemma hex_number_text: "0 < k \<Longrightarrow> hex_number m b (hex_text k n) = Some (16 ^ k * m + n mod 16 ^ k)"
proof (induction k arbitrary: n)
  case (Suc k)
  have s: "n mod 16 ^ Suc k = n mod 16 + 16 * ((n div 16) mod 16 ^ k)"
    using mod_mult2_eq [of n 16 "16 ^ k"] by (simp add: mult.commute)
  have v: "hex_value (hex_digit (n mod 16)) = Some (n mod 16)" by (rule hex_digit_props) simp
  show ?case
  proof (cases k)
    case 0
    then show ?thesis by (simp add: v)
  next
    case (Suc j)
    then have "hex_number m b (hex_text k (n div 16)) = Some (16 ^ k * m + (n div 16) mod 16 ^ k)"
      using Suc.IH by simp
    then have "hex_number m b (hex_text (Suc k) n) = Some (16 * (16 ^ k * m + (n div 16) mod 16 ^ k) + n mod 16)"
      using Suc hex_number_append [of m b "hex_text k (n div 16)"] by (subst hex_text.simps) (force simp: v)
    then show ?thesis by (simp only: s) (simp add: algebra_simps)
  qed
qed simp

lemma int_base16_plain:
  assumes "\<forall>c \<in> set h. \<not> special c"
  shows "int_base16 h = hex_number 0 False h"
proof -
  have s: "strip_chars py_space h = h" by (rule strip_chars_plain) (use assms in \<open>auto simp: special_def\<close>)
  have x: "CHR ''+'' \<notin> set h" "CHR ''x'' \<notin> set h" "CHR ''X'' \<notin> set h" using assms by (auto simp: special_def)
  have "take 1 h \<noteq> ''+''" "take 2 h \<noteq> ''0x''" "take 2 h \<noteq> ''0X''"
    using x set_take_subset [of 1 h] set_take_subset [of 2 h] by auto
  then show ?thesis by (simp add: int_base16_def s)
qed

lemma int_base16_text: "0 < k \<Longrightarrow> int_base16 (hex_text k n) = Some (n mod 16 ^ k)"
  using hex_text_plain [of _ k n] by (subst int_base16_plain) (auto simp: hex_number_text)

text \<open>The digits of the canonical text are the 32 digits of the number.\<close>

lemma uuid_text_digits: "filter (\<lambda>c. c \<noteq> CHR ''-'') (uuid_text n) = hex_text 32 n"
proof -
  let ?h = "hex_text 32 n"
  let ?f = "filter (\<lambda>c. c \<noteq> CHR ''-'')"
  have "?f ?h = ?h" using hex_text_plain [of _ 32 n] by (auto simp: special_def filter_id_conv)
  then have f: "?f (take i (drop j ?h)) = take i (drop j ?h)" "?f (take i ?h) = take i ?h" "?f (drop j ?h) = drop j ?h" for i j
    by (metis filter_id_conv in_set_takeD in_set_dropD)+
  have "take 8 ?h @ take 4 (drop 8 ?h) @ take 4 (drop 12 ?h) @ take 4 (drop 16 ?h) @ drop 20 ?h = ?h"
    using append_take_drop_id [of 8 ?h] append_take_drop_id [of 4 "drop 8 ?h"] append_take_drop_id [of 4 "drop 12 ?h"]
      append_take_drop_id [of 4 "drop 16 ?h"] by (simp add: drop_drop del: hex_text.simps)
  then show ?thesis by (simp add: uuid_text_def Let_def f)
qed

theorem uuid_int_text: "n < 2 ^ 128 \<Longrightarrow> uuid_int (uuid_text n) = Some n"
proof -
  assume n: "n < 2 ^ 128"
  have u: "CHR ''u'' \<notin> set (uuid_text n)" using uuid_text_chars [of "CHR ''u''" n] by (auto simp: special_def)
  have s: "strip_chars (\<lambda>c. c = CHR ''{'' \<or> c = CHR ''}'') (uuid_text n) = uuid_text n"
    by (rule strip_chars_plain) (use uuid_text_chars [of _ n] in \<open>force simp: special_def\<close>)
  have p: "(16 :: nat) ^ 32 = 2 ^ 128" by simp
  show ?thesis
    using n by (simp add: uuid_int_def remove_text_absent [OF u] s uuid_text_digits int_base16_text p Let_def)
qed

definition canonical_uuid :: "uuid \<Rightarrow> bool" where
  "canonical_uuid i = (parse_uuid i = Some i)"

lemma uuid_text_canonical: "n < 2 ^ 128 \<Longrightarrow> canonical_uuid (uuid_text n)"
  by (simp add: canonical_uuid_def parse_uuid_def uuid_int_text)

lemma parse_uuid_canonical: "parse_uuid s = Some i \<Longrightarrow> canonical_uuid i"
  by (auto simp: parse_uuid_def uuid_int_def Let_def split: if_splits option.splits intro: uuid_text_canonical)

lemma uuid_text_inject: "m < 2 ^ 128 \<Longrightarrow> n < 2 ^ 128 \<Longrightarrow> uuid_text m = uuid_text n \<longleftrightarrow> m = n"
  using uuid_int_text by (metis option.inject)

end
