(* ===== verification/Endpoints.thy ===== *)
theory Endpoints
  imports WorkflowService Schemas SlaMonitor Uuids
begin

text \<open>
  The API endpoints over the engine and the services, \<open>app/api/v1/endpoints/\<close>: reading the request
  body, the role checks, the transaction, the response model and the status code of a failure
  (\<open>app/core/errors.py\<close>). The user has been authenticated (theory \<open>Accounts\<close>). A response is the
  value of the response model or a status code; its error text is left out.
\<close>

section \<open>Responses\<close>

datatype 'a response = Success 'a | Failed nat

text \<open>The exception handlers of the application; an engine error has none of its own and ends in the
  catch-all.\<close>

definition http_status :: "failure \<Rightarrow> nat" where
  "http_status f = (case f of InvalidStateTransition s t \<Rightarrow> 400 | PermissionDenied \<Rightarrow> 403 | ResourceNotFound \<Rightarrow> 404
   | HttpException n \<Rightarrow> n | ValidationError \<Rightarrow> 422 | _ \<Rightarrow> 500)"

definition respond :: "'a op \<Rightarrow> (db \<Rightarrow> 'a \<Rightarrow> 'b) \<Rightarrow> db \<Rightarrow> 'b response \<times> db" where
  "respond m out d = (case transact m d of (Inl f, d') \<Rightarrow> (Failed (http_status f), d') | (Inr x, d') \<Rightarrow> (Success (out d' x), d'))"

section \<open>Response models\<close>

definition json_option :: "json \<Rightarrow> json option" where
  "json_option v = (if v = JNull then None else Some v)"

text \<open>\<open>WorkflowRequestSchema\<close>: its field \<open>steps\<close> is not an attribute of the ORM class, whose steps are
  \<open>request_steps\<close>, so it has its default, the empty list.\<close>

definition WorkflowRequestSchema :: "request_row \<Rightarrow> request_out" where
  "WorkflowRequestSchema r = \<lparr>ro_id = rq_id r, ro_workflow_id = rq_workflow_id r, ro_requester_id = rq_requester_id r,
     ro_status = request_status_name (rq_status r), ro_request_data = json_option (rq_data r),
     ro_current_step_id = rq_current_step_id r, ro_created_at = rq_created_at r, ro_steps = []\<rparr>"

definition request_response :: "db \<Rightarrow> uuid \<Rightarrow> request_out option" where
  "request_response d i = map_option WorkflowRequestSchema (get_row rq_id i (db_requests d))"

text \<open>\<open>WorkflowSchema\<close>: the relationship orders the steps by \<open>step_order\<close>.\<close>

definition WorkflowSchema :: "server \<Rightarrow> db \<Rightarrow> workflow_row \<Rightarrow> workflow_out" where
  "WorkflowSchema e d w = \<lparr>wo_id = wf_id w, wo_name = wf_name w, wo_description = wf_description w, wo_is_active = wf_active w,
     wo_created_at = wf_created_at w,
     wo_steps = map (\<lambda>s. \<lparr>wso_id = sd_id s, wso_name = sd_name s, wso_step_order = sd_order s\<rparr>)
       (sort_key sd_order (query e sd_id (\<lambda>s. sd_workflow_id s = wf_id w) (db_steps d)))\<rparr>"

section \<open>Workflows\<close>

definition read_workflows :: "server \<Rightarrow> nat \<Rightarrow> nat \<Rightarrow> db \<Rightarrow> workflow_out list" where
  "read_workflows e skip limit d = map (WorkflowSchema e d) (list_workflows e skip limit d)"

definition workflow_response :: "server \<Rightarrow> db \<Rightarrow> uuid \<Rightarrow> workflow_out option" where
  "workflow_response e d i = map_option (WorkflowSchema e d) (get_row wf_id i (db_workflows d))"

definition post_workflow :: "server \<Rightarrow> codec \<Rightarrow> user_row \<Rightarrow> json \<Rightarrow> db \<Rightarrow> workflow_out option response \<times> db" where
  "post_workflow e cd current_user body d = (case WorkflowCreate cd body of
     None \<Rightarrow> (Failed 422, d)
   | Some workflow_in \<Rightarrow>
       respond (and_do (check_role current_user ''admin'') (\<lambda>_. create_workflow e workflow_in (user_id current_user))) (workflow_response e) d)"

definition read_workflow :: "server \<Rightarrow> uuid \<Rightarrow> db \<Rightarrow> workflow_out response \<times> db" where
  "read_workflow e i d = respond (get_workflow i) (WorkflowSchema e) d"

definition remove_workflow_endpoint :: "server \<Rightarrow> user_row \<Rightarrow> uuid \<Rightarrow> db \<Rightarrow> unit response \<times> db" where
  "remove_workflow_endpoint e current_user i d =
     respond (and_do (check_role current_user ''admin'') (\<lambda>_. delete_workflow e i)) (\<lambda>d u. ()) d"

section \<open>Requests\<close>

text \<open>\<open>WorkflowRequestCreate\<close>, and \<open>request_in.request_data or {}\<close>.\<close>

definition WorkflowRequestCreate :: "codec \<Rightarrow> json \<Rightarrow> (uuid \<times> (string \<times> json) list) option" where
  "WorkflowRequestCreate cd v = (case v of JObj kvs \<Rightarrow>
     Option.bind (required (cd_uuid cd) ''workflow_id'' kvs) (\<lambda>w.
     Option.bind (optional read_dict ''request_data'' kvs) (\<lambda>data.
     Some (w, case data of None \<Rightarrow> [] | Some m \<Rightarrow> m)))
   | _ \<Rightarrow> None)"

definition post_request :: "server \<Rightarrow> codec \<Rightarrow> user_row \<Rightarrow> json \<Rightarrow> db \<Rightarrow> request_out option response \<times> db" where
  "post_request e cd current_user body d = (case WorkflowRequestCreate cd body of
     None \<Rightarrow> (Failed 422, d)
   | Some (w, data) \<Rightarrow> respond (start_workflow e w (user_id current_user) data) request_response d)"

text \<open>The two embedded body parameters; \<open>null\<close> counts as a missing one.\<close>

definition process_body :: "json \<Rightarrow> (string \<times> (string \<times> json) list option) option" where
  "process_body v = (case v of JObj kvs \<Rightarrow>
     Option.bind (required read_text ''outcome'' kvs) (\<lambda>outcome.
     Option.bind (optional read_dict ''context'' kvs) (\<lambda>c. Some (outcome, c)))
   | _ \<Rightarrow> None)"

definition process_request_step :: "server \<Rightarrow> user_row \<Rightarrow> uuid \<Rightarrow> json \<Rightarrow> db \<Rightarrow> request_out option response \<times> db" where
  "process_request_step e current_user i body d = (case process_body body of
     None \<Rightarrow> (Failed 422, d)
   | Some (outcome, c) \<Rightarrow> respond (process_step e i current_user outcome c) request_response d)"

definition read_request :: "uuid \<Rightarrow> db \<Rightarrow> request_out response" where
  "read_request i d = (case request_response d i of None \<Rightarrow> Failed 404 | Some r \<Rightarrow> Success r)"

text \<open>\<open>RequestStatus[status.upper()]\<close>; an unknown name is no filter.\<close>

definition status_named :: "string \<Rightarrow> request_status option" where
  "status_named s = find (\<lambda>t. request_status_name t = to_upper s) [CREATED, IN_PROGRESS, APPROVED, REJECTED, COMPLETED, ESCALATED]"

definition status_filter :: "string option \<Rightarrow> request_row \<Rightarrow> bool" where
  "status_filter status r = (case status of None \<Rightarrow> True
     | Some s \<Rightarrow> if s = '''' then True else (case status_named s of None \<Rightarrow> True | Some t \<Rightarrow> rq_status r = t))"

text \<open>A text that is no UUID is no filter.\<close>

definition requester_filter :: "string option \<Rightarrow> request_row \<Rightarrow> bool" where
  "requester_filter requester r = (case requester of None \<Rightarrow> True
     | Some s \<Rightarrow> if s = '''' then True else (case parse_uuid s of None \<Rightarrow> True | Some i \<Rightarrow> rq_requester_id r = i))"

definition read_requests :: "server \<Rightarrow> nat \<Rightarrow> nat \<Rightarrow> string option \<Rightarrow> string option \<Rightarrow> db \<Rightarrow> request_out list" where
  "read_requests e skip limit status requester d =
     map WorkflowRequestSchema (take limit (drop skip (sort_key (\<lambda>r. - rq_created_at r)
       (query e rq_id (\<lambda>r. status_filter status r \<and> requester_filter requester r) (db_requests d)))))"

text \<open>The tasks of a user: the pending executions, filtered by the requirements of their steps.\<close>

definition task_hidden :: "user_row \<Rightarrow> step_row \<Rightarrow> bool" where
  "task_hidden u s =
     (if is_admin u then False
      else (case sd_required_role_id s of None \<Rightarrow> False | Some r \<Rightarrow> \<not> List.member (user_role_ids u) r) \<or>
           (case sd_required_permission_id s of None \<Rightarrow> False | Some p \<Rightarrow> \<not> List.member (user_permission_ids u) p))"

definition task_of :: "db \<Rightarrow> exec_row \<Rightarrow> step_row \<Rightarrow> request_row \<Rightarrow> task_out" where
  "task_of d x s r = \<lparr>tk_request_id = ex_request_id x, tk_request_step_id = ex_id x,
     tk_workflow_name = workflow_name_of d (rq_workflow_id r), tk_step_name = sd_name s, tk_step_description = sd_description s,
     tk_deadline = Some (ex_deadline x), tk_is_sla_breached = ex_is_sla_breached x, tk_request_data = json_option (rq_data r),
     tk_created_at = rq_created_at r\<rparr>"

definition get_my_tasks :: "server \<Rightarrow> user_row \<Rightarrow> db \<Rightarrow> task_out list" where
  "get_my_tasks e current_user d =
     List.map_filter (\<lambda>x. case (get_row sd_id (ex_step_id x) (db_steps d), get_row rq_id (ex_request_id x) (db_requests d)) of
         (Some s, Some r) \<Rightarrow> if task_hidden current_user s then None else Some (task_of d x s r)
       | _ \<Rightarrow> None)
       (query e ex_id (\<lambda>x. ex_status x = StepPending \<and> ex_completed_at x = None) (db_execs d))"

definition get_dashboard_stats :: "db \<Rightarrow> stats_out" where
  "get_dashboard_stats d = \<lparr>sts_active = length (filter (\<lambda>r. rq_status r = IN_PROGRESS) (db_requests d)),
     sts_completed = length (filter (\<lambda>r. rq_status r = COMPLETED) (db_requests d)),
     sts_overdue = length (filter ex_is_sla_breached (db_execs d)),
     sts_pending = length (filter (\<lambda>x. ex_status x = StepPending) (db_execs d))\<rparr>"

definition get_admin_stats :: "user_row list \<Rightarrow> user_row \<Rightarrow> db \<Rightarrow> admin_stats_out response \<times> db" where
  "get_admin_stats users current_user d = respond (check_role current_user ''admin'')
     (\<lambda>d u. \<lparr>as_users = length users, as_workflows = length (db_workflows d), as_requests = length (db_requests d),
       as_sla_breaches = length (filter ex_is_sla_breached (db_execs d))\<rparr>) d"

definition read_audit_logs :: "server \<Rightarrow> nat \<Rightarrow> nat \<Rightarrow> uuid option \<Rightarrow> db \<Rightarrow> audit_row list" where
  "read_audit_logs e skip limit request d = take limit (drop skip (sort_key (\<lambda>a. - au_timestamp a)
     (query e au_id (\<lambda>a. case request of None \<Rightarrow> True | Some i \<Rightarrow> au_request_id a = i) (db_audit d))))"

section \<open>Decisions on an instance\<close>

text \<open>\<open>make_decision\<close> of \<open>workflow_instances.py\<close>: the action in upper case is the outcome, and the
  endpoint maps the failures itself.\<close>

definition decision_status :: "failure \<Rightarrow> nat" where
  "decision_status f = (case f of WorkflowEngineError \<Rightarrow> 400 | PermissionDenied \<Rightarrow> 400 | HttpException n \<Rightarrow> n | _ \<Rightarrow> 500)"

definition decide :: "server \<Rightarrow> uuid \<Rightarrow> user_row \<Rightarrow> (string \<times> json) list \<Rightarrow> uuid op" where
  "decide e i current_user payload =
     (let action = py_get ''action'' payload; comment = py_get ''comment'' payload in
      if \<not> py_truthy action then raise_op (HttpException 400)
      else case action of
        JStr a \<Rightarrow> process_step e i current_user (to_upper a) (Some [(''comment'', comment), (''action'', action)])
      | _ \<Rightarrow> raise_op AttributeError)"

definition make_decision :: "server \<Rightarrow> user_row \<Rightarrow> uuid \<Rightarrow> json \<Rightarrow> db \<Rightarrow> request_out option response \<times> db" where
  "make_decision e current_user i body d = (case body of
     JObj payload \<Rightarrow> (case transact (decide e i current_user payload) d of
       (Inl f, d') \<Rightarrow> (Failed (decision_status f), d')
     | (Inr r, d') \<Rightarrow> (Success (request_response d' r), d'))
   | _ \<Rightarrow> (Failed 422, d))"

end
