(* ===== verification/EndpointProperties.thy ===== *)
theory EndpointProperties
  imports Endpoints
begin

text \<open>
  Properties of the API: the task list against what the engine accepts, the statistics, the filters of
  the request list, the role checks, and what the decision endpoint does with an action.
\<close>

section \<open>Tasks\<close>

lemma task_hidden_iff: "task_hidden u s \<longleftrightarrow> \<not> step_allowed u s"
  by (auto simp: task_hidden_def step_allowed_def in_opt_def split: option.splits)

lemma my_tasks_set:
  assumes "engine_ok d"
  shows "t \<in> set (get_my_tasks e u d) \<longleftrightarrow> (\<exists>r x s. r \<in> set (db_requests d) \<and> open_execs d (rq_id r) = [x] \<and>
    get_row sd_id (ex_step_id x) (db_steps d) = Some s \<and> step_allowed u s \<and> t = task_of d x s r)"
proof
  assume "t \<in> set (get_my_tasks e u d)"
  then obtain x s r where x: "x \<in> set (db_execs d)" "ex_completed_at x = None"
    and s: "get_row sd_id (ex_step_id x) (db_steps d) = Some s" and r: "get_row rq_id (ex_request_id x) (db_requests d) = Some r"
    and a: "step_allowed u s" "t = task_of d x s r"
    by (auto simp: get_my_tasks_def List.map_filter_def task_hidden_iff split: option.splits if_splits)
  have m: "r \<in> set (db_requests d)" "rq_id r = ex_request_id x" using get_row_Some [OF r] by auto
  then have "x \<in> set (open_execs d (rq_id r))" using x by (simp add: open_execs_def)
  moreover have "status_ok r (open_execs d (rq_id r))"
    using engine_ok_request [OF assms m(1)] by (simp add: request_ok_def)
  then have "length (open_execs d (rq_id r)) \<le> 1"
    by (cases "rq_status r") (auto simp: status_ok_def)
  ultimately have "open_execs d (rq_id r) = [x]"
    by (cases "open_execs d (rq_id r)") auto
  with m s a show "\<exists>r x s. r \<in> set (db_requests d) \<and> open_execs d (rq_id r) = [x] \<and>
    get_row sd_id (ex_step_id x) (db_steps d) = Some s \<and> step_allowed u s \<and> t = task_of d x s r" by blast
next
  assume "\<exists>r x s. r \<in> set (db_requests d) \<and> open_execs d (rq_id r) = [x] \<and>
    get_row sd_id (ex_step_id x) (db_steps d) = Some s \<and> step_allowed u s \<and> t = task_of d x s r"
  then obtain r x s where r: "r \<in> set (db_requests d)" and o: "open_execs d (rq_id r) = [x]"
    and s: "get_row sd_id (ex_step_id x) (db_steps d) = Some s" and a: "step_allowed u s" "t = task_of d x s r" by blast
  have "x \<in> set (open_execs d (rq_id r))" using o by simp
  then have x: "x \<in> set (db_execs d)" "ex_completed_at x = None" "ex_request_id x = rq_id r" by (simp_all add: open_execs_def)
  have "ex_status x = StepPending" using engine_ok_exec [OF assms x(1)] x(2) by (simp add: exec_ok_def)
  moreover have "get_row rq_id (rq_id r) (db_requests d) = Some r"
    by (rule get_row_unique) (use r engine_ok_ids [OF assms] in \<open>simp_all add: ids_ok_def\<close>)
  ultimately show "t \<in> set (get_my_tasks e u d)"
    using x s a by (auto simp: get_my_tasks_def List.map_filter_def task_hidden_iff image_iff intro!: exI [of _ x])
qed

lemma task_listed_iff:
  assumes "engine_ok d" and "r \<in> set (db_requests d)"
  shows "rq_id r \<in> tk_request_id ` set (get_my_tasks e' u d) \<longleftrightarrow> (\<exists>s. current_step_def d r = Some s \<and> step_allowed u s)"
proof
  assume "rq_id r \<in> tk_request_id ` set (get_my_tasks e' u d)"
  then obtain q x s where q: "q \<in> set (db_requests d)" "open_execs d (rq_id q) = [x]"
    "get_row sd_id (ex_step_id x) (db_steps d) = Some s" "step_allowed u s" "rq_id r = ex_request_id x"
    by (auto simp: my_tasks_set [OF assms(1)] task_of_def)
  have "x \<in> set (open_execs d (rq_id q))" using q(2) by simp
  then have "rq_id q = rq_id r" using q(5) by (simp add: open_execs_def)
  then have "q = r" by (rule request_unique [OF engine_ok_ids [OF assms(1)] q(1) assms(2)])
  moreover have "rq_current_step_id q = Some (ex_step_id x)"
    using engine_ok_request [OF assms(1) q(1)] q(2) by (cases "rq_status q") (simp_all add: request_ok_def status_ok_def)
  ultimately show "\<exists>s. current_step_def d r = Some s \<and> step_allowed u s" using q by (auto simp: current_step_def_def)
next
  assume a: "\<exists>s. current_step_def d r = Some s \<and> step_allowed u s"
  then have st: "rq_status r = IN_PROGRESS" using not_in_progress [OF assms(1) assms(2)] by (cases "rq_status r = IN_PROGRESS") auto
  obtain x s where x: "open_execs d (rq_id r) = [x]" "ex_request_id x = rq_id r"
    "get_row sd_id (ex_step_id x) (db_steps d) = Some s" "current_step_def d r = Some s"
    by (metis in_progress_exec [OF assms(1) assms(2) st])
  with a assms(2) have "task_of d x s r \<in> set (get_my_tasks e' u d)" by (auto simp: my_tasks_set [OF assms(1)])
  then show "rq_id r \<in> tk_request_id ` set (get_my_tasks e' u d)" using x(2) by (force simp: task_of_def)
qed

text \<open>
  C26. The task list is exact: it shows the tasks of precisely those requests on which the engine would not
  refuse the user's decision as unauthorised or not pending, whatever the decision.
\<close>

theorem my_tasks_exact:
  assumes "committed e d" and "r \<in> set (db_requests d)"
  shows "rq_id r \<in> tk_request_id ` set (get_my_tasks e' u d) \<longleftrightarrow>
    fst (transact (process_step e (rq_id r) u out c) d) \<notin> {Inl PermissionDenied, Inl WorkflowEngineError}"
proof -
  have ok: "engine_ok d" using assms(1) by (simp add: committed_def)
  note l = task_listed_iff [OF ok assms(2), of e' u]
  show ?thesis
  proof (cases "\<exists>s. current_step_def d r = Some s \<and> step_allowed u s")
    case True
    then have "process_outcome e d r u out c \<noteq> Inl PermissionDenied \<and> process_outcome e d r u out c \<noteq> Inl WorkflowEngineError"
      by (auto simp: process_outcome_def process_result_def split: option.splits)
    with process_transact [OF assms, of u out c] True l show ?thesis
      by (cases "process_outcome e d r u out c") auto
  next
    case False
    then have "process_outcome e d r u out c \<in> {Inl PermissionDenied, Inl WorkflowEngineError}"
      by (auto simp: process_outcome_def split: option.splits)
    with process_transact [OF assms, of u out c] False l show ?thesis
      by auto
  qed
qed

lemma my_tasks_exact_witness:
  "uid 5 \<notin> tk_request_id ` set (get_my_tasks (sample_server (\<lambda>m. True)) (sample_user []) sample_db)"
proof -
  have "\<not> step_allowed (sample_user []) review_step"
    by (simp add: step_allowed_def is_admin_def sample_user_def review_step_def sample_step_def in_opt_def user_role_ids_def)
  then have "process_outcome (sample_server (\<lambda>m. True)) sample_db (sample_request 5 2) (sample_user []) ''APPROVED'' None = Inl PermissionDenied"
    by (simp add: process_outcome_def sample_current)
  then have "fst (transact (process_step (sample_server (\<lambda>m. True)) (rq_id (sample_request 5 2)) (sample_user []) ''APPROVED'' None) sample_db)
      = Inl PermissionDenied"
    using process_transact [OF sample_committed, of "sample_request 5 2" "\<lambda>m. True" "sample_user []" "''APPROVED''" None] by simp
  with my_tasks_exact [OF sample_committed, of "sample_request 5 2" "sample_server (\<lambda>m. True)" "sample_user []" "\<lambda>m. True" "''APPROVED''" None]
  show ?thesis by (simp add: sample_request_def)
qed

section \<open>Statistics and filters\<close>

lemma count_sum: "(\<Sum>r\<leftarrow>rs. if P r then 1 else 0) = length (filter P rs)"
  by (induction rs) simp_all

lemma count_open:
  assumes "engine_ok d"
  shows "length (filter (\<lambda>r. rq_status r = IN_PROGRESS) (db_requests d)) =
    length (filter (\<lambda>x. ex_completed_at x = None) (db_execs d))"
proof -
  have one: "length (open_execs d (rq_id r)) = (if rq_status r = IN_PROGRESS then 1 else 0)" if "r \<in> set (db_requests d)" for r
    using engine_ok_request [OF assms that] by (cases "rq_status r") (simp_all add: request_ok_def status_ok_def)
  let ?opened = "filter (\<lambda>x. ex_completed_at x = None) (db_execs d)"
  have dist: "distinct (map rq_id (db_requests d))" using engine_ok_ids [OF assms] by (simp add: ids_ok_def)
  have sum: "(\<Sum>r\<leftarrow>rs. length (filter (\<lambda>x. ex_request_id x = rq_id r) xs)) = length (filter (\<lambda>x. ex_request_id x \<in> rq_id ` set rs) xs)"
    if "distinct (map rq_id rs)" for rs :: "request_row list" and xs :: "exec_row list"
    using that
  proof (induction rs)
    case (Cons r rs)
    have "length (filter (\<lambda>x. ex_request_id x \<in> rq_id ` set (r # rs)) xs) =
        length (filter (\<lambda>x. ex_request_id x = rq_id r) xs) + length (filter (\<lambda>x. ex_request_id x \<in> rq_id ` set rs) xs)"
      using Cons.prems by (induction xs) auto
    with Cons show ?case by simp
  qed simp
  have "open_execs d i = filter (\<lambda>x. ex_request_id x = i) ?opened" for i
    by (simp add: open_execs_def conj_commute)
  then have "(\<Sum>r\<leftarrow>db_requests d. length (open_execs d (rq_id r))) =
      length (filter (\<lambda>x. ex_request_id x \<in> rq_id ` set (db_requests d)) ?opened)"
    using sum [OF dist, of ?opened] by simp
  also have "filter (\<lambda>x. ex_request_id x \<in> rq_id ` set (db_requests d)) ?opened = ?opened"
    by (rule filter_True) (use exec_has_request [OF assms] in simp)
  finally have "length ?opened = (\<Sum>r\<leftarrow>db_requests d. if rq_status r = IN_PROGRESS then 1 else 0)"
    using one by (simp cong: map_cong)
  also have "\<dots> = length (filter (\<lambda>r. rq_status r = IN_PROGRESS) (db_requests d))"
    by (rule count_sum)
  finally show ?thesis by simp
qed

text \<open>
  C27. The dashboard's counts add up: every request is either active or completed, there are as many
  active requests as open step executions, and each open execution is counted as pending.
\<close>

theorem stats_add_up:
  assumes "committed e d"
  shows "sts_active (get_dashboard_stats d) + sts_completed (get_dashboard_stats d) = length (db_requests d) \<and>
    sts_active (get_dashboard_stats d) = length (filter (\<lambda>x. ex_completed_at x = None) (db_execs d)) \<and>
    sts_active (get_dashboard_stats d) \<le> sts_pending (get_dashboard_stats d)"
proof -
  have ok: "engine_ok d" using assms by (simp add: committed_def)
  have two: "rq_status r = IN_PROGRESS \<or> rq_status r = COMPLETED" if "r \<in> set (db_requests d)" for r
    using not_in_progress(3) [OF ok that] by blast
  have "filter (\<lambda>r. rq_status r = COMPLETED) (db_requests d) = filter (\<lambda>r. \<not> rq_status r = IN_PROGRESS) (db_requests d)"
    by (rule filter_cong [OF refl]) (use two in fastforce)
  then have "sts_active (get_dashboard_stats d) + sts_completed (get_dashboard_stats d) = length (db_requests d)"
    using sum_length_filter_compl [of "\<lambda>r. rq_status r = IN_PROGRESS" "db_requests d"] by (simp add: get_dashboard_stats_def)
  moreover have "length (filter (\<lambda>x. ex_completed_at x = None) (db_execs d)) \<le> length (filter (\<lambda>x. ex_status x = StepPending) (db_execs d))"
  proof -
    have "filter (\<lambda>x. ex_completed_at x = None) (db_execs d) =
        filter (\<lambda>x. ex_completed_at x = None) (filter (\<lambda>x. ex_status x = StepPending) (db_execs d))"
      using engine_ok_exec [OF ok] by (auto simp: exec_ok_def intro!: filter_cong)
    then show ?thesis by (metis length_filter_le)
  qed
  ultimately show ?thesis using count_open [OF ok] by (simp add: get_dashboard_stats_def)
qed

lemma stats_add_up_witness:
  "sts_active (get_dashboard_stats sample_db) + sts_completed (get_dashboard_stats sample_db) = 2"
  using stats_add_up [OF sample_committed [of "\<lambda>m. True"]] by simp

text \<open>
  C28. The status filter of the request list has two values with a result: for CREATED, APPROVED, REJECTED
  and ESCALATED, in any letter case, the list is empty, and without a filter it holds each request once up
  to its limit.
\<close>

theorem status_filters:
  assumes "committed e d" and "status_named f = Some s" and "s \<notin> {IN_PROGRESS, COMPLETED}"
  shows "read_requests e' skip limit (Some f) requester d = [] \<and>
    mset (read_requests e' 0 (length (db_requests d)) None None d) = mset (map WorkflowRequestSchema (db_requests d))"
proof -
  have ok: "engine_ok d" using assms(1) by (simp add: committed_def)
  have n: "f \<noteq> ''''"
  proof
    assume "f = ''''"
    then have "to_upper f = ''''" by (simp add: to_upper_def)
    with assms(2) show False by (simp add: status_named_def request_status_name_def)
  qed
  have "rq_status r \<noteq> s" if "r \<in> set (db_requests d)" for r
    using not_in_progress(3) [OF ok that] assms(3) by auto
  then have "query e' rq_id (\<lambda>r. status_filter (Some f) r \<and> requester_filter requester r) (db_requests d) = []"
    using n assms(2) by (simp add: query_def status_filter_def filter_empty_conv)
  moreover have "mset (read_requests e' 0 (length (db_requests d)) None None d) = mset (map WorkflowRequestSchema (db_requests d))"
    by (simp add: read_requests_def query_def status_filter_def requester_filter_def)
  ultimately show ?thesis by (simp add: read_requests_def)
qed

lemma status_filters_witness:
  "read_requests (sample_server (\<lambda>m. True)) 0 100 (Some ''rejected'') None sample_db = []"
proof -
  have "status_named ''rejected'' = Some REJECTED" by code_simp
  with status_filters [OF sample_committed, of "''rejected''" REJECTED] show ?thesis by simp
qed

section \<open>Roles\<close>

lemma is_admin_role: "is_admin u \<longleftrightarrow> has_role u ''admin''"
  by (auto simp: is_admin_def has_role_iff list_ex_iff)

lemma check_role_denied:
  "\<not> has_role u ''admin'' \<Longrightarrow> \<not> has_role u ''superadmin'' \<Longrightarrow> check_role u ''admin'' d = (Inl PermissionDenied, d)"
  by (simp add: check_role_admin)

text \<open>
  Without the role admin or superadmin, creating a workflow, deleting one and the administration
  statistics are refused, and no table changes.
\<close>

lemma admin_endpoints_guarded:
  assumes "\<not> has_role u ''admin''" and "\<not> has_role u ''superadmin''"
  shows "fst (post_workflow e cd u body d) \<in> {Failed 403, Failed 422} \<and> same_tables d (snd (post_workflow e cd u body d)) \<and>
    fst (remove_workflow_endpoint e u i d) = Failed 403 \<and> same_tables d (snd (remove_workflow_endpoint e u i d)) \<and>
    fst (get_admin_stats users u d) = Failed 403"
proof -
  have t: "transact (and_do (check_role u ''admin'') f) d = (Inl PermissionDenied, rolled_back d d)" for f :: "unit \<Rightarrow> 'a op"
    using check_role_denied [OF assms, of d] by (simp add: transact_def)
  have t0: "transact (check_role u ''admin'') d = (Inl PermissionDenied, rolled_back d d)"
    using check_role_denied [OF assms, of d] by (simp add: transact_def)
  show ?thesis
    by (simp add: post_workflow_def remove_workflow_endpoint_def get_admin_stats_def respond_def t t0 http_status_def
        split: option.split)
qed

lemma admin_endpoints_guarded_witness:
  "fst (get_admin_stats [] (sample_user [manager_role]) sample_db) = Failed 403"
proof -
  have "\<not> has_role (sample_user [manager_role]) ''admin''" "\<not> has_role (sample_user [manager_role]) ''superadmin''"
    by (simp_all add: has_role_def sample_user_def manager_role_def) code_simp+
  with admin_endpoints_guarded [of "sample_user [manager_role]"] show ?thesis by blast
qed

text \<open>
  The two readings of \<open>admin\<close> differ: a superadmin who has no admin role passes the role check of
  the administration endpoints, but the engine gives no bypass and refuses a step whose role is not the
  user's.
\<close>

lemma superadmin_without_bypass:
  assumes "has_role u ''superadmin''" and "\<not> has_role u ''admin''"
    and "committed e d" and "r \<in> set (db_requests d)" and "current_step_def d r = Some s"
    and "sd_required_role_id s = Some i" and "i \<notin> set (user_role_ids u)"
  shows "check_role u ''admin'' d = (Inr (), d) \<and>
    fst (process_request_step e u (rq_id r) (JObj [(''outcome'', JStr ''APPROVED'')]) d) = Failed 403"
proof -
  have "\<not> step_allowed u s"
    using assms(2,6,7) by (simp add: step_allowed_def is_admin_role in_opt_def)
  then have "process_outcome e d r u ''APPROVED'' None = Inl PermissionDenied" using assms(5) by (simp add: process_outcome_def)
  with process_transact [OF assms(3,4), of u "''APPROVED''" None]
  have "fst (transact (process_step e (rq_id r) u ''APPROVED'' None) d) = Inl PermissionDenied" by simp
  then have "fst (process_request_step e u (rq_id r) (JObj [(''outcome'', JStr ''APPROVED'')]) d) = Failed 403"
    by (cases "transact (process_step e (rq_id r) u ''APPROVED'' None) d")
      (simp add: process_request_step_def process_body_def required_def optional_def read_text_def respond_def http_status_def)
  then show ?thesis using assms(1) by (simp add: check_role_admin)
qed

definition superadmin_role :: role_row where
  "superadmin_role = \<lparr>role_row_id = uid 102, role_row_name = ''superadmin'', role_permissions = []\<rparr>"

lemma superadmin_without_bypass_witness:
  "fst (process_request_step (sample_server (\<lambda>m. True)) (sample_user [superadmin_role]) (uid 5)
     (JObj [(''outcome'', JStr ''APPROVED'')]) sample_db) = Failed 403"
proof -
  have "has_role (sample_user [superadmin_role]) ''superadmin''" "\<not> has_role (sample_user [superadmin_role]) ''admin''"
    by (simp_all add: has_role_def sample_user_def superadmin_role_def)
  moreover have "sd_required_role_id review_step = Some (uid 100)" by (simp add: review_step_def sample_step_def)
  moreover have "uid 100 \<notin> set (user_role_ids (sample_user [superadmin_role]))"
    by (simp add: user_role_ids_def sample_user_def superadmin_role_def)
  ultimately show ?thesis
    using superadmin_without_bypass [OF _ _ sample_committed _ sample_current, of "sample_user [superadmin_role]" "uid 100" "\<lambda>m. True"]
    by (simp add: sample_request_def)
qed

section \<open>Decisions\<close>

lemma make_decision_failed:
  assumes "committed e d" and "r \<in> set (db_requests d)" and "map_of kvs ''action'' = Some (JStr a)" and "a \<noteq> ''''"
    and "process_outcome e d r u (to_upper a) (Some [(''comment'', py_get ''comment'' kvs), (''action'', JStr a)]) = Inl f"
  shows "fst (make_decision e u (rq_id r) (JObj kvs) d) = Failed (decision_status f) \<and>
    same_tables d (snd (make_decision e u (rq_id r) (JObj kvs) d))"
proof -
  have "decide e (rq_id r) u kvs = process_step e (rq_id r) u (to_upper a) (Some [(''comment'', py_get ''comment'' kvs), (''action'', JStr a)])"
    using assms(3,4) by (simp add: decide_def Let_def)
  with process_transact [OF assms(1,2), of u "to_upper a" "Some [(''comment'', py_get ''comment'' kvs), (''action'', JStr a)]"] assms(5)
  show ?thesis by (auto simp: make_decision_def split: prod.splits)
qed

lemma documented_actions:
  assumes "committed e d" and "r \<in> set (db_requests d)" and "srv_strict e"
    and "map_of kvs ''action'' = Some (JStr a)" and "to_upper a \<in> {''APPROVE'', ''REJECT'', ''EXECUTE''}"
  shows "fst (make_decision e u (rq_id r) (JObj kvs) d) \<in> {Failed 400, Failed 500} \<and>
    same_tables d (snd (make_decision e u (rq_id r) (JObj kvs) d))"
proof -
  let ?c = "Some [(''comment'', py_get ''comment'' kvs), (''action'', JStr a)]"
  have k: "\<not> known_status (step_status_of (to_upper a))"
    using assms(5) by (auto simp: step_status_of_def known_status_def)
  have "a \<noteq> ''''" using assms(5) by (auto simp: to_upper_def)
  moreover have nok: "\<not> exec_row_ok e (close_exec (user_id u) (to_upper a) ?c (srv_now e) x)" for x
    using assms(3) k by (simp add: exec_row_ok_def)
  have "process_outcome e d r u (to_upper a) ?c \<noteq> Inr d'" "process_outcome e d r u (to_upper a) ?c \<noteq> Inl (HttpException n)" for d' n
    using nok by (simp_all add: process_outcome_def process_result_def split: option.split)
  then obtain f where f: "process_outcome e d r u (to_upper a) ?c = Inl f" "\<And>n. f \<noteq> HttpException n"
    by (cases "process_outcome e d r u (to_upper a) ?c") auto
  moreover have "decision_status f \<in> {400, 500}" using f(2) by (cases f) (auto simp: decision_status_def)
  ultimately show ?thesis using make_decision_failed [OF assms(1,2,4), of u f] f(1) by auto
qed

lemma approve_upper [simp]: "to_upper ''approve'' = ''APPROVE''" "to_upper ''reject'' = ''REJECT''"
  by code_simp+

lemma no_transition_next:
  "(\<And>t. t \<in> set (db_transitions d) \<Longrightarrow> tr_outcome t \<noteq> out) \<Longrightarrow> next_of e d r x out c = None"
  by (simp add: next_of_def resolve_next_def query_def filter_empty_conv)

text \<open>
  On the test database, which does not check the status, approving through the decision endpoint
  rejects: when no transition is labelled APPROVE, the decision of an allowed user completes the request
  with the history of a rejection, at whatever step it is.
\<close>

lemma lax_approve_rejects:
  assumes "committed e d" and "r \<in> set (db_requests d)" and "\<not> srv_strict e"
    and "current_step_def d r = Some s" and "step_allowed u s" and "\<forall>t \<in> set (db_transitions d). tr_outcome t \<noteq> ''APPROVE''" and "srv_text e (JStr note)"
  shows "\<exists>resp d'. make_decision e u (rq_id r) (JObj [(''action'', JStr ''approve''), (''comment'', JStr note)]) d = (Success resp, d') \<and>
    map (\<lambda>h. (hi_from h, hi_to h)) (request_history d' (rq_id r)) =
      map (\<lambda>h. (hi_from h, hi_to h)) (request_history d (rq_id r)) @ [(IN_PROGRESS, REJECTED), (REJECTED, COMPLETED)]"
proof -
  let ?c = "Some [(''comment'', JStr note), (''action'', JStr ''approve'')]"
  have ok: "engine_ok d" using assms(1) by (simp add: committed_def)
  have st: "rq_status r = IN_PROGRESS"
    using assms(4) not_in_progress [OF ok assms(2)] by (cases "rq_status r = IN_PROGRESS") auto
  obtain x where x: "open_execs d (rq_id r) = [x]"
    by (rule in_progress_exec [OF ok assms(2) st]) (rule that)
  have n: "next_of e d r x ''APPROVE'' ?c = None" by (rule no_transition_next) (use assms(6) in blast)
  have row: "exec_row_ok e (close_exec (user_id u) ''APPROVE'' ?c (srv_now e) x)"
    using assms(3,7) by (simp add: exec_row_ok_def close_exec_def Let_def text_value_def)
  obtain res d' where p: "transact (process_step e (rq_id r) u ''APPROVE'' ?c) d = (res, d')" by (rule prod.exhaust)
  note f = final_decision [OF assms(1,2,4,5) x n row p]
  have "decide e (rq_id r) u [(''action'', JStr ''approve''), (''comment'', JStr note)] = process_step e (rq_id r) u ''APPROVE'' ?c"
    by (simp add: decide_def Let_def)
  with p f show ?thesis by (simp add: make_decision_def)
qed

definition lax_server :: server where
  "lax_server = (sample_server (\<lambda>m. True))\<lparr>srv_strict := False\<rparr>"

lemma lax_committed: "committed lax_server sample_db"
  by (simp add: lax_server_def committed_def sample_engine_ok rows_ok_def definitions_ok_def exec_row_ok_def step_row_ok_def
      transition_row_ok_def sample_rows int64_def text_value_def new_exec_def close_exec_def)

lemma lax_approve_rejects_witness:
  "\<exists>resp d'. make_decision lax_server (sample_user [manager_role]) (uid 5)
      (JObj [(''action'', JStr ''approve''), (''comment'', JStr ''ok'')]) sample_db = (Success resp, d') \<and>
    map (\<lambda>h. (hi_from h, hi_to h)) (request_history d' (uid 5)) = [(CREATED, IN_PROGRESS), (IN_PROGRESS, REJECTED), (REJECTED, COMPLETED)]"
proof -
  have a: "step_allowed (sample_user [manager_role]) review_step"
    by (simp add: step_allowed_def sample_user_def review_step_def sample_step_def in_opt_def user_role_ids_def manager_role_def)
  have h: "map (\<lambda>h. (hi_from h, hi_to h)) (request_history sample_db (uid 5)) = [(CREATED, IN_PROGRESS)]"
    by (simp add: request_history_def opening_history_def)
  have s: "\<not> srv_strict lax_server" by (simp add: lax_server_def)
  have "srv_text lax_server (JStr ''ok'')" by (simp add: lax_server_def sample_server_def scalar_value_def)
  with lax_approve_rejects [OF lax_committed _ s sample_current a, of "''ok''"] h
  show ?thesis by (simp add: sample_request_def sample_transition_def)
qed

end
