(* ===== verification/ServiceProperties.thy ===== *)
theory ServiceProperties
  imports WorkflowService
begin

text \<open>
  What creating and deleting a workflow guarantee on a committed database: the definition that the tables
  hold of a workflow (\<open>stored_workflow\<close>, the abstraction of the tables to the input model) is the input
  it was created from, and no operation on one workflow changes the definition of another.
\<close>

section \<open>The definition stored for a workflow\<close>

definition step_order_of :: "db \<Rightarrow> uuid \<Rightarrow> int" where
  "step_order_of d i = (case get_row sd_id i (db_steps d) of None \<Rightarrow> 0 | Some s \<Rightarrow> sd_order s)"

definition stored_step :: "step_row \<Rightarrow> step_in" where
  "stored_step s = \<lparr>si_name = sd_name s, si_description = sd_description s, si_order = sd_order s, si_sla_hours = sd_sla_hours s,
     si_role_id = sd_required_role_id s, si_permission_id = sd_required_permission_id s, si_is_conditional = sd_is_conditional s,
     si_condition = sd_condition s\<rparr>"

definition stored_transition :: "db \<Rightarrow> transition_row \<Rightarrow> transition_in" where
  "stored_transition d t = \<lparr>ti_from = step_order_of d (tr_from t), ti_to = map_option (step_order_of d) (tr_to t),
     ti_outcome = tr_outcome t, ti_condition = tr_condition t\<rparr>"

definition stored_workflow :: "db \<Rightarrow> workflow_row \<Rightarrow> workflow_in" where
  "stored_workflow d w = \<lparr>wi_name = wf_name w, wi_description = wf_description w, wi_active = wf_active w,
     wi_steps = map stored_step (filter (\<lambda>s. sd_workflow_id s = wf_id w) (db_steps d)),
     wi_transitions = map (stored_transition d) (filter (\<lambda>t. step_workflow d (tr_from t) = Some (wf_id w)) (db_transitions d))\<rparr>"

text \<open>The input in normal form: active, without the transitions from an order that no step has, and with
  an end of the workflow for an order of arrival that no step has.\<close>

definition step_orders :: "workflow_in \<Rightarrow> int list" where
  "step_orders wi = map si_order (wi_steps wi)"

definition normal_transition :: "int list \<Rightarrow> transition_in \<Rightarrow> transition_in" where
  "normal_transition orders t = t\<lparr>ti_to := Option.bind (ti_to t) (\<lambda>k. if List.member orders k then Some k else None)\<rparr>"

definition normal_workflow :: "workflow_in \<Rightarrow> workflow_in" where
  "normal_workflow wi = wi\<lparr>wi_active := True, wi_transitions :=
     map (normal_transition (step_orders wi)) (filter (\<lambda>t. List.member (step_orders wi) (ti_from t)) (wi_transitions wi))\<rparr>"

section \<open>Creation\<close>

lemma stored_step_row [simp]: "stored_step (step_row_of w i s) = s"
  by (simp add: stored_step_def step_row_of_def)

lemma stored_step_rows: "map stored_step (step_rows u w n ss) = ss"
  by (induction ss arbitrary: n) simp_all

lemma steps_map_dom: "dom (map_of (steps_map_from u n ss m)) = si_order ` set ss \<union> dom (map_of m)"
  by (induction ss arbitrary: n m) auto

lemma steps_map_entry:
  "map_of (steps_map_from u n ss m) k = Some i \<Longrightarrow>
    map_of m k = Some i \<or> (\<exists>s \<in> set (step_rows u w n ss). sd_id s = i \<and> sd_order s = k)"
proof (induction ss arbitrary: n m)
  case (Cons s ss)
  from Cons.IH [of "Suc n" "(si_order s, u n) # m"] Cons.prems
  consider "map_of ((si_order s, u n) # m) k = Some i" | "\<exists>s \<in> set (step_rows u w (Suc n) ss). sd_id s = i \<and> sd_order s = k"
    by auto
  then show ?case by cases (auto split: if_splits)
qed simp

lemma created_map_dom: "k \<in> dom (map_of (created_map d wi)) \<longleftrightarrow> List.member (step_orders wi) k"
  by (simp add: created_map_def steps_map_dom step_orders_def)

lemma created_map_order:
  assumes "ids_ok d" "map_of (created_map d wi) k = Some i"
  shows "step_order_of (created e d wi c) i = k"
proof -
  from steps_map_entry [OF assms(2) [unfolded created_map_def]]
  obtain s where s: "s \<in> set (created_steps d wi)" "sd_id s = i" "sd_order s = k" by (auto simp: created_steps_def)
  then have "get_row sd_id i (db_steps (created e d wi c)) = Some s"
    using get_step [OF created_ids_ok [OF assms(1)], of s] by auto
  with s(3) show ?thesis by (simp add: step_order_of_def)
qed

lemma transition_rows_stored:
  assumes "\<And>k i. map_of m k = Some i \<Longrightarrow> step_order_of d i = k" and "\<And>k. k \<in> dom (map_of m) \<longleftrightarrow> List.member orders k"
  shows "map (stored_transition d) (transition_rows u n m ts) =
    map (normal_transition orders) (filter (\<lambda>t. List.member orders (ti_from t)) ts)"
proof (induction ts arbitrary: n)
  case (Cons t ts)
  have "ti_to t = Some k \<Longrightarrow> map_option (step_order_of d) (map_of m k) = (if List.member orders k then Some k else None)" for k
    using assms [of k] by (cases "map_of m k") auto
  then have to: "map_option (step_order_of d) (to_step_id m t) = ti_to (normal_transition orders t)"
    by (cases "ti_to t") (simp_all add: to_step_id_def normal_transition_def)
  show ?case
  proof (cases "map_of m (ti_from t)")
    case None
    with assms(2) [of "ti_from t"] Cons.IH show ?thesis by auto
  next
    case (Some i)
    have "stored_transition d (transition_row_of (u n) i m t) = normal_transition orders t"
      using to assms(1) [OF Some] by (simp add: stored_transition_def transition_row_of_def normal_transition_def)
    with Some assms(2) [of "ti_from t"] Cons.IH show ?thesis by auto
  qed
qed simp

lemma created_transitions_from:
  assumes "ids_ok d" "t \<in> set (created_transitions d wi)"
  shows "step_workflow (created e d wi c) (tr_from t) = Some (db_uuid d (db_drawn d))"
  using transition_rows_in [OF assms(2) [unfolded created_transitions_def]] created_map_step [OF assms(1)] by blast

lemma fresh_workflow: "ids_ok d \<Longrightarrow> db_uuid d (db_drawn d) \<notin> wf_id ` set (db_workflows d)"
  using fresh_id [of d "db_drawn d"] by (simp add: used_ids_def)

text \<open>Steps and transitions known before keep their readings.\<close>

lemma known_step_order:
  "step_workflow d i = Some v \<Longrightarrow> step_order_of (created e d wi c) i = step_order_of d i"
  by (auto simp: step_workflow_def step_order_of_def get_row_append)

lemma created_step_workflow:
  "step_workflow d i = Some v \<Longrightarrow> step_workflow (created e d wi c) i = Some v"
  by (auto simp: step_workflow_def get_row_append)

lemma stored_transition_created:
  assumes "transition_ok d t"
  shows "stored_transition (created e d wi c) t = stored_transition d t"
proof -
  obtain v where v: "step_workflow d (tr_from t) = Some v" using assms by (auto simp: transition_ok_def)
  with assms have "tr_to t = Some i \<Longrightarrow> step_workflow d i = Some v" for i by (auto simp: transition_ok_def)
  then show ?thesis using v by (cases "tr_to t") (simp_all add: stored_transition_def known_step_order)
qed

lemma engine_ok_transition: "engine_ok d \<Longrightarrow> t \<in> set (db_transitions d) \<Longrightarrow> transition_ok d t"
  by (simp add: engine_ok_def list_all_iff)

lemma engine_ok_step: "engine_ok d \<Longrightarrow> s \<in> set (db_steps d) \<Longrightarrow> sd_workflow_id s \<in> wf_id ` set (db_workflows d)"
  by (simp add: engine_ok_def list_all_iff)

lemma step_workflow_known:
  assumes "engine_ok d" "step_workflow d i = Some w"
  shows "w \<in> wf_id ` set (db_workflows d)"
  using assms(2) engine_ok_step [OF assms(1)] get_row_Some [of sd_id i "db_steps d"] by (auto simp: step_workflow_def)

lemma stored_workflow_old:
  assumes "engine_ok d" "w \<in> set (db_workflows d)"
  shows "stored_workflow (created e d wi c) w = stored_workflow d w"
proof -
  have ids: "ids_ok d" using assms(1) by (rule engine_ok_ids)
  have n: "wf_id w \<noteq> db_uuid d (db_drawn d)" using fresh_workflow [OF ids] assms(2) by (metis imageI)
  then have "filter (\<lambda>s. sd_workflow_id s = wf_id w) (created_steps d wi) = []"
    using step_rows_workflow by (fastforce simp: filter_empty_conv created_steps_def)
  moreover have "filter (\<lambda>t. step_workflow (created e d wi c) (tr_from t) = Some (wf_id w)) (created_transitions d wi) = []"
    using n created_transitions_from [OF ids] by (auto simp: filter_empty_conv)
  moreover have "filter (\<lambda>t. step_workflow (created e d wi c) (tr_from t) = Some (wf_id w)) (db_transitions d) =
      filter (\<lambda>t. step_workflow d (tr_from t) = Some (wf_id w)) (db_transitions d)"
    using engine_ok_transition [OF assms(1)] created_step_workflow
    by (intro filter_cong refl) (fastforce simp: transition_ok_def)
  moreover have "map (stored_transition (created e d wi c)) (filter P (db_transitions d)) = map (stored_transition d) (filter P (db_transitions d))" for P
    using stored_transition_created engine_ok_transition [OF assms(1)] by auto
  ultimately show ?thesis by (simp add: stored_workflow_def)
qed

lemma created_steps_filter:
  assumes "engine_ok d"
  shows "filter (\<lambda>s. sd_workflow_id s = db_uuid d (db_drawn d)) (db_steps (created e d wi c)) = created_steps d wi"
proof -
  have "filter (\<lambda>s. sd_workflow_id s = db_uuid d (db_drawn d)) (db_steps d) = []"
    unfolding filter_empty_conv using fresh_workflow [OF engine_ok_ids [OF assms]] engine_ok_step [OF assms] by metis
  moreover have "filter (\<lambda>s. sd_workflow_id s = db_uuid d (db_drawn d)) (created_steps d wi) = created_steps d wi"
    by (rule filter_True) (auto simp: created_steps_def dest: step_rows_workflow)
  ultimately show ?thesis by simp
qed

lemma stored_workflow_new:
  assumes "engine_ok d"
  shows "stored_workflow (created e d wi c) (created_workflow e d wi c) = normal_workflow wi"
proof -
  let ?d' = "created e d wi c" and ?w = "db_uuid d (db_drawn d)"
  have ids: "ids_ok d" using assms by (rule engine_ok_ids)
  note new = fresh_workflow [OF ids]
  note s = created_steps_filter [OF assms, of e wi c]
  have "filter (\<lambda>t. step_workflow ?d' (tr_from t) = Some ?w) (db_transitions d) = []"
    using new engine_ok_transition [OF assms] step_workflow_known [OF assms] created_step_workflow
    by (fastforce simp: filter_empty_conv transition_ok_def)
  moreover have "filter (\<lambda>t. step_workflow ?d' (tr_from t) = Some ?w) (created_transitions d wi) = created_transitions d wi"
    using created_transitions_from [OF ids] by (simp add: filter_True)
  moreover have "map (stored_transition ?d') (created_transitions d wi) = wi_transitions (normal_workflow wi)"
    unfolding created_transitions_def normal_workflow_def
    by (simp add: transition_rows_stored [where orders = "step_orders wi", OF created_map_order [OF ids] created_map_dom])
  ultimately show ?thesis
    using s by (simp add: stored_workflow_def created_workflow_def normal_workflow_def created_steps_def stored_step_rows)
qed

text \<open>
  C13. Creating a workflow whose name is new and whose rows the database accepts adds exactly one workflow,
  which is active and whose stored definition is the input in normal form, and changes the definition of no
  other workflow; in every other case nothing is stored.
\<close>

theorem create_workflow_behaviour:
  assumes "committed e d" and "transact (create_workflow e wi c) d = (res, d')"
  shows "if workflow_accepted e d wi
    then \<exists>w. res = Inr (wf_id w) \<and> db_workflows d' = db_workflows d @ [w] \<and> wf_id w \<notin> wf_id ` set (db_workflows d) \<and>
      stored_workflow d' w = normal_workflow wi \<and>
      map (stored_workflow d') (db_workflows d) = map (stored_workflow d) (db_workflows d) \<and>
      db_requests d' = db_requests d \<and> db_execs d' = db_execs d
    else res = Inl DatabaseError \<and> same_tables d d'"
proof (cases "workflow_accepted e d wi")
  case True
  have ok: "engine_ok d" "rows_ok e d" using assms(1) by (simp_all add: committed_def)
  have eq: "res = Inr (db_uuid d (db_drawn d))" "d' = created e d wi c"
    using assms(2) transact_Inr [of "create_workflow e wi c" d] create_workflow_run [OF ok(2), of wi c] True by simp_all
  moreover have "wf_id (created_workflow e d wi c) = db_uuid d (db_drawn d)" by (simp add: created_workflow_def)
  ultimately have "res = Inr (wf_id (created_workflow e d wi c)) \<and> db_workflows d' = db_workflows d @ [created_workflow e d wi c] \<and>
      wf_id (created_workflow e d wi c) \<notin> wf_id ` set (db_workflows d)"
    using fresh_workflow [OF engine_ok_ids [OF ok(1)]] by simp
  with True eq(2) stored_workflow_new [OF ok(1)] stored_workflow_old [OF ok(1)] show ?thesis by auto
next
  case False
  have "fst (create_workflow e wi c d) = Inl DatabaseError"
    using create_workflow_run [of e d wi c] assms(1) False by (metis committed_def fst_conv)
  with assms(2) transact_Inl [of "create_workflow e wi c" d] False show ?thesis by auto
qed

definition sample_input :: workflow_in where
  "sample_input =
     (let step = \<lambda>k. \<lparr>si_name = ''Check'', si_description = None, si_order = k, si_sla_hours = 24, si_role_id = None,
            si_permission_id = None, si_is_conditional = False, si_condition = None\<rparr>;
          arrow = \<lambda>a b. \<lparr>ti_from = a, ti_to = b, ti_outcome = ''APPROVED'', ti_condition = None\<rparr>
      in \<lparr>wi_name = ''Leave'', wi_description = None, wi_active = False, wi_steps = [step 1, step 2],
           wi_transitions = [arrow 1 (Some 2), arrow 2 (Some 9), arrow 7 None]\<rparr>)"

lemma create_workflow_behaviour_witness:
  "\<exists>w d'. transact (create_workflow (sample_server (\<lambda>m. True)) sample_input (uid 101)) sample_db = (Inr (wf_id w), d') \<and>
    stored_workflow d' w = normal_workflow sample_input"
proof -
  have "workflow_accepted (sample_server (\<lambda>m. True)) sample_db sample_input"
    by (simp add: workflow_accepted_def sample_input_def Let_def step_input_ok_def step_row_ok_def step_row_of_def sample_workflow_def
        int32_def in_opt_def created_transitions_def created_map_def transition_row_ok_def transition_row_of_def)
  with create_workflow_behaviour [OF sample_committed, of "\<lambda>m. True" sample_input "uid 101", OF prod.collapse [symmetric]]
  show ?thesis by (metis prod.collapse)
qed

section \<open>Deletion\<close>

lemma step_workflow_order:
  assumes "ids_ok d" "step_workflow d j = Some v" "v \<noteq> i"
  shows "step_order_of (remove_workflow i d) j = step_order_of d j"
proof -
  from assms(2) obtain s where s: "get_row sd_id j (db_steps d) = Some s" "sd_workflow_id s = v" by (auto simp: step_workflow_def)
  with assms(3) get_row_filter [OF s(1), of "\<lambda>s. sd_workflow_id s \<noteq> i"] show ?thesis
    by (simp add: step_order_of_def remove_workflow_def)
qed

lemma stored_transition_removed:
  assumes "ids_ok d" "transition_ok d t" "step_workflow d (tr_from t) = Some v" "v \<noteq> i"
  shows "stored_transition (remove_workflow i d) t = stored_transition d t"
proof (cases "tr_to t")
  case (Some j)
  with assms(2,3) have "step_workflow d j = Some v" by (simp add: transition_ok_def)
  with assms Some show ?thesis by (simp add: stored_transition_def step_workflow_order)
qed (use assms in \<open>simp add: stored_transition_def step_workflow_order\<close>)

lemma removed_transitions:
  assumes "engine_ok d" "v \<noteq> i"
  shows "filter (\<lambda>t. step_workflow (remove_workflow i d) (tr_from t) = Some v) (db_transitions (remove_workflow i d)) =
    filter (\<lambda>t. step_workflow d (tr_from t) = Some v) (db_transitions d)"
proof -
  note ids = engine_ok_ids [OF assms(1)]
  let ?K = "\<lambda>t. tr_from t \<notin> set (workflow_step_ids d i) \<and>
    \<not> (case tr_to t of None \<Rightarrow> False | Some j \<Rightarrow> List.member (workflow_step_ids d i) j)"
  have r: "step_workflow (remove_workflow i d) j = Some v \<longleftrightarrow> step_workflow d j = Some v" for j
    using assms(2) by (simp add: removed_step_workflow [OF ids])
  have k: "?K t" if "t \<in> set (db_transitions d)" "step_workflow d (tr_from t) = Some v" for t
    using engine_ok_transition [OF assms(1) that(1)] that(2) assms(2)
    by (cases "tr_to t") (simp_all add: transition_ok_def workflow_step_ids_iff [OF ids])
  have "db_transitions (remove_workflow i d) = filter ?K (db_transitions d)" by (simp add: remove_workflow_def)
  then have "filter (\<lambda>t. step_workflow (remove_workflow i d) (tr_from t) = Some v) (db_transitions (remove_workflow i d)) =
      filter (\<lambda>t. step_workflow d (tr_from t) = Some v \<and> ?K t) (db_transitions d)"
    by (simp only: r filter_filter conj_commute)
  also have "\<dots> = filter (\<lambda>t. step_workflow d (tr_from t) = Some v) (db_transitions d)"
    by (rule filter_cong [OF refl]) (use k in blast)
  finally show ?thesis .
qed

lemma stored_workflow_kept:
  assumes "engine_ok d" "wf_id w \<noteq> i"
  shows "stored_workflow (remove_workflow i d) w = stored_workflow d w"
proof -
  have "filter (\<lambda>s. sd_workflow_id s = wf_id w) (db_steps (remove_workflow i d)) = filter (\<lambda>s. sd_workflow_id s = wf_id w) (db_steps d)"
    using assms(2) by (auto simp: remove_workflow_def intro!: filter_cong)
  moreover have "stored_transition (remove_workflow i d) t = stored_transition d t"
    if "t \<in> set (filter (\<lambda>t. step_workflow d (tr_from t) = Some (wf_id w)) (db_transitions d))" for t
    using stored_transition_removed [OF engine_ok_ids [OF assms(1)] engine_ok_transition [OF assms(1)], of t "wf_id w"] that assms(2)
    by auto
  ultimately show ?thesis using removed_transitions [OF assms] by (simp add: stored_workflow_def)
qed

text \<open>
  C14. A workflow is deleted only while no request refers to it: an unknown identifier is not found, and a
  workflow that has requests, even completed ones, is a database error; either leaves every table as it
  was. A deletion removes the workflow with its steps and transitions, leaves no transition between missing
  steps, and keeps the definition of every other workflow.
\<close>

theorem delete_workflow_behaviour:
  assumes "committed e d" and "transact (delete_workflow e i) d = (res, d')"
  shows "if i \<notin> wf_id ` set (db_workflows d) then res = Inl ResourceNotFound \<and> same_tables d d'
    else if i \<in> rq_workflow_id ` set (db_requests d) then res = Inl DatabaseError \<and> same_tables d d'
    else res = Inr () \<and> db_workflows d' = filter (\<lambda>w. wf_id w \<noteq> i) (db_workflows d) \<and>
      i \<notin> sd_workflow_id ` set (db_steps d') \<and> list_all (transition_ok d') (db_transitions d') \<and>
      map (stored_workflow d') (db_workflows d') = map (stored_workflow d) (db_workflows d') \<and>
      db_requests d' = db_requests d \<and> db_execs d' = db_execs d \<and> db_history d' = db_history d"
proof -
  have ok: "engine_ok d" "rows_ok e d" using assms(1) by (simp_all add: committed_def)
  have q: "list_ex (\<lambda>r. rq_workflow_id r = i) (db_requests d) \<longleftrightarrow> i \<in> rq_workflow_id ` set (db_requests d)"
    by (auto simp: list_ex_iff)
  note run = delete_workflow_run [OF ok(2), of i, unfolded q]
  show ?thesis
  proof (cases "i \<in> wf_id ` set (db_workflows d) \<and> i \<notin> rq_workflow_id ` set (db_requests d)")
    case True
    with run assms(2) have eq: "res = Inr ()" "d' = remove_workflow i d" by (simp_all add: transact_def)
    have "engine_ok d'" using removed_committed [OF assms(1), of i] True q eq(2) by (simp add: committed_def)
    then have t: "list_all (transition_ok d') (db_transitions d')" by (simp add: engine_ok_def)
    have "map (stored_workflow d') (db_workflows d') = map (stored_workflow d) (db_workflows d')"
      using stored_workflow_kept [OF ok(1)] by (simp add: eq(2) remove_workflow_def)
    with True eq t show ?thesis by (auto simp: remove_workflow_def)
  next
    case False
    then consider "i \<notin> wf_id ` set (db_workflows d)" | "i \<in> wf_id ` set (db_workflows d)" "i \<in> rq_workflow_id ` set (db_requests d)"
      by blast
    then show ?thesis by cases (use run assms(2) in \<open>simp_all only: transact_def split: prod.splits\<close>, auto)
  qed
qed

lemma delete_workflow_behaviour_witness:
  "fst (transact (delete_workflow (sample_server (\<lambda>m. True)) (uid 1)) sample_db) = Inl DatabaseError"
  using delete_workflow_behaviour [OF sample_committed, of "\<lambda>m. True" "uid 1", OF prod.collapse [symmetric]]
  by (simp add: sample_workflow_def sample_request_def)

end
