(* ===== verification/Chain.thy ===== *)
theory Chain
  imports ServiceProperties
begin

text \<open>
  Linear workflows, the kind that both editors of the frontend create: steps 1 to n, approval leads to the
  next step or the end, rejection to the end. The engine on such a workflow refines an abstract machine
  with a position in the chain; a created workflow is linear when its input is a chain, and a request of it
  completes after n approvals.
\<close>

section \<open>The abstract machine\<close>

datatype progress = Waiting nat | Finished

fun chain_step :: "step_row list \<Rightarrow> user_row \<times> string \<Rightarrow> progress \<Rightarrow> progress" where
  "chain_step ss (u, out) Finished = Finished"
| "chain_step ss (u, out) (Waiting k) =
     (if \<not> step_allowed u (ss ! k) then Waiting k
      else if out = ''APPROVED'' \<and> Suc k < length ss then Waiting (Suc k) else Finished)"

text \<open>The number of decisions that are still possible.\<close>

fun remaining :: "step_row list \<Rightarrow> progress \<Rightarrow> nat" where
  "remaining ss Finished = 0"
| "remaining ss (Waiting k) = length ss - k"

lemma remaining_step: "remaining ss p \<le> Suc n \<Longrightarrow> is_admin u \<Longrightarrow> remaining ss (chain_step ss (u, out) p) \<le> n"
  by (cases p) (auto simp: step_allowed_def)

lemma remaining_steps: "remaining ss p \<le> length uos \<Longrightarrow> list_all (\<lambda>(u, out). is_admin u) uos \<Longrightarrow>
    remaining ss (fold (chain_step ss) uos p) = 0"
proof (induction uos arbitrary: p)
  case (Cons uo uos)
  then show ?case using remaining_step [of ss p "length uos" "fst uo" "snd uo"] by (cases uo) auto
qed simp

section \<open>Linear workflows\<close>

definition edges :: "db \<Rightarrow> uuid \<Rightarrow> string \<Rightarrow> (uuid option \<times> (string \<times> json) list option) list" where
  "edges d i out = map (\<lambda>t. (tr_to t, tr_condition t)) (filter (\<lambda>t. tr_from t = i \<and> tr_outcome t = out) (db_transitions d))"

definition linear :: "db \<Rightarrow> uuid \<Rightarrow> step_row list \<Rightarrow> bool" where
  "linear d w ss \<longleftrightarrow> ss \<noteq> [] \<and> filter (\<lambda>s. sd_workflow_id s = w) (db_steps d) = ss \<and>
     map sd_order ss = map (\<lambda>k. int (Suc k)) [0..<length ss] \<and>
     (\<forall>k < length ss.
        (if Suc k < length ss then edges d (sd_id (ss ! k)) ''APPROVED'' = [(Some (sd_id (ss ! Suc k)), None)]
         else \<forall>p \<in> set (edges d (sd_id (ss ! k)) ''APPROVED''). fst p = None) \<and>
        (\<forall>p \<in> set (edges d (sd_id (ss ! k)) ''REJECTED''). fst p = None))"

definition progress_of :: "step_row list \<Rightarrow> request_row \<Rightarrow> progress" where
  "progress_of ss r = (case rq_current_step_id r of None \<Rightarrow> Finished
     | Some i \<Rightarrow> Waiting (length (takeWhile (\<lambda>s. sd_id s \<noteq> i) ss)))"

lemma linear_edges:
  assumes "linear d w ss" "k < length ss"
  shows "Suc k < length ss \<Longrightarrow> edges d (sd_id (ss ! k)) ''APPROVED'' = [(Some (sd_id (ss ! Suc k)), None)]"
    and "\<not> Suc k < length ss \<Longrightarrow> \<forall>p \<in> set (edges d (sd_id (ss ! k)) ''APPROVED''). fst p = None"
    and "\<forall>p \<in> set (edges d (sd_id (ss ! k)) ''REJECTED''). fst p = None"
  using assms unfolding linear_def by simp_all

lemma linear_steps: "linear d w ss \<Longrightarrow> s \<in> set ss \<Longrightarrow> s \<in> set (db_steps d) \<and> sd_workflow_id s = w"
  by (auto simp: linear_def)

lemma linear_distinct: "ids_ok d \<Longrightarrow> linear d w ss \<Longrightarrow> distinct (map sd_id ss)"
  by (auto simp: linear_def ids_ok_def intro: distinct_map_filter)

lemma linear_frame: "db_steps d' = db_steps d \<Longrightarrow> db_transitions d' = db_transitions d \<Longrightarrow> linear d' w ss = linear d w ss"
  by (simp add: linear_def edges_def)

lemma position_nth: "distinct (map sd_id ss) \<Longrightarrow> k < length ss \<Longrightarrow> length (takeWhile (\<lambda>s. sd_id s \<noteq> sd_id (ss ! k)) ss) = k"
proof (induction ss arbitrary: k)
  case (Cons s ss)
  show ?case
  proof (cases k)
    case (Suc j)
    then have "sd_id (ss ! j) \<in> sd_id ` set ss" using Cons.prems(2) by auto
    then have "sd_id s \<noteq> sd_id (ss ! j)" using Cons.prems(1) by auto
    then show ?thesis using Cons Suc by simp
  qed simp
qed simp

lemma edges_next_approved:
  assumes "edges d (ex_step_id x) ''APPROVED'' = [(to, None)]"
  shows "next_of e d r x ''APPROVED'' c = (case to of None \<Rightarrow> None | Some i \<Rightarrow> get_row sd_id i (db_steps d))"
proof -
  let ?P = "\<lambda>t. tr_from t = ex_step_id x \<and> tr_outcome t = ''APPROVED''"
  obtain t where t: "filter ?P (db_transitions d) = [t]" "tr_to t = to" "tr_condition t = None"
    using assms unfolding edges_def by (auto simp: map_eq_Cons_conv)
  then have "query e tr_id ?P (db_transitions d) = [t]" unfolding query_def by simp
  with t(2,3) show ?thesis by (simp add: next_of_def resolve_next_def Let_def to_step_def)
qed

lemma edges_next_end:
  assumes "\<forall>p \<in> set (edges d (ex_step_id x) out). fst p = None"
  shows "next_of e d r x out c = None"
proof -
  let ?ts = "query e tr_id (\<lambda>t. tr_from t = ex_step_id x \<and> tr_outcome t = out) (db_transitions d)"
  have "tr_to t = None" if "first_open ?ts k = Some t" for t k
  proof -
    have "t \<in> set (db_transitions d)" "tr_from t = ex_step_id x" "tr_outcome t = out"
      using first_open_in [OF that] by auto
    then have "(tr_to t, tr_condition t) \<in> set (edges d (ex_step_id x) out)" by (auto simp: edges_def)
    with assms show ?thesis by force
  qed
  then show ?thesis
    by (auto simp: next_of_def resolve_next_def Let_def to_step_def split: option.split)
qed

section \<open>Refinement\<close>

lemma get_updated_request:
  assumes "ids_ok d" "r \<in> set (db_requests d)" "\<And>q. rq_id (f q) = rq_id q"
  shows "get_row rq_id (rq_id r) (update_row rq_id (rq_id r) f (db_requests d)) = Some (f r)"
proof -
  have "get_row rq_id (rq_id r) (db_requests d) = Some r"
    by (rule get_row_unique) (use assms in \<open>simp_all add: ids_ok_def\<close>)
  then show ?thesis by (simp add: get_row_update [of rq_id f, OF assms(3)])
qed

lemma current_position:
  assumes "engine_ok d" "linear d (rq_workflow_id r) ss" "r \<in> set (db_requests d)" "progress_of ss r = Waiting k"
  obtains x where "rq_status r = IN_PROGRESS" "open_execs d (rq_id r) = [x]" "x \<in> set (db_execs d)" "k < length ss"
    "current_step_def d r = Some (ss ! k)" "ex_step_id x = sd_id (ss ! k)"
proof -
  have st: "rq_status r = IN_PROGRESS"
    using assms(4) engine_ok_request [OF assms(1,3)]
    by (cases "rq_status r") (auto simp: request_ok_def status_ok_def progress_of_def)
  obtain x s where x: "open_execs d (rq_id r) = [x]" "x \<in> set (db_execs d)"
    and s: "get_row sd_id (ex_step_id x) (db_steps d) = Some s" "current_step_def d r = Some s" "sd_workflow_id s = rq_workflow_id r"
    by (metis in_progress_exec [OF assms(1,3) st])
  have cur: "rq_current_step_id r = Some (sd_id s)"
    using engine_ok_request [OF assms(1,3)] st x(1) get_row_Some [OF s(1)] by (simp add: request_ok_def status_ok_def)
  have "s \<in> set ss" using assms(2) s get_row_Some [OF s(1)] by (auto simp: linear_def)
  then obtain j where j: "j < length ss" "ss ! j = s" by (auto simp: in_set_conv_nth)
  have "k = j"
    using assms(4) cur position_nth [OF linear_distinct [OF engine_ok_ids [OF assms(1)] assms(2)] j(1)] j(2)
    by (simp add: progress_of_def)
  with that [OF st x] j s get_row_Some [OF s(1)] show thesis by simp
qed

lemma linear_next:
  assumes "ids_ok d" "linear d w ss" "k < length ss" "ex_step_id x = sd_id (ss ! k)" "out = ''APPROVED'' \<or> out = ''REJECTED''"
  shows "next_of e d r x out c = (if out = ''APPROVED'' \<and> Suc k < length ss then Some (ss ! Suc k) else None)"
proof (cases "out = ''APPROVED'' \<and> Suc k < length ss")
  case True
  then have "edges d (ex_step_id x) ''APPROVED'' = [(Some (sd_id (ss ! Suc k)), None)]"
    by (simp add: assms(4) linear_edges(1) [OF assms(2,3)])
  moreover have "get_row sd_id (sd_id (ss ! Suc k)) (db_steps d) = Some (ss ! Suc k)"
    by (rule get_step [OF assms(1)]) (use linear_steps [OF assms(2)] True in simp)
  ultimately show ?thesis using edges_next_approved [of d x "Some (sd_id (ss ! Suc k))"] True by simp
next
  case False
  then have "\<forall>p \<in> set (edges d (ex_step_id x) out). fst p = None"
    using linear_edges(2,3) [OF assms(2,3)] assms(5) by (cases "out = ''APPROVED''") (simp_all add: assms(4))
  from edges_next_end [OF this] False show ?thesis by simp
qed

text \<open>What one decision leaves behind.\<close>

definition simulated :: "db \<Rightarrow> request_row \<Rightarrow> step_row list \<Rightarrow> user_row \<Rightarrow> string \<Rightarrow> progress \<Rightarrow> db \<Rightarrow> bool" where
  "simulated d r ss u out p d' \<longleftrightarrow> (\<exists>r'. get_row rq_id (rq_id r) (db_requests d') = Some r' \<and>
     rq_workflow_id r' = rq_workflow_id r \<and> progress_of ss r' = p \<and> linear d' (rq_workflow_id r) ss \<and>
     request_history d' (rq_id r) =
       request_history d (rq_id r) @ (if p = Finished \<and> progress_of ss r \<noteq> Finished then final_history d r u out else []))"

lemma simulated_refused:
  assumes "same_tables d d'" "ids_ok d" "r \<in> set (db_requests d)" "linear d (rq_workflow_id r) ss" "progress_of ss r = p"
  shows "simulated d r ss u out p d'"
proof -
  have "get_row rq_id (rq_id r) (db_requests d) = Some r"
    by (rule get_row_unique) (use assms in \<open>simp_all add: ids_ok_def\<close>)
  with assms show ?thesis
    by (simp add: simulated_def same_tables_def linear_frame [of d' d] request_history_def)
qed

lemma moved_simulated:
  assumes "ids_ok d" "r \<in> set (db_requests d)" "linear d (rq_workflow_id r) ss" "j < length ss"
  shows "simulated d r ss u out (Waiting j) (moved e d r x u out c (ss ! j))"
proof -
  let ?d' = "moved e d r x u out c (ss ! j)"
  have "get_row rq_id (rq_id r) (db_requests ?d') = Some (r\<lparr>rq_current_step_id := Some (sd_id (ss ! j))\<rparr>)"
    using get_updated_request [OF assms(1,2)] by simp
  moreover have "progress_of ss (r\<lparr>rq_current_step_id := Some (sd_id (ss ! j))\<rparr>) = Waiting j"
    using position_nth [OF linear_distinct [OF assms(1,3)] assms(4)] by (simp add: progress_of_def)
  moreover have "linear ?d' (rq_workflow_id r) ss" using assms(3) by (simp add: linear_frame [of ?d' d])
  ultimately show ?thesis by (auto simp: simulated_def request_history_def)
qed

lemma finalized_simulated:
  assumes "ids_ok d" "r \<in> set (db_requests d)" "linear d (rq_workflow_id r) ss" "progress_of ss r = Waiting k"
  shows "simulated d r ss u out Finished (finalized e d r x u out c)"
proof -
  let ?d' = "finalized e d r x u out c"
  let ?r' = "r\<lparr>rq_status := COMPLETED, rq_current_step_id := None, rq_completed_at := Some (srv_now e)\<rparr>"
  have "get_row rq_id (rq_id r) (db_requests ?d') = Some ?r'"
    using get_updated_request [OF assms(1,2)] by simp
  moreover have "progress_of ss ?r' = Finished" by (simp add: progress_of_def)
  moreover have "linear ?d' (rq_workflow_id r) ss" using assms(3) by (simp add: linear_frame [of ?d' d])
  moreover have "request_history ?d' (rq_id r) = request_history d (rq_id r) @ final_history d r u out"
    by (simp add: request_history_def final_history_def)
  ultimately show ?thesis using assms(4) by (auto simp: simulated_def)
qed

lemma chain_simulation:
  assumes "committed e d" and "linear d (rq_workflow_id r) ss" and "r \<in> set (db_requests d)"
    and "out = ''APPROVED'' \<or> out = ''REJECTED''" and "comment_ok e c" and "\<forall>s \<in> set ss. deadline_ok e s"
  shows "simulated d r ss u out (chain_step ss (u, out) (progress_of ss r)) (snd (transact (process_step e (rq_id r) u out c) d))"
proof -
  have ok: "engine_ok d" "ids_ok d" "rows_ok e d" using assms(1) by (simp_all add: committed_def engine_ok_ids)
  note p = process_transact [OF assms(1,3), of u out c]
  show ?thesis
  proof (cases "progress_of ss r")
    case Finished
    then have "rq_current_step_id r = None" by (auto simp: progress_of_def split: option.splits)
    then have "process_outcome e d r u out c = Inl WorkflowEngineError" by (simp add: process_outcome_def current_step_def_def)
    with p have "same_tables d (snd (transact (process_step e (rq_id r) u out c) d))" by simp
    with Finished simulated_refused [OF _ ok(2) assms(3,2)] show ?thesis by simp
  next
    case (Waiting k)
    obtain x where st: "rq_status r = IN_PROGRESS" and x: "open_execs d (rq_id r) = [x]" "x \<in> set (db_execs d)" and k: "k < length ss"
      and s: "current_step_def d r = Some (ss ! k)" "ex_step_id x = sd_id (ss ! k)"
      by (rule current_position [OF ok(1) assms(2,3) Waiting])
    note n = linear_next [OF ok(2) assms(2) k s(2) assms(4), of e r c]
    have row: "exec_row_ok e (close_exec (user_id u) out c (srv_now e) x)"
      using ok(3) x(2) assms(4,5) by (intro decided_row_ok) (auto simp: rows_ok_def list_all_iff)
    show ?thesis
    proof (cases "step_allowed u (ss ! k)")
      case False
      then have "process_outcome e d r u out c = Inl PermissionDenied" using s(1) by (simp add: process_outcome_def)
      with p have "same_tables d (snd (transact (process_step e (rq_id r) u out c) d))" by simp
      with Waiting False simulated_refused [OF _ ok(2) assms(3,2)] show ?thesis by simp
    next
      case allowed: True
      show ?thesis
      proof (cases "out = ''APPROVED'' \<and> Suc k < length ss")
        case True
        then have "process_outcome e d r u out c = Inr (moved e d r x u out c (ss ! Suc k))"
          using n s(1) allowed x(1) row assms(6) by (simp add: process_outcome_def process_result_def)
        with p moved_simulated [OF ok(2) assms(3,2), of "Suc k" u out e x c] Waiting allowed True show ?thesis by simp
      next
        case False
        have none: "next_of e d r x out c = None" using n by (simp only: False if_False)
        have "process_outcome e d r u out c = Inr (finalized e d r x u out c)"
          using none s(1) allowed x(1) row st by (simp add: process_outcome_def process_result_def)
        with p finalized_simulated [OF ok(2) assms(3,2) Waiting, of u out e x c] Waiting allowed False show ?thesis
          by (simp only: chain_step.simps not_True_eq_False if_False if_True sum.case snd_conv)
      qed
    qed
  qed
qed

end
