(* ===== verification/ChainProperties.thy ===== *)
theory ChainProperties
  imports Chain
begin

text \<open>
  Requests of linear workflows over whole runs of decisions: refinement of the abstract machine, termination
  and completion; and the linear workflows that creation stores for a chain input.
\<close>

section \<open>Runs of decisions\<close>

text \<open>A decision: its time, the user, the outcome and the context. A refused decision leaves its
  rolled back transaction.\<close>

type_synonym ruling = "int \<times> user_row \<times> string \<times> (string \<times> json) list option"

fun decisions :: "server \<Rightarrow> uuid \<Rightarrow> ruling list \<Rightarrow> db \<Rightarrow> db" where
  "decisions e i [] d = d"
| "decisions e i ((t, u, out, c) # ds) d = decisions e i ds (snd (transact (process_step (e\<lparr>srv_now := t\<rparr>) i u out c) d))"

definition decision_ok :: "server \<Rightarrow> step_row list \<Rightarrow> ruling \<Rightarrow> bool" where
  "decision_ok e ss = (\<lambda>(t, u, out, c). (out = ''APPROVED'' \<or> out = ''REJECTED'') \<and> comment_ok e c \<and>
     list_all (deadline_ok (e\<lparr>srv_now := t\<rparr>)) ss)"

definition approval :: "server \<Rightarrow> step_row list \<Rightarrow> ruling \<Rightarrow> step_row \<Rightarrow> bool" where
  "approval e ss = (\<lambda>(t, u, out, c) s. out = ''APPROVED'' \<and> step_allowed u s \<and> comment_ok e c \<and>
     list_all (deadline_ok (e\<lparr>srv_now := t\<rparr>)) ss)"

definition by_whom :: "ruling \<Rightarrow> user_row \<times> string" where
  "by_whom = (\<lambda>(t, u, out, c). (u, out))"

lemma committed_clock [simp]: "committed (e\<lparr>srv_now := t\<rparr>) d = committed e d"
  by (simp add: committed_def rows_ok_def definitions_ok_def exec_row_ok_def [abs_def] step_row_ok_def [abs_def]
      transition_row_ok_def [abs_def] text_value_def)

lemma comment_ok_clock [simp]: "comment_ok (e\<lparr>srv_now := t\<rparr>) c = comment_ok e c"
  by (simp add: comment_ok_def text_value_def split: option.split)

lemma one_decision:
  assumes "committed e d" "linear d w ss" "get_row rq_id i (db_requests d) = Some r" "rq_workflow_id r = w"
    "decision_ok e ss (t, u, out, c)"
  defines "d' \<equiv> snd (transact (process_step (e\<lparr>srv_now := t\<rparr>) i u out c) d)"
  obtains r' where "committed e d'" "linear d' w ss" "get_row rq_id i (db_requests d') = Some r'" "rq_workflow_id r' = w"
    "progress_of ss r' = chain_step ss (u, out) (progress_of ss r)"
    "request_history d' i = request_history d i @
      (if progress_of ss r' = Finished \<and> progress_of ss r \<noteq> Finished then final_history d r u out else [])"
proof -
  have r: "r \<in> set (db_requests d)" "rq_id r = i" using get_row_Some [OF assms(3)] by auto
  have "simulated d r ss u out (chain_step ss (u, out) (progress_of ss r)) d'"
    using chain_simulation [of "e\<lparr>srv_now := t\<rparr>" d r ss out c u] assms(1,2,4,5) r
    by (simp add: decision_ok_def list_all_iff d'_def)
  moreover have "committed e d'"
    using process.committed_ok [of "e\<lparr>srv_now := t\<rparr>" d i u out c] assms(1) by (simp add: d'_def)
  ultimately show thesis using that r(2) assms(4) by (auto simp: simulated_def)
qed

lemma decisions_simulated:
  assumes "committed e d" "linear d w ss" "get_row rq_id i (db_requests d) = Some r" "rq_workflow_id r = w"
    "list_all (decision_ok e ss) ds"
  shows "committed e (decisions e i ds d) \<and> linear (decisions e i ds d) w ss \<and>
    (\<exists>r'. get_row rq_id i (db_requests (decisions e i ds d)) = Some r' \<and> rq_workflow_id r' = w \<and>
      progress_of ss r' = fold (chain_step ss) (map by_whom ds) (progress_of ss r))"
  using assms
proof (induction ds arbitrary: d r)
  case (Cons x ds)
  obtain t u out c where x: "x = (t, u, out, c)" by (cases x)
  have o: "decision_ok e ss (t, u, out, c)" using Cons.prems(5) x by simp
  show ?case
  proof (rule one_decision [OF Cons.prems(1-4) o])
    fix r'
    let ?d' = "snd (transact (process_step (e\<lparr>srv_now := t\<rparr>) i u out c) d)"
    assume d': "committed e ?d'" "linear ?d' w ss" "get_row rq_id i (db_requests ?d') = Some r'" "rq_workflow_id r' = w"
      and p: "progress_of ss r' = chain_step ss (u, out) (progress_of ss r)"
    from Cons.IH [OF d'] Cons.prems(5) p x show ?case by (simp add: by_whom_def)
  qed
qed simp

lemma finished_completed:
  assumes "committed e d" "get_row rq_id i (db_requests d) = Some r" "progress_of ss r = Finished"
  shows "rq_status r = COMPLETED \<and> open_execs d i = []"
proof -
  have r: "r \<in> set (db_requests d)" "rq_id r = i" using get_row_Some [OF assms(2)] by auto
  have "request_ok d r" using engine_ok_request [of d r] r(1) assms(1) by (simp add: committed_def)
  moreover have "rq_current_step_id r = None" using assms(3) by (auto simp: progress_of_def split: option.splits)
  ultimately show ?thesis using r(2) by (cases "rq_status r") (simp_all add: request_ok_def status_ok_def)
qed

lemma waiting_remaining:
  assumes "committed e d" "linear d w ss" "get_row rq_id i (db_requests d) = Some r" "rq_workflow_id r = w"
  shows "remaining ss (progress_of ss r) \<le> length ss" "remaining ss (progress_of ss r) = 0 \<longleftrightarrow> progress_of ss r = Finished"
proof -
  have r: "r \<in> set (db_requests d)" using get_row_Some [OF assms(3)] by auto
  have ok: "engine_ok d" using assms(1) by (simp add: committed_def)
  have "k < length ss" if "progress_of ss r = Waiting k" for k
    by (rule current_position [OF ok _ r that]) (use assms(2,4) in simp_all)
  then show "remaining ss (progress_of ss r) \<le> length ss" "remaining ss (progress_of ss r) = 0 \<longleftrightarrow> progress_of ss r = Finished"
    by (cases "progress_of ss r"; simp)+
qed

text \<open>
  C10. On a linear workflow the engine refines the chain machine: after any sequence of approvals and
  rejections by any users, refused attempts included, the position of the request is the one the abstract
  machine reaches.
\<close>

theorem chain_refinement:
  assumes "committed e d" and "linear d w ss" and "get_row rq_id i (db_requests d) = Some r" and "rq_workflow_id r = w"
    and "list_all (decision_ok e ss) ds"
  shows "\<exists>r'. get_row rq_id i (db_requests (decisions e i ds d)) = Some r' \<and>
    progress_of ss r' = fold (chain_step ss) (map by_whom ds) (progress_of ss r)"
  using decisions_simulated [OF assms] by blast

text \<open>The sample workflow is linear; an administrator decides.\<close>

lemma sample_linear: "linear sample_db (uid 1) [review_step, payment_step]"
  by (auto simp: linear_def edges_def review_step_def payment_step_def sample_step_def sample_transition_def less_Suc_eq)

definition admin_user :: user_row where
  "admin_user = sample_user [\<lparr>role_row_id = uid 103, role_row_name = ''Admin'', role_permissions = []\<rparr>]"

lemma admin_user_admin: "is_admin admin_user"
  by (simp add: is_admin_def admin_user_def sample_user_def) code_simp

definition sample_decisions :: "ruling list" where
  "sample_decisions = [(2000, admin_user, ''APPROVED'', None), (3000, admin_user, ''APPROVED'', None)]"

lemma sample_decisions_ok: "list_all (decision_ok (sample_server f) [review_step, payment_step]) sample_decisions"
  by (simp add: sample_decisions_def decision_ok_def comment_ok_def deadline_ok_def step_deadline_def review_step_def payment_step_def
      sample_step_def)

lemma sample_request_row: "get_row rq_id (uid 5) (db_requests sample_db) = Some (sample_request 5 2)"
  by (simp add: get_row_def sample_request_def)

lemma sample_request_workflow: "rq_workflow_id (sample_request 5 2) = uid 1"
  by (simp add: sample_request_def)

lemma chain_refinement_witness:
  "\<exists>r'. get_row rq_id (uid 5) (db_requests (decisions (sample_server (\<lambda>m. True)) (uid 5) sample_decisions sample_db)) = Some r' \<and>
    progress_of [review_step, payment_step] r' = Finished"
proof -
  have "progress_of [review_step, payment_step] (sample_request 5 2) = Waiting 0"
    by (simp add: progress_of_def sample_request_def review_step_def sample_step_def)
  then have "fold (chain_step [review_step, payment_step]) (map by_whom sample_decisions)
      (progress_of [review_step, payment_step] (sample_request 5 2)) = Finished"
    by (simp add: sample_decisions_def by_whom_def step_allowed_def admin_user_admin)
  with chain_refinement [OF sample_committed sample_linear sample_request_row sample_request_workflow sample_decisions_ok, of "\<lambda>m. True"]
  show ?thesis by simp
qed

text \<open>
  C11. A request of a linear workflow of n steps ends: after n decisions of administrators, whether
  they approve or reject, it is completed and has no open execution.
\<close>

theorem chain_terminates:
  assumes "committed e d" and "linear d w ss" and "get_row rq_id i (db_requests d) = Some r" and "rq_workflow_id r = w"
    and "list_all (decision_ok e ss) ds" and "list_all (\<lambda>x. is_admin (fst (by_whom x))) ds" and "length ss \<le> length ds"
  shows "\<exists>r'. get_row rq_id i (db_requests (decisions e i ds d)) = Some r' \<and> rq_status r' = COMPLETED \<and>
    open_execs (decisions e i ds d) i = []"
proof -
  obtain r' where d: "committed e (decisions e i ds d)" "linear (decisions e i ds d) w ss"
    and r': "get_row rq_id i (db_requests (decisions e i ds d)) = Some r'" "rq_workflow_id r' = w"
      "progress_of ss r' = fold (chain_step ss) (map by_whom ds) (progress_of ss r)"
    using decisions_simulated [OF assms(1-5)] by blast
  have "list_all (\<lambda>(u, out). is_admin u) (map by_whom ds)" using assms(6) by (simp add: list.pred_map comp_def case_prod_beta')
  then have "remaining ss (progress_of ss r') = 0"
    using remaining_steps [of ss "progress_of ss r" "map by_whom ds"] waiting_remaining(1) [OF assms(1-4)] assms(7) r'(3) by simp
  then have "progress_of ss r' = Finished" using waiting_remaining(2) [OF d r'(1,2)] by simp
  with finished_completed [OF d(1) r'(1)] r'(1) show ?thesis by blast
qed

lemma chain_terminates_witness:
  "open_execs (decisions (sample_server (\<lambda>m. True)) (uid 5) sample_decisions sample_db) (uid 5) = []"
proof -
  have "list_all (\<lambda>x. is_admin (fst (by_whom x))) sample_decisions" "length sample_decisions = 2"
    by (simp_all add: sample_decisions_def by_whom_def admin_user_admin)
  with chain_terminates [OF sample_committed sample_linear sample_request_row sample_request_workflow sample_decisions_ok, of "\<lambda>m. True"]
  show ?thesis by auto
qed

section \<open>Approvals\<close>

lemma approvals_complete:
  assumes "committed e d" "linear d w ss" "get_row rq_id i (db_requests d) = Some r" "rq_workflow_id r = w"
    "progress_of ss r = Waiting k" "list_all2 (approval e ss) ds (drop k ss)"
  shows "\<exists>r'. get_row rq_id i (db_requests (decisions e i ds d)) = Some r' \<and> rq_status r' = COMPLETED \<and>
    map (\<lambda>h. (hi_from h, hi_to h)) (request_history (decisions e i ds d) i) =
      map (\<lambda>h. (hi_from h, hi_to h)) (request_history d i) @ [(IN_PROGRESS, APPROVED), (APPROVED, COMPLETED)]"
  using assms
proof (induction ds arbitrary: d r k)
  case Nil
  have "k < length ss"
    by (rule current_position [OF _ _ _ Nil(5), of d]) (use Nil get_row_Some [OF Nil(3)] in \<open>simp_all add: committed_def\<close>)
  with Nil(6) show ?case by simp
next
  case (Cons x ds)
  obtain t u out c where x: "x = (t, u, out, c)" by (cases x)
  have r: "r \<in> set (db_requests d)" "rq_id r = i" using get_row_Some [OF Cons.prems(3)] by auto
  have k: "k < length ss" "rq_status r = IN_PROGRESS"
    by (rule current_position [OF _ _ r(1) Cons.prems(5)], (use Cons.prems in \<open>simp_all add: committed_def\<close>))+
  then have "drop k ss = ss ! k # drop (Suc k) ss" by (simp add: Cons_nth_drop_Suc)
  with Cons.prems(6) x have a: "approval e ss (t, u, out, c) (ss ! k)" "list_all2 (approval e ss) ds (drop (Suc k) ss)" by auto
  then have o: "decision_ok e ss (t, u, out, c)" "out = ''APPROVED''" "step_allowed u (ss ! k)"
    by (auto simp: approval_def decision_ok_def)
  show ?case
  proof (rule one_decision [OF Cons.prems(1-4) o(1)])
    fix r'
    let ?d' = "snd (transact (process_step (e\<lparr>srv_now := t\<rparr>) i u out c) d)"
    assume d': "committed e ?d'" "linear ?d' w ss" "get_row rq_id i (db_requests ?d') = Some r'" "rq_workflow_id r' = w"
      and p: "progress_of ss r' = chain_step ss (u, out) (progress_of ss r)"
      and h: "request_history ?d' i = request_history d i @
        (if progress_of ss r' = Finished \<and> progress_of ss r \<noteq> Finished then final_history d r u out else [])"
    show ?case
    proof (cases "Suc k < length ss")
      case True
      then have "progress_of ss r' = Waiting (Suc k)" using p o Cons.prems(5) by simp
      with Cons.IH [OF d' _ a(2)] h x show ?thesis by simp
    next
      case False
      then have f: "progress_of ss r' = Finished" using p o Cons.prems(5) by simp
      have "ds = []" using a(2) False by simp
      with finished_completed [OF d'(1,3) f] d'(3) h f x k(2) o(2) Cons.prems(5) show ?thesis
        by (simp add: final_history_def final_target_def)
    qed
  qed
qed

lemma opening_position:
  assumes "linear d w ss" "opening_step e d w = Some s"
  shows "s = ss ! 0" "0 < length ss"
proof -
  have s: "s \<in> set ss" "sd_order s = 1"
    using query_first_Some [OF assms(2) [unfolded opening_step_def]] assms(1) by (auto simp: linear_def)
  then obtain j where j: "j < length ss" "ss ! j = s" by (auto simp: in_set_conv_nth)
  have "map sd_order ss ! j = int (Suc j)" using assms(1) j(1) by (simp add: linear_def del: of_nat_Suc)
  with j s(2) have "j = 0" by simp
  with j show "s = ss ! 0" "0 < length ss" by simp_all
qed

lemma started_approvals:
  assumes "committed e d" and "linear d w ss" and "transact (start_workflow e w v data) d = (Inr i, d1)"
    and "list_all2 (approval e ss) ds ss"
  shows "\<exists>r'. get_row rq_id i (db_requests (decisions e i ds d1)) = Some r' \<and> rq_status r' = COMPLETED \<and>
    map (\<lambda>h. (hi_from h, hi_to h)) (request_history (decisions e i ds d1) i) =
      [(CREATED, IN_PROGRESS), (IN_PROGRESS, APPROVED), (APPROVED, COMPLETED)]"
proof -
  have ok: "engine_ok d" "ids_ok d" using assms(1) by (simp_all add: committed_def engine_ok_ids)
  have run: "start_workflow e w v data d = (Inr i, d1)"
    using start.success_commits [of e w v data d] assms(3) by (cases "start_workflow e w v data d") simp
  obtain wfl :: workflow_row and s where s: "opening_step e d w = Some s" and i: "i = db_uuid d (db_drawn d)"
    and d1: "d1 = (started e d w v data s)\<lparr>db_outbox := db_outbox d @ [NewAssignment (sd_id s) i (wf_name wfl) (sd_name s) (step_deadline e s)]\<rparr>"
    by (rule start_workflow_Inr [OF assms(1) run]) blast
  let ?r = "started_request e d w v data s"
  note new = fresh_request [OF ok(2)]
  have c: "committed e d1" using start.committed_ok [of e d w v data] assms(1,3) by simp
  have l: "linear d1 w ss" using assms(2) linear_frame [of d1 d w ss] by (simp add: d1)
  have "get_row rq_id i (db_requests d) = None" using new by (simp add: get_row_None i)
  then have r: "get_row rq_id i (db_requests d1) = Some ?r"
    by (simp add: d1 get_row_append) (simp add: get_row_def i)
  have p: "progress_of ss ?r = Waiting 0"
    using position_nth [OF linear_distinct [OF ok(2) assms(2)] opening_position(2) [OF assms(2) s]] opening_position(1) [OF assms(2) s]
    by (simp add: progress_of_def)
  have h: "map (\<lambda>h. (hi_from h, hi_to h)) (request_history d1 i) = [(CREATED, IN_PROGRESS)]"
    using no_rows_of_new [OF ok(1) new] by (simp add: d1 i request_history_def)
  from approvals_complete [OF c l r _ p, of ds] assms(4) h show ?thesis by simp
qed

text \<open>
  C12. A request of a linear workflow completes: once it was started, one approval per step, each by a user
  whom its step allows, completes it, with the history CREATED, IN_PROGRESS, APPROVED, COMPLETED.
\<close>

theorem chain_completes:
  assumes "committed e d" and "linear d w ss" and "transact (start_workflow e w v data) d = (Inr i, d1)"
    and "list_all2 (approval e ss) ds ss"
  shows "\<exists>r'. get_row rq_id i (db_requests (decisions e i ds d1)) = Some r' \<and> rq_status r' = COMPLETED \<and>
    map (\<lambda>h. (hi_from h, hi_to h)) (request_history (decisions e i ds d1) i) =
      [(CREATED, IN_PROGRESS), (IN_PROGRESS, APPROVED), (APPROVED, COMPLETED)]"
  by (rule started_approvals [OF assms])

lemma chain_completes_witness:
  "\<exists>i d1 r'. transact (start_workflow (sample_server (\<lambda>m. True)) (uid 1) (uid 101) []) sample_db = (Inr i, d1) \<and>
    get_row rq_id i (db_requests (decisions (sample_server (\<lambda>m. True)) i sample_decisions d1)) = Some r' \<and> rq_status r' = COMPLETED"
proof -
  let ?e = "sample_server (\<lambda>m. True)"
  have "active_workflow ?e sample_db (uid 1) = Some sample_workflow"
    by (simp add: active_workflow_def query_first_def query_def sample_workflow_def)
  moreover have "opening_step ?e sample_db (uid 1) = Some review_step"
    by (simp add: opening_step_def query_first_def query_def review_step_def payment_step_def sample_step_def)
  ultimately have "fst (start_workflow ?e (uid 1) (uid 101) [] sample_db) = Inr (uid 20)"
    by (simp add: start_fst [OF sample_committed] start_failure_def deadline_ok_def step_deadline_def review_step_def sample_step_def
        del: One_nat_def)
  then obtain d1 where s: "transact (start_workflow ?e (uid 1) (uid 101) []) sample_db = (Inr (uid 20), d1)"
    by (cases "start_workflow ?e (uid 1) (uid 101) [] sample_db") (simp add: transact_def)
  have "list_all2 (approval ?e [review_step, payment_step]) sample_decisions [review_step, payment_step]"
    using sample_decisions_ok [of "\<lambda>m. True"] by (simp add: sample_decisions_def approval_def decision_ok_def step_allowed_def admin_user_admin)
  from chain_completes [OF sample_committed sample_linear s this] s show ?thesis by blast
qed

section \<open>Creating a linear workflow\<close>

definition input_edges :: "workflow_in \<Rightarrow> int \<Rightarrow> string \<Rightarrow> (int option \<times> (string \<times> json) list option) list" where
  "input_edges wi k out = map (\<lambda>t. (ti_to t, ti_condition t)) (filter (\<lambda>t. ti_from t = k \<and> ti_outcome t = out) (wi_transitions wi))"

definition chain_input :: "workflow_in \<Rightarrow> bool" where
  "chain_input wi \<longleftrightarrow> wi_steps wi \<noteq> [] \<and> step_orders wi = map (\<lambda>k. int (Suc k)) [0..<length (wi_steps wi)] \<and>
     (\<forall>k < length (wi_steps wi).
        (if Suc k < length (wi_steps wi) then input_edges wi (int (Suc k)) ''APPROVED'' = [(Some (int (Suc (Suc k))), None)]
         else \<forall>p \<in> set (input_edges wi (int (Suc k)) ''APPROVED''). fst p = None) \<and>
        (\<forall>p \<in> set (input_edges wi (int (Suc k)) ''REJECTED''). fst p = None))"

lemma transition_rows_edges:
  assumes "\<And>k'. map_of m k' = Some i \<longleftrightarrow> k' = k"
  shows "map (\<lambda>t. (tr_to t, tr_condition t)) (filter (\<lambda>t. tr_from t = i \<and> tr_outcome t = out) (transition_rows u n m ts)) =
    map (\<lambda>t. (to_step_id m t, ti_condition t)) (filter (\<lambda>t. ti_from t = k \<and> ti_outcome t = out) ts)"
proof (induction ts arbitrary: n)
  case (Cons t ts)
  then show ?case
    using assms [of "ti_from t"] by (cases "map_of m (ti_from t)") (auto simp: transition_row_of_def)
qed simp

lemma created_orders: "map sd_order (created_steps d wi) = step_orders wi"
  unfolding created_steps_def step_orders_def by (rule nth_equalityI) (simp_all add: step_rows_nth)

lemma created_map_nth:
  assumes "ids_ok d" "step_orders wi = map (\<lambda>k. int (Suc k)) [0..<length (wi_steps wi)]" "k < length (wi_steps wi)"
  shows "map_of (created_map d wi) k' = Some (sd_id (created_steps d wi ! k)) \<longleftrightarrow> k' = int (Suc k)"
proof -
  have "List.member (step_orders wi) (int (Suc k))" using assms(2,3) by auto
  then obtain i where i: "map_of (created_map d wi) (int (Suc k)) = Some i" using created_map_dom [of "int (Suc k)" d wi] by auto
  from steps_map_entry [OF i [unfolded created_map_def]]
  obtain s where s: "s \<in> set (created_steps d wi)" "sd_id s = i" "sd_order s = int (Suc k)" by (auto simp: created_steps_def)
  then obtain j where j: "j < length (wi_steps wi)" "created_steps d wi ! j = s"
    by (auto simp: in_set_conv_nth created_steps_def)
  have "map sd_order (created_steps d wi) ! j = int (Suc j)"
    using created_orders [of d wi] assms(2) j(1) by simp
  with j s have "j = k" by (simp add: created_steps_def)
  with i j s have e: "map_of (created_map d wi) (int (Suc k)) = Some (sd_id (created_steps d wi ! k))" by simp
  have "k' = int (Suc k)" if "map_of (created_map d wi) k' = Some (sd_id (created_steps d wi ! k))"
    using created_map_order [OF assms(1) that] created_map_order [OF assms(1) e] by metis
  with e show ?thesis by auto
qed

lemma created_edges:
  assumes "engine_ok d" "step_orders wi = map (\<lambda>k. int (Suc k)) [0..<length (wi_steps wi)]" "k < length (wi_steps wi)"
  shows "edges (created e d wi c) (sd_id (created_steps d wi ! k)) out =
    map (\<lambda>(to, cond). (Option.bind to (map_of (created_map d wi)), cond)) (input_edges wi (int (Suc k)) out)"
proof -
  let ?i = "sd_id (created_steps d wi ! k)"
  have ids: "ids_ok d" using assms(1) by (rule engine_ok_ids)
  have "?i \<notin> used_ids d"
    using fresh_id [OF ids] assms(3) by (simp add: created_steps_def step_rows_nth)
  moreover have "tr_from t \<in> used_ids d" if "t \<in> set (db_transitions d)" for t
  proof -
    have "transition_ok d t" by (rule engine_ok_transition [OF assms(1) that])
    then obtain s where "get_row sd_id (tr_from t) (db_steps d) = Some s"
      by (auto simp: transition_ok_def step_workflow_def)
    from get_row_Some [OF this] have "tr_from t \<in> sd_id ` set (db_steps d)" by (metis imageI)
    then show ?thesis by (simp add: used_ids_def)
  qed
  ultimately have "filter (\<lambda>t. tr_from t = ?i \<and> tr_outcome t = out) (db_transitions d) = []"
    unfolding filter_empty_conv by metis
  then have "edges (created e d wi c) ?i out =
      map (\<lambda>t. (to_step_id (created_map d wi) t, ti_condition t)) (filter (\<lambda>t. ti_from t = int (Suc k) \<and> ti_outcome t = out) (wi_transitions wi))"
    using transition_rows_edges [OF created_map_nth [OF ids assms(2,3)]]
    by (simp add: edges_def created_transitions_def)
  also have "\<dots> = map (\<lambda>(to, cond). (Option.bind to (map_of (created_map d wi)), cond)) (input_edges wi (int (Suc k)) out)"
    by (auto simp: input_edges_def to_step_id_def bind_split split: option.split)
  finally show ?thesis .
qed

lemma created_linear:
  assumes "engine_ok d" "chain_input wi"
  shows "linear (created e d wi c) (db_uuid d (db_drawn d)) (created_steps d wi)"
proof -
  have ids: "ids_ok d" using assms(1) by (rule engine_ok_ids)
  let ?n = "length (wi_steps wi)"
  have o: "step_orders wi = map (\<lambda>k. int (Suc k)) [0..<?n]" and ne: "wi_steps wi \<noteq> []" using assms(2) by (simp_all add: chain_input_def)
  have len: "length (created_steps d wi) = ?n" by (simp add: created_steps_def)
  have e: "if Suc k < ?n then edges (created e d wi c) (sd_id (created_steps d wi ! k)) ''APPROVED'' = [(Some (sd_id (created_steps d wi ! Suc k)), None)]
      else \<forall>p \<in> set (edges (created e d wi c) (sd_id (created_steps d wi ! k)) ''APPROVED''). fst p = None"
    and f: "\<forall>p \<in> set (edges (created e d wi c) (sd_id (created_steps d wi ! k)) ''REJECTED''). fst p = None" if "k < ?n" for k
  proof -
    note ce = created_edges [OF assms(1) o that, of e c]
    have i: "if Suc k < ?n then input_edges wi (int (Suc k)) ''APPROVED'' = [(Some (int (Suc (Suc k))), None)]
        else \<forall>p \<in> set (input_edges wi (int (Suc k)) ''APPROVED''). fst p = None"
      "\<forall>p \<in> set (input_edges wi (int (Suc k)) ''REJECTED''). fst p = None"
      using assms(2) that unfolding chain_input_def by blast+
    show "\<forall>p \<in> set (edges (created e d wi c) (sd_id (created_steps d wi ! k)) ''REJECTED''). fst p = None"
      using i(2) unfolding ce by auto
    show "if Suc k < ?n then edges (created e d wi c) (sd_id (created_steps d wi ! k)) ''APPROVED'' = [(Some (sd_id (created_steps d wi ! Suc k)), None)]
      else \<forall>p \<in> set (edges (created e d wi c) (sd_id (created_steps d wi ! k)) ''APPROVED''). fst p = None"
    proof (cases "Suc k < ?n")
      case True
      then have "map_of (created_map d wi) (int (Suc (Suc k))) = Some (sd_id (created_steps d wi ! Suc k))"
        by (simp only: created_map_nth [OF ids o])
      with True i(1) show ?thesis unfolding ce by simp
    next
      case False
      with i(1) show ?thesis unfolding ce by auto
    qed
  qed
  show ?thesis
    unfolding linear_def len
    using e f ne o created_orders [of d wi] created_steps_filter [OF assms(1), of e wi c] by (simp add: created_steps_def [symmetric]) (metis len length_0_conv)
qed

end
