(* ===== verification/Platform.thy ===== *)
theory Platform
  imports EndpointProperties ChainProperties
begin

text \<open>
  The backend as a whole: every state that the endpoints and the periodic task reach from an empty
  database, whatever the order of the calls, their arguments, the clock and the broker, and what no call
  can undo.
\<close>

section \<open>Calls and reachable states\<close>

text \<open>A call runs in a server of the same site: the clock, the order of query results and the
  broker may differ, the kind of database and the roles and permissions may not.\<close>

definition same_site :: "server \<Rightarrow> server \<Rightarrow> bool" where
  "same_site e e' \<longleftrightarrow> srv_strict e' = srv_strict e \<and> srv_role_ids e' = srv_role_ids e \<and> srv_permission_ids e' = srv_permission_ids e \<and>
     srv_text e' = srv_text e"

datatype api_call =
    CreateWorkflow codec user_row json
  | DeleteWorkflow user_row uuid
  | StartRequest codec user_row json
  | ProcessStep user_row uuid json
  | MakeDecision user_row uuid json
  | ScanSlas

fun run_call :: "server \<Rightarrow> api_call \<Rightarrow> db \<Rightarrow> db" where
  "run_call e (CreateWorkflow cd u body) d = snd (post_workflow e cd u body d)"
| "run_call e (DeleteWorkflow u i) d = snd (remove_workflow_endpoint e u i d)"
| "run_call e (StartRequest cd u body) d = snd (post_request e cd u body d)"
| "run_call e (ProcessStep u i body) d = snd (process_request_step e u i body d)"
| "run_call e (MakeDecision u i body) d = snd (make_decision e u i body d)"
| "run_call e ScanSlas d = snd (check_all_slas e d)"

text \<open>Who calls: the authenticated user, or nobody for the periodic task.\<close>

fun caller :: "api_call \<Rightarrow> user_row option" where
  "caller (CreateWorkflow cd u body) = Some u"
| "caller (DeleteWorkflow u i) = Some u"
| "caller (StartRequest cd u body) = Some u"
| "caller (ProcessStep u i body) = Some u"
| "caller (MakeDecision u i body) = Some u"
| "caller ScanSlas = None"

definition empty_db :: "(nat \<Rightarrow> uuid) \<Rightarrow> db" where
  "empty_db ids = \<lparr>db_uuid = ids, db_drawn = 0, db_workflows = [], db_steps = [], db_transitions = [], db_requests = [],
     db_execs = [], db_history = [], db_audit = [], db_escalations = [], db_outbox = []\<rparr>"

inductive platform :: "server \<Rightarrow> db \<Rightarrow> bool" for e where
  start: "inj ids \<Longrightarrow> platform e (empty_db ids)"
| call: "platform e d \<Longrightarrow> same_site e e' \<Longrightarrow> platform e (run_call e' c d)"

inductive_cases platformE: "platform e d"

text \<open>What is called after a state.\<close>

inductive later :: "server \<Rightarrow> db \<Rightarrow> db \<Rightarrow> bool" for e d where
  now: "later e d d"
| call: "later e d d' \<Longrightarrow> same_site e e' \<Longrightarrow> later e d (run_call e' c d')"

section \<open>A call is a transaction of the engine, the service or the monitor\<close>

lemma respond_snd: "snd (respond m out d) = snd (transact m d)"
  by (simp add: respond_def split: prod.splits sum.splits)

lemma rolled_back_same [simp]: "rolled_back d d = d"
  by (simp add: rolled_back_def)

lemma transact_check_role:
  "transact (and_do (check_role u n) f) d = (case fst (check_role u n d) of Inl x \<Rightarrow> (Inl x, d) | Inr v \<Rightarrow> transact (f v) d)"
proof (cases "check_role u n d")
  case (Pair r d')
  then have "d' = d" using check_role_pure [of u n d] by simp
  with Pair show ?thesis by (cases r) (simp_all add: transact_def)
qed

text \<open>The tables after a call: those of the state itself, or those after one of five transactions, of which
  three carry the caller.\<close>

inductive transaction_of :: "server \<Rightarrow> user_row option \<Rightarrow> db \<Rightarrow> db \<Rightarrow> bool" for e who d where
  none: "transaction_of e who d d"
| create: "who = Some u \<Longrightarrow> has_role u ''admin'' \<or> has_role u ''superadmin'' \<Longrightarrow>
    transaction_of e who d (snd (transact (create_workflow e wi (user_id u)) d))"
| delete: "transaction_of e who d (snd (transact (delete_workflow e i) d))"
| start: "who = Some u \<Longrightarrow> transaction_of e who d (snd (transact (start_workflow e w (user_id u) data) d))"
| process: "who = Some u \<Longrightarrow> transaction_of e who d (snd (transact (process_step e i u out c) d))"
| scan: "transaction_of e who d (snd (check_all_slas e d))"

lemma run_call_transaction: "transaction_of e (caller c) d (run_call e c d)"
proof (cases c)
  case (CreateWorkflow cd u body)
  then show ?thesis
    by (auto simp: post_workflow_def respond_snd transact_check_role check_role_admin intro: transaction_of.intros split: option.split)
next
  case (DeleteWorkflow u i)
  then show ?thesis
    by (auto simp: remove_workflow_endpoint_def respond_snd transact_check_role intro: transaction_of.intros split: sum.split)
next
  case (StartRequest cd u body)
  then show ?thesis
    by (auto simp: post_request_def respond_snd intro: transaction_of.intros split: option.split prod.split)
next
  case (ProcessStep u i body)
  then show ?thesis
    by (auto simp: process_request_step_def respond_snd intro: transaction_of.intros split: option.split prod.split)
next
  case (MakeDecision u i body)
  show ?thesis
  proof (cases body)
    case (JObj payload)
    have raise: "snd (transact (raise_op f) d) = d" for f :: failure by (simp add: transact_def)
    have "snd (make_decision e u i body d) = snd (transact (decide e i u payload) d)"
      by (simp add: JObj make_decision_def split: prod.splits sum.splits)
    moreover have "transaction_of e (Some u) d (snd (transact (decide e i u payload) d))"
      by (auto simp: decide_def Let_def raise intro: transaction_of.intros split: json.split)
    ultimately show ?thesis by (simp add: MakeDecision)
  qed (simp_all add: MakeDecision make_decision_def transaction_of.none)
next
  case ScanSlas
  then show ?thesis by (simp add: transaction_of.scan)
qed

section \<open>Invariant\<close>

lemma committed_site: "same_site e e' \<Longrightarrow> committed e' d = committed e d"
  by (simp add: committed_def rows_ok_def definitions_ok_def exec_row_ok_def [abs_def] step_row_ok_def [abs_def]
      transition_row_ok_def [abs_def] text_value_def same_site_def)

lemma committed_empty: "inj ids \<Longrightarrow> committed e (empty_db ids)"
  by (simp add: committed_def engine_ok_def ids_ok_def used_ids_def rows_ok_def definitions_ok_def empty_db_def)

lemma scan_committed: "committed e d \<Longrightarrow> committed e (snd (check_all_slas e d))"
  using escalated_committed [of e d d "overdue_steps e d"]
    committed_rolled_back [of e d "fold (escalated e d) (overdue_steps e d) d"]
  by (simp add: check_run Let_def extends_def fold_escalated_outbox)

lemma transaction_of_committed: "transaction_of e who d d' \<Longrightarrow> committed e d \<Longrightarrow> committed e d'"
  by (induction rule: transaction_of.induct)
    (simp_all add: create.committed_ok delete.committed_ok start.committed_ok process.committed_ok scan_committed)

lemma platform_committed: "platform e d \<Longrightarrow> committed e d"
proof (induction rule: platform.induct)
  case (start ids)
  then show ?case by (rule committed_empty)
next
  case (call d e' c)
  have "committed e' d" using call.IH by (simp add: committed_site [OF call.hyps(2)])
  then have "committed e' (run_call e' c d)" by (rule transaction_of_committed [OF run_call_transaction])
  then show ?case by (simp add: committed_site [OF call.hyps(2)])
qed

section \<open>A concrete run\<close>

text \<open>How pydantic reads numbers, booleans and identifiers on the values used here.\<close>

definition sample_codec :: codec where
  "sample_codec = \<lparr>cd_int = (\<lambda>v. case v of JNum q \<Rightarrow> if of_int \<lfloor>q\<rfloor> = q then Some \<lfloor>q\<rfloor> else None | _ \<Rightarrow> None),
     cd_bool = (\<lambda>v. case v of JBool b \<Rightarrow> Some b | _ \<Rightarrow> None), cd_uuid = (\<lambda>v. case v of JStr s \<Rightarrow> Some s | _ \<Rightarrow> None)\<rparr>"

definition sample_body :: json where
  "sample_body = JObj [(''name'', JStr ''Leave''), (''steps'', JArr [JObj [(''name'', JStr ''Check''), (''step_order'', JNum 1)]])]"

definition leave_step :: step_in where
  "leave_step = \<lparr>si_name = ''Check'', si_description = None, si_order = 1, si_sla_hours = 24, si_role_id = None,
     si_permission_id = None, si_is_conditional = False, si_condition = None\<rparr>"

definition leave_input :: workflow_in where
  "leave_input = \<lparr>wi_name = ''Leave'', wi_description = None, wi_active = True, wi_steps = [leave_step], wi_transitions = []\<rparr>"

lemma sample_body_read: "WorkflowCreate sample_codec sample_body = Some leave_input"
  by (simp add: WorkflowCreate_def WorkflowStepCreate_def sample_body_def sample_codec_def leave_input_def leave_step_def required_def
      optional_def defaulted_def bounded_text_def at_least_def read_list_def)

lemma created_call:
  assumes "committed e d" "WorkflowCreate cd body = Some wi" "is_admin u" "workflow_accepted e d wi"
  shows "run_call e (CreateWorkflow cd u body) d = created e d wi (user_id u)"
proof -
  have "rows_ok e d" using assms(1) by (simp add: committed_def)
  from create_workflow_run [OF this, of wi "user_id u"] assms(2-4) show ?thesis
    by (simp add: post_workflow_def respond_snd transact_check_role check_role_admin is_admin_role transact_Inr)
qed

definition leave_db :: "user_row \<Rightarrow> db" where
  "leave_db u = created (sample_server (\<lambda>m. True)) (empty_db uid) leave_input (user_id u)"

lemma leave_created:
  assumes "is_admin u"
  shows "run_call (sample_server (\<lambda>m. True)) (CreateWorkflow sample_codec u sample_body) (empty_db uid) = leave_db u"
proof -
  let ?e = "sample_server (\<lambda>m. True)"
  have p: "platform ?e (empty_db uid)" by (rule platform.start [OF inj_uid])
  have "workflow_accepted ?e (empty_db uid) leave_input"
    by (simp add: workflow_accepted_def leave_input_def leave_step_def empty_db_def step_input_ok_def step_row_ok_def step_row_of_def
        int32_def in_opt_def created_transitions_def)
  from created_call [OF platform_committed [OF p] sample_body_read assms this] show ?thesis by (simp only: leave_db_def)
qed

lemma leave_platform: "is_admin u \<Longrightarrow> platform (sample_server (\<lambda>m. True)) (leave_db u)"
  using platform.call [OF platform.start [OF inj_uid], of "sample_server (\<lambda>m. True)" "sample_server (\<lambda>m. True)"
    "CreateWorkflow sample_codec u sample_body"]
  by (simp add: leave_created same_site_def del: run_call.simps)

definition leave_request :: "user_row \<Rightarrow> api_call" where
  "leave_request u = StartRequest sample_codec u (JObj [(''workflow_id'', JStr (uid 0))])"

definition leave_started :: "user_row \<Rightarrow> db" where
  "leave_started u = run_call (sample_server (\<lambda>m. True)) (leave_request u) (leave_db u)"

lemma leave_later: "later (sample_server (\<lambda>m. True)) (leave_db u) (leave_started u)"
  using later.call [OF later.now, of "sample_server (\<lambda>m. True)" "sample_server (\<lambda>m. True)" "leave_db u" "leave_request u"]
  by (simp add: leave_started_def same_site_def)

lemma leave_tables:
  "db_requests (leave_db u) = []" "db_execs (leave_db u) = []" "db_transitions (leave_db u) = []"
  "db_workflows (leave_db u) = [created_workflow (sample_server (\<lambda>m. True)) (empty_db uid) leave_input (user_id u)]"
  "db_steps (leave_db u) = [step_row_of (uid 0) (uid 1) leave_step]" "db_drawn (leave_db u) = 2" "db_uuid (leave_db u) = uid"
  by (simp_all add: leave_db_def empty_db_def created_steps_def leave_input_def created_transitions_def)

text \<open>The state with the started request, but for the messages.\<close>

lemma leave_started_state:
  assumes "is_admin u"
  shows "\<exists>ms. leave_started u =
    (started (sample_server (\<lambda>m. True)) (leave_db u) (uid 0) (user_id u) [] (step_row_of (uid 0) (uid 1) leave_step))\<lparr>db_outbox := ms\<rparr>"
proof -
  let ?e = "sample_server (\<lambda>m. True)"
  have c: "committed ?e (leave_db u)" by (rule platform_committed [OF leave_platform [OF assms]])
  have "active_workflow ?e (leave_db u) (uid 0) \<noteq> None"
    by (simp add: active_workflow_def query_first_None leave_tables created_workflow_def empty_db_def)
  moreover have o: "opening_step ?e (leave_db u) (uid 0) = Some (step_row_of (uid 0) (uid 1) leave_step)"
    by (simp add: opening_step_def query_first_def query_def leave_tables leave_step_def)
  ultimately have "fst (start_workflow ?e (uid 0) (user_id u) [] (leave_db u)) = Inr (uid 2)"
    by (auto simp: start_fst [OF c] start_failure_def deadline_ok_def step_deadline_def leave_step_def leave_tables)
  then obtain d' where s: "start_workflow ?e (uid 0) (user_id u) [] (leave_db u) = (Inr (uid 2), d')"
    by (cases "start_workflow ?e (uid 0) (user_id u) [] (leave_db u)") simp
  have w: "WorkflowRequestCreate sample_codec (JObj [(''workflow_id'', JStr (uid 0))]) = Some (uid 0, [])"
    by (simp add: WorkflowRequestCreate_def required_def optional_def sample_codec_def)
  with s have "leave_started u = d'"
    by (simp add: leave_started_def leave_request_def post_request_def respond_snd transact_Inr)
  moreover have "\<exists>ms. d' = (started ?e (leave_db u) (uid 0) (user_id u) [] (step_row_of (uid 0) (uid 1) leave_step))\<lparr>db_outbox := ms\<rparr>"
    by (rule start_workflow_Inr [OF c s]) (use o in auto)
  ultimately show ?thesis by simp
qed

lemma leave_started_request:
  assumes "is_admin u"
  shows "\<exists>s. db_requests (leave_started u) = [started_request (sample_server (\<lambda>m. True)) (leave_db u) (uid 0) (user_id u) [] s]"
  using leave_started_state [OF assms] by (auto simp: leave_tables)

section \<open>The invariant and what no call undoes\<close>

text \<open>
  C3. In every state that the platform reaches, a request is in progress with exactly one open execution,
  that of its current step, or completed with neither; its history is a chain of allowed moves from CREATED
  to its status; every execution belongs to a request and to a step of that request's workflow; and the
  names of the workflows differ.
\<close>

theorem platform_invariant:
  assumes "platform e d"
  shows "(\<forall>r \<in> set (db_requests d).
      (if rq_status r = IN_PROGRESS then \<exists>x. open_execs d (rq_id r) = [x] \<and> rq_current_step_id r = Some (ex_step_id x)
       else rq_status r = COMPLETED \<and> open_execs d (rq_id r) = [] \<and> rq_current_step_id r = None) \<and>
      chain_end CREATED (request_history d (rq_id r)) = Some (rq_status r)) \<and>
    (\<forall>x \<in> set (db_execs d). \<exists>r \<in> set (db_requests d). rq_id r = ex_request_id x \<and> step_workflow d (ex_step_id x) = Some (rq_workflow_id r)) \<and>
    distinct (map rq_id (db_requests d)) \<and> distinct (map wf_name (db_workflows d))"
proof -
  have c: "committed e d" using platform_committed [OF assms] .
  then have ok: "engine_ok d" and ids: "ids_ok d" by (simp_all add: committed_def engine_ok_ids)
  have r: "(if rq_status r = IN_PROGRESS then \<exists>x. open_execs d (rq_id r) = [x] \<and> rq_current_step_id r = Some (ex_step_id x)
       else rq_status r = COMPLETED \<and> open_execs d (rq_id r) = [] \<and> rq_current_step_id r = None) \<and>
      chain_end CREATED (request_history d (rq_id r)) = Some (rq_status r)" if "r \<in> set (db_requests d)" for r
    using engine_ok_request [OF ok that]
    by (cases "rq_status r") (auto simp: request_ok_def status_ok_def length_Suc_conv)
  have x: "\<exists>r \<in> set (db_requests d). rq_id r = ex_request_id x \<and> step_workflow d (ex_step_id x) = Some (rq_workflow_id r)"
    if "x \<in> set (db_execs d)" for x
    using engine_ok_exec [OF ok that] by (auto simp: exec_ok_def list_ex_iff)
  show ?thesis using r x ids c by (simp add: ids_ok_def committed_def rows_ok_def definitions_ok_def)
qed

lemma platform_invariant_witness:
  "\<exists>r. db_requests (leave_started admin_user) = [r] \<and> rq_status r = IN_PROGRESS \<and>
    length (open_execs (leave_started admin_user) (rq_id r)) = 1"
proof -
  have "platform (sample_server (\<lambda>m. True)) (leave_started admin_user)"
    using platform.call [OF leave_platform [OF admin_user_admin], of "sample_server (\<lambda>m. True)" "leave_request admin_user"]
    by (simp add: leave_started_def same_site_def)
  from platform_invariant [OF this] leave_started_request [OF admin_user_admin] show ?thesis by auto
qed

definition same_request :: "request_row \<Rightarrow> request_row \<Rightarrow> bool" where
  "same_request r r' \<longleftrightarrow> rq_id r' = rq_id r \<and> rq_workflow_id r' = rq_workflow_id r \<and> rq_requester_id r' = rq_requester_id r \<and>
     rq_data r' = rq_data r \<and> (rq_status r = COMPLETED \<longrightarrow> r' = r)"

definition same_exec :: "exec_row \<Rightarrow> exec_row \<Rightarrow> bool" where
  "same_exec x x' \<longleftrightarrow> ex_id x' = ex_id x \<and> ex_step_id x' = ex_step_id x \<and> ex_deadline x' = ex_deadline x \<and>
     (ex_is_sla_breached x \<longrightarrow> ex_is_sla_breached x') \<and>
     (ex_completed_at x \<noteq> None \<longrightarrow> x' = x \<or> x' = mark_breached x)"

definition kept :: "db \<Rightarrow> db \<Rightarrow> bool" where
  "kept d d' \<longleftrightarrow> prefix (db_audit d) (db_audit d') \<and> prefix (db_history d) (db_history d') \<and>
     prefix (db_escalations d) (db_escalations d') \<and>
     (\<forall>r \<in> set (db_requests d). \<exists>r' \<in> set (db_requests d'). same_request r r') \<and>
     (\<forall>x \<in> set (db_execs d). \<exists>x' \<in> set (db_execs d'). same_exec x x')"

lemma same_request_refl [simp]: "same_request r r" and same_exec_refl [simp]: "same_exec x x"
  by (simp_all add: same_request_def same_exec_def)

lemma mark_breached_deadline [simp]: "ex_deadline (mark_breached x) = ex_deadline x"
  by (simp add: mark_breached_def)

lemma same_request_trans: "same_request r r' \<Longrightarrow> same_request r' r'' \<Longrightarrow> same_request r r''"
  by (auto simp: same_request_def)

lemma same_exec_trans: "same_exec x x' \<Longrightarrow> same_exec x' x'' \<Longrightarrow> same_exec x x''"
  unfolding same_exec_def by (cases "ex_completed_at x = None"; elim conjE; simp; elim disjE; simp)

lemma same_member: "r \<in> R \<Longrightarrow> R \<subseteq> R' \<Longrightarrow> \<exists>r' \<in> R'. same_request r r'" "x \<in> X \<Longrightarrow> X \<subseteq> X' \<Longrightarrow> \<exists>x' \<in> X'. same_exec x x'"
  using same_request_refl same_exec_refl by blast+

lemma kept_refl [simp]: "kept d d"
  by (simp add: kept_def same_member)

lemma kept_trans: "kept d d' \<Longrightarrow> kept d' d'' \<Longrightarrow> kept d d''"
  unfolding kept_def by (meson prefix_order.trans same_request_trans same_exec_trans)

lemma kept_extended:
  assumes "db_audit d' = db_audit d @ as" "db_history d' = db_history d @ hs" "db_escalations d' = db_escalations d @ es"
    and "\<And>r. r \<in> set (db_requests d) \<Longrightarrow> \<exists>r' \<in> set (db_requests d'). same_request r r'"
    and "\<And>x. x \<in> set (db_execs d) \<Longrightarrow> \<exists>x' \<in> set (db_execs d'). same_exec x x'"
  shows "kept d d'"
  using assms by (simp add: kept_def)

lemma kept_same_tables: "same_tables d d' \<Longrightarrow> kept d d'"
  by (simp add: kept_def same_tables_def same_member)

lemma kept_transact:
  assumes "\<And>x d'. m d = (Inr x, d') \<Longrightarrow> kept d d'"
  shows "kept d (snd (transact m d))"
proof (cases "m d")
  case (Pair r d')
  then show ?thesis using assms by (cases r) (simp_all add: transact_def kept_same_tables)
qed

lemma kept_started: "kept d (started e d w u data s)"
  by (rule kept_extended [of _ d "[audit_entry e (db_uuid d (db_drawn d + 3)) ''WORKFLOW_STARTED'' ''workflow_request'' (db_uuid d (db_drawn d))
        (Some u) (db_uuid d (db_drawn d)) (JObj [(''workflow_id'', JStr w)])]" "[start_history d u]" "[]"])
    (simp_all add: same_member subset_insertI, simp_all add: started_def Let_def)

lemma kept_requests:
  assumes "r \<in> set (db_requests d)" "rq_status r = IN_PROGRESS" "ids_ok d" "q \<in> set (db_requests d)"
    and "same_request (r\<lparr>rq_status := CREATED\<rparr>) (f r)"
  shows "\<exists>q' \<in> set (update_row rq_id (rq_id r) f (db_requests d)). same_request q q'"
proof (cases "q = r")
  case True
  then show ?thesis using assms by (auto simp: set_update_row same_request_def)
next
  case False
  then have "rq_id q \<noteq> rq_id r" using assms request_unique by blast
  then show ?thesis using assms(4) by (auto simp: set_update_row intro!: bexI [of _ q])
qed

lemma close_exec_kept: "ex_completed_at x = None \<Longrightarrow> same_exec x (close_exec u out c now x)"
  by (auto simp: same_exec_def close_exec_def Let_def split: option.split)

lemma kept_closed:
  assumes "x \<in> set (db_execs d)" "ex_completed_at x = None" "ids_ok d" "y \<in> set (db_execs d)"
  shows "\<exists>y' \<in> set (closed_execs e d x u out c). same_exec y y'"
proof (cases "y = x")
  case True
  with assms(1) have "close_exec (user_id u) out c (srv_now e) y \<in> set (closed_execs e d x u out c)"
    unfolding closed_execs_def set_update_row by (intro image_eqI [of _ _ x]) simp_all
  with True close_exec_kept [OF assms(2)] show ?thesis by blast
next
  case False
  then have "ex_id y \<noteq> ex_id x" using assms exec_unique by blast
  then show ?thesis using assms(4) by (auto simp: closed_execs_def set_update_row intro!: bexI [of _ y])
qed

lemma kept_processed:
  assumes "committed e d" "process_step e i u out c d = (Inr j, d')"
  shows "kept d d'"
proof (rule process_step_Inr [OF assms])
  fix r x s
  assume r: "r \<in> set (db_requests d)" and p: "pending_exec e d r = Some x" and res: "process_result e d r x u out c = Inr d'"
  have ok: "engine_ok d" and ids: "ids_ok d" using assms(1) by (simp_all add: committed_def engine_ok_ids)
  have st: "rq_status r = IN_PROGRESS" using not_in_progress(2) [OF ok r, of e] p by (cases "rq_status r = IN_PROGRESS") auto
  note x = pending_exec_Some [OF p]
  have ex: "\<exists>y' \<in> set (closed_execs e d x u out c). same_exec y y'" if "y \<in> set (db_execs d)" for y
    using kept_closed [OF _ _ ids that] x by blast
  note rq = kept_requests [OF r st ids]
  from res consider t where "d' = moved e d r x u out c t" | "d' = finalized e d r x u out c"
    by (auto simp: process_result_def split: option.splits if_splits)
  then show "kept d d'"
  proof cases
    case (1 t)
    have a: "db_audit (moved e d r x u out c t) = db_audit d @ [completion_entry e (db_uuid d (db_drawn d + 1)) r x u out]"
      by (simp add: moved_def)
    show ?thesis
      unfolding 1
    proof (rule kept_extended [OF a, of "[]" "[]"])
      fix q
      assume "q \<in> set (db_requests d)"
      from rq [OF this, of "\<lambda>q. q\<lparr>rq_current_step_id := Some (sd_id t)\<rparr>"]
      show "\<exists>r' \<in> set (db_requests (moved e d r x u out c t)). same_request q r'" by (simp add: same_request_def)
    next
      fix y
      assume "y \<in> set (db_execs d)"
      from ex [OF this] show "\<exists>x' \<in> set (db_execs (moved e d r x u out c t)). same_exec y x'" by auto
    qed simp_all
  next
    case 2
    obtain as where a: "db_audit (finalized e d r x u out c) = db_audit d @ as" by (simp add: finalized_def)
    show ?thesis
      unfolding 2
    proof (rule kept_extended [OF a, of "final_history d r u out" "[]"])
      fix q
      assume "q \<in> set (db_requests d)"
      from rq [OF this, of "\<lambda>q. q\<lparr>rq_status := COMPLETED, rq_current_step_id := None, rq_completed_at := Some (srv_now e)\<rparr>"]
      show "\<exists>r' \<in> set (db_requests (finalized e d r x u out c)). same_request q r'" by (simp add: same_request_def)
    next
      fix y
      assume "y \<in> set (db_execs d)"
      from ex [OF this] show "\<exists>x' \<in> set (db_execs (finalized e d r x u out c)). same_exec y x'" by simp
    qed simp_all
  qed
qed

lemma mark_ids_kept: "same_exec x (mark_ids I x)"
  by (simp add: mark_ids_def same_exec_def)

lemma kept_escalated: "kept d (escalated e b x d)"
proof -
  have "\<exists>y' \<in> mark_ids {ex_id x} ` set (db_execs d). same_exec y y'" if "y \<in> set (db_execs d)" for y
    using mark_ids_kept that by blast
  then show ?thesis by (simp add: kept_def same_member escalated_def update_row_mark)
qed

lemma kept_fold_escalated: "kept d (fold (escalated e b) xs d)"
proof (induction xs arbitrary: d)
  case (Cons x xs)
  from kept_trans [OF kept_escalated Cons.IH] show ?case by simp
qed simp

lemma kept_scan: "committed e d \<Longrightarrow> kept d (snd (check_all_slas e d))"
  using kept_fold_escalated [of d e d "overdue_steps e d"] by (simp add: check_run Let_def kept_same_tables)

lemma kept_service:
  "rows_ok e d \<Longrightarrow> create_workflow e wi c d = (Inr i, d') \<Longrightarrow> kept d d'"
  "rows_ok e d \<Longrightarrow> delete_workflow e j d = (Inr v, d') \<Longrightarrow> kept d d'"
  using create_workflow_Inr [of e d wi c i d'] delete_workflow_run [of e d j]
  by (auto simp: kept_def same_member remove_workflow_def split: if_splits)

lemma kept_start:
  assumes "committed e d" "start_workflow e w u data d = (Inr i, d')"
  shows "kept d d'"
proof (rule start_workflow_Inr [OF assms])
  fix wfl s
  assume "d' = (started e d w u data s)\<lparr>db_outbox := db_outbox d @ [NewAssignment (sd_id s) i (wf_name wfl) (sd_name s) (step_deadline e s)]\<rparr>"
  with kept_started [of d e w u data s] show ?thesis by (simp add: kept_def)
qed

lemma transaction_of_kept: "transaction_of e who d d' \<Longrightarrow> committed e d \<Longrightarrow> kept d d'"
proof (induction rule: transaction_of.induct)
  case (create u wi)
  then show ?case by (intro kept_transact kept_service(1)) (simp_all add: committed_def)
next
  case (delete i)
  then show ?case by (intro kept_transact kept_service(2)) (simp_all add: committed_def)
next
  case (start u w data)
  then show ?case by (intro kept_transact kept_start)
next
  case (process u i out c)
  then show ?case by (intro kept_transact kept_processed)
qed (simp_all add: kept_scan)

lemma later_platform: "later e d d' \<Longrightarrow> platform e d \<Longrightarrow> platform e d'"
  by (induction rule: later.induct) (auto intro: platform.call)

text \<open>
  C5. Whatever is called later: the audit log, the state history and the escalations are only appended to;
  no request disappears or changes its workflow, requester or data, and a completed one does not
  change at all; an execution keeps its step, its deadline and its breach mark, and once it is
  closed only that mark can still be set.
\<close>

theorem platform_monotone:
  assumes "platform e d" and "later e d d'"
  shows "prefix (db_audit d) (db_audit d') \<and> prefix (db_history d) (db_history d') \<and> prefix (db_escalations d) (db_escalations d') \<and>
    (\<forall>r \<in> set (db_requests d). \<exists>r' \<in> set (db_requests d'). same_request r r') \<and>
    (\<forall>x \<in> set (db_execs d). \<exists>x' \<in> set (db_execs d'). same_exec x x')"
proof -
  have "kept d d'"
    using assms(2)
  proof (induction rule: later.induct)
    case (call d' e' c)
    have "committed e' d'"
      using platform_committed [OF later_platform [OF call.hyps(1) assms(1)]] by (simp add: committed_site [OF call.hyps(2)])
    then have "kept d' (run_call e' c d')" by (rule transaction_of_kept [OF run_call_transaction])
    with call.IH show ?case by (rule kept_trans)
  qed simp
  then show ?thesis by (simp add: kept_def)
qed

lemma platform_monotone_witness:
  "later (sample_server (\<lambda>m. True)) (leave_db admin_user) (leave_started admin_user) \<and>
   prefix (db_history (leave_db admin_user)) (db_history (leave_started admin_user)) \<and> (\<exists>r. db_requests (leave_started admin_user) = [r])"
  using platform_monotone [OF leave_platform [OF admin_user_admin] leave_later] leave_later leave_started_request [OF admin_user_admin]
  by blast

end
