(* ===== verification/ApiClient.thy ===== *)
theory ApiClient
  imports Json
begin

text \<open>
  The HTTP client of the frontend, \<open>frontend/src/lib/api.ts\<close>: the axios instance with its
  base URL and default header, the request interceptor that attaches the stored token, and
  the response interceptor that ends the session on a 401. The browser state it works on is
  the \<open>access_token\<close> entry of \<open>localStorage\<close>, the location, and the log of requests sent and
  alerts shown. axios itself (transport, URL joining) is outside the repository: a response
  is an arbitrary event of the page machine in theory \<open>Runtime\<close>.
\<close>

datatype http_method = GET | POST | DELETE

datatype http_body = NoBody | JsonBody json | FormBody string

record http_request =
  rq_method :: http_method
  rq_url :: string
  rq_headers :: "(string \<times> string) list"
  rq_body :: http_body

text \<open>What the code reads of an axios error: \<open>error.response?.status\<close>,
  \<open>error.response?.data?.detail\<close> and \<open>error.message\<close>. Only the login page reads the detail. The login
  endpoint answers with a text there, except when a field of the form is missing or empty, which both
  fields being \<open>required\<close> excludes; that answer's list is not represented.\<close>

record api_failure =
  fl_status :: "nat option"
  fl_detail :: "string option"
  fl_message :: string

record browser =
  br_token :: "string option"
  br_location :: string
  br_sent :: "http_request list"
  br_alerts :: "string list"

text \<open>A browser that has just opened the site: no token, the login page.\<close>

definition new_browser :: browser where
  "new_browser = \<lparr>br_token = None, br_location = ''/'', br_sent = [], br_alerts = []\<rparr>"

definition API_BASE_URL :: string where
  "API_BASE_URL = ''https://antigravity-backend-8ytp.onrender.com/api/v1''"

text \<open>The request as the page hands it over: the instance's default headers, replaced by the
  call's own \<open>Content-Type\<close> when it gives one.\<close>

definition default_headers :: "http_body \<Rightarrow> (string \<times> string) list" where
  "default_headers b = (case b of
     FormBody _ \<Rightarrow> [(''Content-Type'', ''application/x-www-form-urlencoded'')]
   | _ \<Rightarrow> [(''Content-Type'', ''application/json'')])"

definition make_request :: "http_method \<Rightarrow> string \<Rightarrow> http_body \<Rightarrow> http_request" where
  "make_request m u b = \<lparr>rq_method = m, rq_url = u, rq_headers = default_headers b, rq_body = b\<rparr>"

text \<open>The request interceptor: \<open>if (token) config.headers.Authorization = `Bearer ${token}`\<close>;
  an empty token is falsy.\<close>

definition intercept_request :: "browser \<Rightarrow> http_request \<Rightarrow> http_request" where
  "intercept_request b r = (case br_token b of
     None \<Rightarrow> r
   | Some t \<Rightarrow> (if t = '''' then r
       else r\<lparr>rq_headers := rq_headers r @ [(''Authorization'', ''Bearer '' @ t)]\<rparr>))"

text \<open>The response interceptor: a 401 removes the token and sends the window to the login
  page; the error is passed on to the caller in every case.\<close>

definition intercept_error :: "api_failure \<Rightarrow> browser \<Rightarrow> browser" where
  "intercept_error e b =
     (if fl_status e = Some 401 then b\<lparr>br_token := None, br_location := ''/''\<rparr> else b)"

definition send :: "http_method \<Rightarrow> string \<Rightarrow> http_body \<Rightarrow> browser \<Rightarrow> browser" where
  "send m u body b = b\<lparr>br_sent := br_sent b @ [intercept_request b (make_request m u body)]\<rparr>"

definition authorization :: "http_request \<Rightarrow> string option" where
  "authorization r = map_of (rq_headers r) ''Authorization''"

lemmas [page_ops] = send_def make_request_def intercept_error_def

lemma default_headers_no_auth [simp]: "map_of (default_headers b) ''Authorization'' = None"
  by (simp add: default_headers_def split: http_body.splits)

lemma intercept_request_keeps [simp]:
  "rq_method (intercept_request b r) = rq_method r"
  "rq_url (intercept_request b r) = rq_url r"
  "rq_body (intercept_request b r) = rq_body r"
  by (auto simp: intercept_request_def split: option.splits)

lemma intercept_error_keeps [simp]:
  "br_sent (intercept_error e b) = br_sent b"
  "br_alerts (intercept_error e b) = br_alerts b"
  by (auto simp: intercept_error_def)

lemma send_keeps [simp]:
  "br_token (send m u body b) = br_token b"
  "br_location (send m u body b) = br_location b"
  "br_alerts (send m u body b) = br_alerts b"
  by (auto simp: send_def)

lemma authorization_intercepted:
  "map_of (rq_headers r) ''Authorization'' = None \<Longrightarrow>
   authorization (intercept_request b r) = (case br_token b of
     None \<Rightarrow> None | Some t \<Rightarrow> if t = '''' then None else Some (''Bearer '' @ t))"
  by (auto simp: authorization_def intercept_request_def map_add_def
      split: option.splits)

lemma authorization_sent:
  "authorization (last (br_sent (send m u body b))) = (case br_token b of
     None \<Rightarrow> None | Some t \<Rightarrow> if t = '''' then None else Some (''Bearer '' @ t))"
  by (simp add: send_def authorization_intercepted make_request_def)

end
