(* ===== verification/View.thy ===== *)
theory View
  imports Json
begin

text \<open>
  What a React component renders, as far as the user can read it or act on it. A node keeps
  the text, the state-dependent style (the branch of a conditional class list), links, and
  every control with the action its handler runs; class lists that never change, animation
  and layout wrappers are left out. \<open>'c\<close> are a page's actions (\<open>onClick\<close>, \<open>onSubmit\<close>),
  \<open>'f\<close> its form fields (\<open>value\<close>/\<open>onChange\<close>).
\<close>

datatype ('c, 'f) node =
    Txt string
  | Box "('c, 'f) node list"
  | Btn 'c bool "('c, 'f) node list"   \<comment> \<open>action, disabled, children\<close>
  | Area 'c "('c, 'f) node list"       \<comment> \<open>another element with \<open>onClick\<close>\<close>
  | Inp 'f string                      \<comment> \<open>text input or textarea with its value\<close>
  | Sel 'f string "(string \<times> string) list" \<comment> \<open>select: value, (option value, label)\<close>
  | Frm 'c bool "('c, 'f) node list"   \<comment> \<open>form: \<open>onSubmit\<close>, required fields filled\<close>
  | Sub bool "('c, 'f) node list"      \<comment> \<open>submit button: disabled\<close>
  | Lnk string "('c, 'f) node list"
  | Sty string "('c, 'f) node list"    \<comment> \<open>state-dependent style\<close>
  | Tim string int                     \<comment> \<open>formatted instant: format, instant\<close>
  | Val string json                    \<comment> \<open>a value as \<open>String(v)\<close> or \<open>JSON.stringify(v)\<close> prints it\<close>
  | Spin                               \<comment> \<open>the loading icon\<close>
  | Ico string

section \<open>What the user can do\<close>

text \<open>An enabled submit button inside a form lets it be submitted.\<close>

fun can_submit :: "('c, 'f) node \<Rightarrow> bool" where
  "can_submit (Sub d ns) = (\<not> d)"
| "can_submit (Box ns) = list_ex can_submit ns"
| "can_submit (Btn c d ns) = list_ex can_submit ns"
| "can_submit (Area c ns) = list_ex can_submit ns"
| "can_submit (Frm c v ns) = list_ex can_submit ns"
| "can_submit (Lnk u ns) = list_ex can_submit ns"
| "can_submit (Sty t ns) = list_ex can_submit ns"
| "can_submit _ = False"

text \<open>The actions of the enabled controls.\<close>

fun clicks :: "('c, 'f) node \<Rightarrow> 'c list" where
  "clicks (Box ns) = concat (map clicks ns)"
| "clicks (Btn c d ns) = (if d then [] else [c])"
| "clicks (Area c ns) = c # concat (map clicks ns)"
| "clicks (Frm c v ns) = (if v \<and> list_ex can_submit ns then [c] else []) @ concat (map clicks ns)"
| "clicks (Lnk u ns) = concat (map clicks ns)"
| "clicks (Sty t ns) = concat (map clicks ns)"
| "clicks _ = []"

text \<open>The editable fields: \<open>None\<close> for free text, the option values for a select.\<close>

fun edits :: "('c, 'f) node \<Rightarrow> ('f \<times> string list option) list" where
  "edits (Box ns) = concat (map edits ns)"
| "edits (Area c ns) = concat (map edits ns)"
| "edits (Frm c v ns) = concat (map edits ns)"
| "edits (Lnk u ns) = concat (map edits ns)"
| "edits (Sty t ns) = concat (map edits ns)"
| "edits (Inp f v) = [(f, None)]"
| "edits (Sel f v os) = [(f, Some (map fst os))]"
| "edits _ = []"

definition accepts :: "('c, 'f) node \<Rightarrow> 'f \<Rightarrow> string \<Rightarrow> bool" where
  "accepts n f v = list_ex (\<lambda>(g, os). g = f \<and> (case os of None \<Rightarrow> True | Some vs \<Rightarrow> v \<in> set vs)) (edits n)"

lemma accepts_node [simp]:
  "accepts (Txt s) f v = False" "accepts (Inp g w) f v = (g = f)"
  "accepts (Sel g w os) f v = (g = f \<and> v \<in> fst ` set os)"
  "accepts (Box ns) f v = list_ex (\<lambda>n. accepts n f v) ns"
  "accepts (Area c ns) f v = list_ex (\<lambda>n. accepts n f v) ns"
  "accepts (Frm c b ns) f v = list_ex (\<lambda>n. accepts n f v) ns"
  "accepts (Lnk u ns) f v = list_ex (\<lambda>n. accepts n f v) ns"
  "accepts (Sty u ns) f v = list_ex (\<lambda>n. accepts n f v) ns"
  "accepts (Btn c d ns) f v = False" "accepts (Sub d ns) f v = False"
  "accepts (Tim u i) f v = False" "accepts (Val u j) f v = False"
  "accepts Spin f v = False" "accepts (Ico u) f v = False"
  by (auto simp: accepts_def list_ex_iff)

section \<open>What the user can read\<close>

fun texts :: "('c, 'f) node \<Rightarrow> string list" where
  "texts (Txt s) = [s]"
| "texts (Box ns) = concat (map texts ns)"
| "texts (Btn c d ns) = concat (map texts ns)"
| "texts (Area c ns) = concat (map texts ns)"
| "texts (Frm c v ns) = concat (map texts ns)"
| "texts (Sub d ns) = concat (map texts ns)"
| "texts (Lnk u ns) = concat (map texts ns)"
| "texts (Sty t ns) = concat (map texts ns)"
| "texts _ = []"

fun links :: "('c, 'f) node \<Rightarrow> string list" where
  "links (Lnk u ns) = u # concat (map links ns)"
| "links (Box ns) = concat (map links ns)"
| "links (Btn c d ns) = concat (map links ns)"
| "links (Area c ns) = concat (map links ns)"
| "links (Frm c v ns) = concat (map links ns)"
| "links (Sub d ns) = concat (map links ns)"
| "links (Sty t ns) = concat (map links ns)"
| "links _ = []"

text \<open>\<open>cond && node\<close> renders the node or nothing.\<close>

definition show_if :: "bool \<Rightarrow> ('c, 'f) node list \<Rightarrow> ('c, 'f) node list" where
  "show_if b ns = (if b then ns else [])"

text \<open>A heading block: eyebrow text, title and subtitle, as most pages open.\<close>

definition heading :: "string \<Rightarrow> string \<Rightarrow> string \<Rightarrow> ('c, 'f) node" where
  "heading eyebrow title sub = Box [Txt eyebrow, Txt title, Txt sub]"

lemmas [page_ops] = show_if_def heading_def

lemma clicks_heading [simp]: "clicks (heading e t u) = []"
  by (simp add: heading_def)

lemma edits_heading [simp]: "edits (heading e t u) = []"
  by (simp add: heading_def)

lemma accepts_heading [simp]: "accepts (heading e t u) f v = False"
  by (simp add: heading_def)

lemma list_ex_map [simp]: "list_ex p (map f xs) = list_ex (\<lambda>x. p (f x)) xs"
  by (induction xs) auto

lemma list_ex_False [simp]: "list_ex (\<lambda>x. False) xs = False"
  by (induction xs) auto

lemma list_ex_show_if [simp]: "list_ex p (show_if b ns) = (b \<and> list_ex p ns)"
  by (simp add: show_if_def)

lemma clicks_show_if [simp]:
  "concat (map clicks (show_if b ns)) = (if b then concat (map clicks ns) else [])"
  by (simp add: show_if_def)

lemma edits_show_if [simp]:
  "concat (map edits (show_if b ns)) = (if b then concat (map edits ns) else [])"
  by (simp add: show_if_def)

end
