(* ===== verification/Runtime.thy ===== *)
theory Runtime
  imports ApiClient View
begin

text \<open>
  The machine a page of the frontend runs on. A page is the record of its component's code:
  the initial values of its \<open>useState\<close> variables, the effect that runs on mount, the handlers
  of its controls, the continuations of its \<open>await\<close>s, and its render function. A session is
  a mounted page with the calls it is waiting for and the browser around it.

  An asynchronous handler is split at each \<open>await\<close>: the part before it leaves a pending call,
  whose constructor carries the variables its continuation captured at the time (the closure);
  the continuation is run when the response arrives. Responses arrive in any order and with any
  content. A control can be used only while the rendered view offers it enabled.
\<close>

text \<open>What the environment supplies during one event: the clock (\<open>new Date()\<close>), the values
  of \<open>Math.random\<close> in the two forms the code uses, \<open>Math.floor(Math.random() * 10000)\<close> and
  \<open>Math.random().toString(36).substr(2, 9)\<close>, the engine's text of a thrown error
  (\<open>err.message\<close>), and the browser's check of an email field.\<close>

record js_env =
  env_now :: int
  env_rand :: nat
  env_randid :: string
  env_errmsg :: "js_error \<Rightarrow> string"
  env_email :: "string \<Rightarrow> bool"

datatype 'k effect =
    Call 'k http_method string http_body   \<comment> \<open>an API call and its continuation\<close>
  | CallAll 'k "string list"               \<comment> \<open>\<open>Promise.all\<close> of GETs and its continuation\<close>
  | Timer 'k                               \<comment> \<open>\<open>setTimeout\<close> and its callback\<close>
  | Alert string
  | Push string                            \<comment> \<open>\<open>router.push\<close>\<close>
  | SetToken string                        \<comment> \<open>\<open>localStorage.setItem("access_token", \<dots>)\<close>\<close>
  | RemoveToken

type_synonym ('s, 'k) reaction = "'s \<times> 'k effect list"

record ('s, 'c, 'f, 'k, 'p) page =
  on_mount :: "('s, 'k) reaction"
  on_click :: "js_env \<Rightarrow> 'c \<Rightarrow> 's \<Rightarrow> ('s, 'k) reaction"
  on_change :: "'f \<Rightarrow> string \<Rightarrow> 's \<Rightarrow> ('s, 'k) reaction"
  on_ok :: "js_env \<Rightarrow> 'k \<Rightarrow> 'p \<Rightarrow> 's \<Rightarrow> ('s, 'k) reaction"
  on_fail :: "js_env \<Rightarrow> 'k \<Rightarrow> api_failure \<Rightarrow> 's \<Rightarrow> ('s, 'k) reaction"
  on_timer :: "'k \<Rightarrow> 's \<Rightarrow> ('s, 'k) reaction"
  on_deps :: "'s \<Rightarrow> 's \<Rightarrow> 'k effect list" \<comment> \<open>effects with dependencies: old and new state\<close>
  view :: "js_env \<Rightarrow> 's \<Rightarrow> ('c, 'f) node"

record ('s, 'k) session =
  st :: 's
  inflight :: "'k list"
  timers :: "'k list"
  br :: browser

section \<open>Running effects and events\<close>

fun run_effect :: "'k effect \<Rightarrow> ('s, 'k) session \<Rightarrow> ('s, 'k) session" where
  "run_effect (Call k m u b) s = s\<lparr>inflight := inflight s @ [k], br := send m u b (br s)\<rparr>"
| "run_effect (CallAll k us) s =
     s\<lparr>inflight := inflight s @ [k], br := fold (\<lambda>u. send GET u NoBody) us (br s)\<rparr>"
| "run_effect (Timer k) s = s\<lparr>timers := timers s @ [k]\<rparr>"
| "run_effect (Alert t) s = s\<lparr>br := (br s)\<lparr>br_alerts := br_alerts (br s) @ [t]\<rparr>\<rparr>"
| "run_effect (Push u) s = s\<lparr>br := (br s)\<lparr>br_location := u\<rparr>\<rparr>"
| "run_effect (SetToken t) s = s\<lparr>br := (br s)\<lparr>br_token := Some t\<rparr>\<rparr>"
| "run_effect RemoveToken s = s\<lparr>br := (br s)\<lparr>br_token := None\<rparr>\<rparr>"

fun run_effects :: "'k effect list \<Rightarrow> ('s, 'k) session \<Rightarrow> ('s, 'k) session" where
  "run_effects [] s = s"
| "run_effects (e # es) s = run_effects es (run_effect e s)"

text \<open>After a handler: the new state is rendered, its effects have run, and the effects whose
  dependencies changed run.\<close>

definition react :: "('s, 'c, 'f, 'k, 'p) page \<Rightarrow> ('s, 'k) reaction \<Rightarrow> ('s, 'k) session \<Rightarrow> ('s, 'k) session" where
  "react P r s = run_effects (on_deps P (st s) (fst r)) (run_effects (snd r) (s\<lparr>st := fst r\<rparr>))"

definition mounted :: "('s, 'c, 'f, 'k, 'p) page \<Rightarrow> browser \<Rightarrow> ('s, 'k) session" where
  "mounted P b = run_effects (snd (on_mount P))
     \<lparr>st = fst (on_mount P), inflight = [], timers = [], br = b\<rparr>"

datatype ('c, 'f, 'k, 'p) event =
    Click 'c
  | Change 'f string
  | Ok 'k 'p
  | Fail 'k api_failure
  | Fire 'k

text \<open>One event; \<open>None\<close> when it cannot happen: the control is not there or disabled, the call
  is not pending, the timer is not set.\<close>

fun perform :: "('s, 'c, 'f, 'k, 'p) page \<Rightarrow> js_env \<Rightarrow> ('c, 'f, 'k, 'p) event \<Rightarrow>
    ('s, 'k) session \<Rightarrow> ('s, 'k) session option" where
  "perform P e (Click c) s =
     (if c \<in> set (clicks (view P e (st s))) then Some (react P (on_click P e c (st s)) s) else None)"
| "perform P e (Change f v) s =
     (if accepts (view P e (st s)) f v then Some (react P (on_change P f v (st s)) s) else None)"
| "perform P e (Ok k p) s =
     (if k \<in> set (inflight s)
      then Some (react P (on_ok P e k p (st s)) (s\<lparr>inflight := remove1 k (inflight s)\<rparr>)) else None)"
| "perform P e (Fail k x) s =
     (if k \<in> set (inflight s)
      then Some (react P (on_fail P e k x (st s))
             (s\<lparr>inflight := remove1 k (inflight s), br := intercept_error x (br s)\<rparr>)) else None)"
| "perform P e (Fire k) s =
     (if k \<in> set (timers s)
      then Some (react P (on_timer P k (st s)) (s\<lparr>timers := remove1 k (timers s)\<rparr>)) else None)"

fun perform_all :: "('s, 'c, 'f, 'k, 'p) page \<Rightarrow> (js_env \<times> ('c, 'f, 'k, 'p) event) list \<Rightarrow>
    ('s, 'k) session \<Rightarrow> ('s, 'k) session option" where
  "perform_all P [] s = Some s"
| "perform_all P ((e, x) # xs) s =
     (case perform P e x s of None \<Rightarrow> None | Some s' \<Rightarrow> perform_all P xs s')"

text \<open>The sessions a page can get into.\<close>

inductive reaches :: "('s, 'c, 'f, 'k, 'p) page \<Rightarrow> ('s, 'k) session \<Rightarrow> bool" for P where
  mount: "reaches P (mounted P b)"
| event: "reaches P s \<Longrightarrow> perform P e x s = Some s' \<Longrightarrow> reaches P s'"

lemma reaches_perform_all:
  "reaches P s \<Longrightarrow> perform_all P xs s = Some s' \<Longrightarrow> reaches P s'"
proof (induction P xs s rule: perform_all.induct)
  case (1 P s)
  then show ?case by simp
next
  case (2 P e x xs s)
  then show ?case by (auto split: option.splits intro: reaches.event)
qed

section \<open>Frame rules\<close>

text \<open>Effects never touch the component state; only calls and timers touch what is pending.\<close>

lemma st_run_effect [simp]: "st (run_effect e s) = st s"
  by (cases e) auto

lemma st_run_effects [simp]: "st (run_effects es s) = st s"
  by (induction es arbitrary: s) auto

lemma st_react [simp]: "st (react P r s) = fst r"
  by (simp add: react_def)

lemma st_mounted [simp]: "st (mounted P b) = fst (on_mount P)"
  by (simp add: mounted_def)

fun call_of :: "'k effect \<Rightarrow> 'k list" where
  "call_of (Call k m u b) = [k]"
| "call_of (CallAll k us) = [k]"
| "call_of _ = []"

definition calls :: "'k effect list \<Rightarrow> 'k list" where
  "calls es = concat (map call_of es)"

lemma calls_simps [simp]:
  "calls [] = []" "calls (e # es) = call_of e @ calls es" "calls (es @ fs) = calls es @ calls fs"
  by (simp_all add: calls_def)

lemma inflight_run_effect [simp]: "inflight (run_effect e s) = inflight s @ call_of e"
  by (cases e) auto

lemma inflight_run_effects [simp]: "inflight (run_effects es s) = inflight s @ calls es"
  by (induction es arbitrary: s) auto

lemma inflight_react [simp]:
  "inflight (react P r s) = inflight s @ calls (snd r) @ calls (on_deps P (st s) (fst r))"
  by (simp add: react_def)

lemma inflight_mounted [simp]: "inflight (mounted P b) = calls (snd (on_mount P))"
  by (simp add: mounted_def)

fun timer_of :: "'k effect \<Rightarrow> 'k list" where
  "timer_of (Timer k) = [k]"
| "timer_of _ = []"

definition timers_of :: "'k effect list \<Rightarrow> 'k list" where
  "timers_of es = concat (map timer_of es)"

lemma timers_of_simps [simp]:
  "timers_of [] = []" "timers_of (e # es) = timer_of e @ timers_of es"
  "timers_of (es @ fs) = timers_of es @ timers_of fs"
  by (simp_all add: timers_of_def)

lemma timers_run_effect [simp]: "timers (run_effect e s) = timers s @ timer_of e"
  by (cases e) auto

lemma timers_run_effects [simp]: "timers (run_effects es s) = timers s @ timers_of es"
  by (induction es arbitrary: s) auto

lemma timers_react [simp]:
  "timers (react P r s) = timers s @ timers_of (snd r) @ timers_of (on_deps P (st s) (fst r))"
  by (simp add: react_def)

lemma timers_mounted [simp]: "timers (mounted P b) = timers_of (snd (on_mount P))"
  by (simp add: mounted_def)

text \<open>The token changes only through the effects that name it, so a page whose handlers do not
  use them keeps it or loses it to a 401.\<close>

fun keeps_token :: "'k effect \<Rightarrow> bool" where
  "keeps_token (SetToken t) = False"
| "keeps_token RemoveToken = False"
| "keeps_token _ = True"

lemma br_token_fold_send [simp]: "br_token (fold (\<lambda>u. send GET u NoBody) us b) = br_token b"
  by (induction us arbitrary: b) auto

lemma br_token_run_effect: "keeps_token e \<Longrightarrow> br_token (br (run_effect e s)) = br_token (br s)"
  by (cases e) auto

lemma br_token_run_effects:
  "list_all keeps_token es \<Longrightarrow> br_token (br (run_effects es s)) = br_token (br s)"
  by (induction es arbitrary: s) (auto simp: br_token_run_effect)

section \<open>Invariants of a page\<close>

text \<open>
  An invariant is a predicate on the component state and the pending calls that mounting
  establishes and every handler keeps. The locale proves once that it then holds in every
  session the page reaches; each page interprets it with its own invariant.
\<close>

locale page_invariant =
  fixes P :: "('s, 'c, 'f, 'k, 'p) page"
    and I :: "'s \<Rightarrow> 'k list \<Rightarrow> bool"
  assumes init: "I (fst (on_mount P)) (calls (snd (on_mount P)))"
    and clicked: "I s ks \<Longrightarrow> c \<in> set (clicks (view P e s)) \<Longrightarrow> on_click P e c s = (s', es) \<Longrightarrow>
      I s' (ks @ calls es @ calls (on_deps P s s'))"
    and changed: "I s ks \<Longrightarrow> accepts (view P e s) f v \<Longrightarrow> on_change P f v s = (s', es) \<Longrightarrow>
      I s' (ks @ calls es @ calls (on_deps P s s'))"
    and answered: "I s ks \<Longrightarrow> k \<in> set ks \<Longrightarrow> on_ok P e k p s = (s', es) \<Longrightarrow>
      I s' (remove1 k ks @ calls es @ calls (on_deps P s s'))"
    and failed: "I s ks \<Longrightarrow> k \<in> set ks \<Longrightarrow> on_fail P e k x s = (s', es) \<Longrightarrow>
      I s' (remove1 k ks @ calls es @ calls (on_deps P s s'))"
    and fired: "I s ks \<Longrightarrow> on_timer P k s = (s', es) \<Longrightarrow>
      I s' (ks @ calls es @ calls (on_deps P s s'))"
begin

lemma perform_keeps:
  assumes "I (st s) (inflight s)" and "perform P e x s = Some s'"
  shows "I (st s') (inflight s')"
proof (cases x)
  case (Click c)
  with assms show ?thesis
    by (cases "on_click P e c (st s)") (auto split: if_splits dest: clicked)
next
  case (Change f v)
  with assms show ?thesis
    by (cases "on_change P f v (st s)") (auto split: if_splits dest: changed)
next
  case (Ok k p)
  with assms show ?thesis
    by (cases "on_ok P e k p (st s)") (auto split: if_splits dest: answered)
next
  case (Fail k a)
  with assms show ?thesis
    by (cases "on_fail P e k a (st s)") (auto split: if_splits dest: failed)
next
  case (Fire k)
  with assms show ?thesis
    by (cases "on_timer P k (st s)") (auto split: if_splits dest: fired)
qed

lemma reaches_inv: "reaches P s \<Longrightarrow> I (st s) (inflight s)"
proof (induction rule: reaches.induct)
  case (mount b)
  show ?case using init by simp
next
  case (event s e x s')
  then show ?case by (blast intro: perform_keeps)
qed

end

end
