(* ===== verification/Blueprint.thy ===== *)
theory Blueprint
  imports JsonText Schemas
begin

text \<open>
  Workflow blueprints as the two editors turn them into the payload of \<open>POST workflows/\<close>:
  \<open>handleCreateWorkflow\<close> of \<open>frontend/src/app/workflows/page.tsx\<close> and the JSON mode of
  \<open>handleSubmit\<close> of \<open>frontend/src/app/admin/workflows/create/page.tsx\<close>. The text is parsed to an
  untyped value, so every read of a property may throw.
\<close>

section \<open>Default blueprints\<close>

definition blueprint_step :: "string \<Rightarrow> string \<Rightarrow> nat \<Rightarrow> (string \<times> json) list \<Rightarrow> json" where
  "blueprint_step name role order extra = JObj ([(''name'', JStr name), (''role'', JStr role),
     (''order'', JNum (of_nat order)), (''sla'', JNum 24)] @ extra)"

definition protocol_name :: "nat \<Rightarrow> string" where
  "protocol_name r = ''NEW_PROTOCOL_'' @ show_nat r"

definition defaultBlueprint :: "nat \<Rightarrow> json" where
  "defaultBlueprint r = JObj [(''name'', JStr (protocol_name r)),
     (''description'', JStr ''Enterprise-grade orchestration logic.''),
     (''steps'', JArr [blueprint_step ''Initiation'' ''user'' 1 [],
        blueprint_step ''Verification'' ''manager'' 2 [],
        blueprint_step ''Final Authorization'' ''admin'' 3 []])]"

definition wizard_template :: "nat \<Rightarrow> json" where
  "wizard_template r = JObj [(''name'', JStr (protocol_name r)),
     (''description'', JStr ''High-integrity orchestration blueprint.''),
     (''steps'', JArr [
        blueprint_step ''Initiation'' ''user'' 1 [(''description'', JStr ''Initial data entry node'')],
        blueprint_step ''Verification'' ''manager'' 2 [(''description'', JStr ''Compliance check'')],
        blueprint_step ''Final Authorization'' ''admin'' 3 [(''description'', JStr ''Executive sign-off'')]])]"

section \<open>Finding the role of a step\<close>

text \<open>\<open>roles.find(r => r.name.toLowerCase() === s.role.toLowerCase())\<close>: the step is read once per
  role that is tried.\<close>

fun find_role :: "role_out list \<Rightarrow> json \<Rightarrow> js_error + role_out option" where
  "find_role [] s = Inr None"
| "find_role (r # rs) s = and_then (js_prop ''role'' (Some s)) (\<lambda>v. and_then (js_to_lower v)
     (\<lambda>l. if l = Some (JStr (to_lower (role_name r))) then Inr (Some r) else find_role rs s))"

text \<open>The other editor: \<open>r.name.toLowerCase() === s.role?.toLowerCase() || r.id === s.role_id\<close>.\<close>

fun find_role_or_id :: "role_out list \<Rightarrow> json \<Rightarrow> js_error + role_out option" where
  "find_role_or_id [] s = Inr None"
| "find_role_or_id (r # rs) s = and_then (js_prop ''role'' (Some s)) (\<lambda>v. and_then (js_opt_to_lower v)
     (\<lambda>l. if l = Some (JStr (to_lower (role_name r))) then Inr (Some r)
          else and_then (js_prop ''role_id'' (Some s)) (\<lambda>i.
            if i = Some (JStr (role_id r)) then Inr (Some r) else find_role_or_id rs s)))"

section \<open>Steps and transitions\<close>

text \<open>A formatted step; \<open>None\<close> is \<open>undefined\<close>, a key that is not sent.\<close>

record formatted_step =
  fs_name :: "json option"
  fs_description :: "json option"
  fs_order :: "json option"
  fs_sla :: "json option"
  fs_role :: "json option"

definition format_step :: "(json \<Rightarrow> js_error + role_out option) \<Rightarrow> json \<Rightarrow> js_error + formatted_step" where
  "format_step lookup_role s = and_then (lookup_role s) (\<lambda>role.
     and_then (js_prop ''name'' (Some s)) (\<lambda>n. and_then (js_prop ''description'' (Some s)) (\<lambda>d.
     and_then (js_prop ''order'' (Some s)) (\<lambda>k. and_then (js_prop ''sla'' (Some s)) (\<lambda>sla.
       Inr \<lparr>fs_name = n, fs_description = js_or d (Some (JStr '''')), fs_order = k,
         fs_sla = js_or sla (Some (JNum 24)),
         fs_role = Some (case role of None \<Rightarrow> JNull | Some r \<Rightarrow> JStr (role_id r))\<rparr>)))))"

definition step_json :: "formatted_step \<Rightarrow> json" where
  "step_json f = js_object [(''name'', fs_name f), (''description'', fs_description f),
     (''step_order'', fs_order f), (''sla_hours'', fs_sla f), (''required_role_id'', fs_role f),
     (''is_conditional'', Some (JBool False))]"

definition transition_json :: "json option \<Rightarrow> json option \<Rightarrow> string \<Rightarrow> json" where
  "transition_json f t out = js_object [(''from_step_order'', f), (''to_step_order'', t), (''outcome'', Some (JStr out))]"

fun linear_transitions :: "formatted_step list \<Rightarrow> json list" where
  "linear_transitions [] = []"
| "linear_transitions [f] = [transition_json (fs_order f) (Some JNull) ''APPROVED'']"
| "linear_transitions (f # g # fs) =
     transition_json (fs_order f) (fs_order g) ''APPROVED'' # linear_transitions (g # fs)"

text \<open>From the parsed text to the payload.\<close>

definition blueprint_payload :: "(json \<Rightarrow> js_error + role_out option) \<Rightarrow> json \<Rightarrow> js_error + json" where
  "blueprint_payload lookup_role data =
     and_then (js_prop ''steps'' (Some data)) (\<lambda>v. and_then (js_array v) (\<lambda>ss.
     and_then (map_results (format_step lookup_role) ss) (\<lambda>fs.
     and_then (js_prop ''name'' (Some data)) (\<lambda>n. and_then (js_prop ''description'' (Some data)) (\<lambda>d.
       Inr (js_object [(''name'', n), (''description'', d), (''is_active'', Some (JBool True)),
         (''steps'', Some (JArr (map step_json fs))),
         (''transitions'', Some (JArr (linear_transitions fs)))]))))))"

section \<open>Adding a step to the text\<close>

text \<open>\<open>{...v}\<close>, \<open>[...v]\<close>: an object's entries, an array's elements under their indices, a
  string's characters; only arrays and strings are iterable.\<close>

definition js_spread :: "json \<Rightarrow> (string \<times> json) list" where
  "js_spread v = (case v of JObj kvs \<Rightarrow> kvs
     | JArr xs \<Rightarrow> map (\<lambda>(i, x). (show_nat i, x)) (enumerate 0 xs)
     | JStr s \<Rightarrow> map (\<lambda>(i, c). (show_nat i, JStr [c])) (enumerate 0 s)
     | _ \<Rightarrow> [])"

definition js_iterate :: "json option \<Rightarrow> js_error + json list" where
  "js_iterate v = (case v of Some (JArr xs) \<Rightarrow> Inr xs | Some (JStr s) \<Rightarrow> Inr (map (\<lambda>c. JStr [c]) s)
     | _ \<Rightarrow> Inl TypeError)"

text \<open>The new step takes the number of the steps plus one; what has a length but is not iterable
  throws at the spread, so its length is never used.\<close>

definition add_blueprint_step :: "string \<Rightarrow> string \<Rightarrow> rat \<Rightarrow> json \<Rightarrow> js_error + json" where
  "add_blueprint_step name role sla current =
     and_then (js_prop ''steps'' (Some current)) (\<lambda>v.
     and_then (js_iterate (js_or v (Some (JArr [])))) (\<lambda>ss.
       Inr (JObj (set_key ''steps'' (JArr (ss @ [JObj [(''name'', JStr name), (''role'', JStr role),
         (''order'', JNum (of_nat (length ss + 1))), (''sla'', JNum sla)]])) (js_spread current)))))"

section \<open>Lemmas\<close>

lemma linear_transitions_length: "length (linear_transitions fs) = length fs"
  by (induction fs rule: linear_transitions.induct) simp_all

lemma linear_transitions_nth:
  "i < length fs \<Longrightarrow> linear_transitions fs ! i = transition_json (fs_order (fs ! i))
     (if i + 1 < length fs then fs_order (fs ! (i + 1)) else Some JNull) ''APPROVED''"
proof (induction fs arbitrary: i rule: linear_transitions.induct)
  case (3 f g fs)
  then show ?case by (cases i) simp_all
qed simp_all

lemma printable_default: "printable (defaultBlueprint r)" "printable (wizard_template r)"
  by (simp_all add: defaultBlueprint_def wizard_template_def blueprint_step_def)

text \<open>A step that names its role by a string, in any case, finds the first role of that name; one
  that names none of them finds none.\<close>

lemma find_role_find:
  "map_of kvs ''role'' = Some (JStr n) \<Longrightarrow>
   find_role rs (JObj kvs) = Inr (find (\<lambda>r. to_lower (role_name r) = to_lower n) rs)"
  by (induction rs) auto

text \<open>A service level of zero hours cannot be stated in a blueprint: \<open>s.sla || 24\<close> sends 24 hours
  for it, exactly as for a step that states none.\<close>

lemma zero_sla_becomes_default:
  assumes "map_of kvs ''role'' = Some (JStr n)"
    and "map_of kvs ''sla'' \<in> {None, Some (JNum 0)}"
  shows "\<exists>f. format_step (find_role rs) (JObj kvs) = Inr f \<and> fs_sla f = Some (JNum 24)"
  using assms by (auto simp: format_step_def find_role_find js_or_def)

section \<open>What a payload says of its blueprint\<close>

text \<open>The payload is read field by field and compared with the blueprint, whatever way it was built.\<close>

definition field :: "string \<Rightarrow> json \<Rightarrow> json option" where
  "field k v = (case v of JObj kvs \<Rightarrow> map_of kvs k | _ \<Rightarrow> None)"

text \<open>The role of a step, by its name in any case, or also by its identifier; and the steps whose role can be
  looked up without an exception.\<close>

definition role_named :: "json \<Rightarrow> role_out \<Rightarrow> bool" where
  "role_named s r = (case field ''role'' s of Some (JStr n) \<Rightarrow> to_lower n = to_lower (role_name r) | _ \<Rightarrow> False)"

definition role_identified :: "json \<Rightarrow> role_out \<Rightarrow> bool" where
  "role_identified s r \<longleftrightarrow> role_named s r \<or> field ''role_id'' s = Some (JStr (role_id r))"

definition text_role :: "json \<Rightarrow> bool" where
  "text_role s = (case field ''role'' s of Some (JStr n) \<Rightarrow> True | _ \<Rightarrow> False)"

definition text_role_or_none :: "json \<Rightarrow> bool" where
  "text_role_or_none s = (case field ''role'' s of None \<Rightarrow> True | Some JNull \<Rightarrow> True | Some (JStr n) \<Rightarrow> True | _ \<Rightarrow> False)"

definition step_sent :: "(json \<Rightarrow> role_out \<Rightarrow> bool) \<Rightarrow> role_out list \<Rightarrow> json \<Rightarrow> json \<Rightarrow> bool" where
  "step_sent is_role roles s q \<longleftrightarrow> field ''name'' q = field ''name'' s \<and>
     field ''description'' q = js_or (field ''description'' s) (Some (JStr '''')) \<and>
     field ''step_order'' q = field ''order'' s \<and> field ''sla_hours'' q = js_or (field ''sla'' s) (Some (JNum 24)) \<and>
     field ''required_role_id'' q = Some (case find (is_role s) roles of None \<Rightarrow> JNull | Some r \<Rightarrow> JStr (role_id r)) \<and>
     field ''is_conditional'' q = Some (JBool False)"

text \<open>Transition \<open>t\<close> leads from step \<open>i\<close> on approval to the next one, or to the end.\<close>

definition transition_sent :: "json list \<Rightarrow> nat \<Rightarrow> json \<Rightarrow> bool" where
  "transition_sent ss i t \<longleftrightarrow> field ''from_step_order'' t = field ''order'' (ss ! i) \<and>
     field ''to_step_order'' t = (if Suc i < length ss then field ''order'' (ss ! Suc i) else Some JNull) \<and>
     field ''outcome'' t = Some (JStr ''APPROVED'')"

definition payload_sent :: "(json \<Rightarrow> role_out \<Rightarrow> bool) \<Rightarrow> role_out list \<Rightarrow> json \<Rightarrow> json \<Rightarrow> bool" where
  "payload_sent is_role roles data p \<longleftrightarrow> field ''name'' p = field ''name'' data \<and>
     field ''description'' p = field ''description'' data \<and> field ''is_active'' p = Some (JBool True) \<and>
     (case (field ''steps'' data, field ''steps'' p, field ''transitions'' p) of
        (Some (JArr ss), Some (JArr qs), Some (JArr ts)) \<Rightarrow>
          list_all2 (step_sent is_role roles) ss qs \<and> length ts = length ss \<and>
          list_all (\<lambda>(i, t). transition_sent ss i t) (enumerate 0 ts)
      | _ \<Rightarrow> False)"

text \<open>A blueprint that can be sent: an object with a list of steps, of which none is \<open>null\<close> and, when there is
  a role to try, the role of each can be looked up.\<close>

definition blueprint_ok :: "(json \<Rightarrow> bool) \<Rightarrow> role_out list \<Rightarrow> json \<Rightarrow> bool" where
  "blueprint_ok readable roles data = (case field ''steps'' data of
     Some (JArr ss) \<Rightarrow> list_all (\<lambda>s. s \<noteq> JNull \<and> (roles = [] \<or> readable s)) ss | _ \<Rightarrow> False)"

lemma field_object: "distinct (map fst kvs) \<Longrightarrow> field k (js_object kvs) = (case map_of kvs k of None \<Rightarrow> None | Some v \<Rightarrow> v)"
proof (induction kvs)
  case (Cons p kvs)
  obtain j v where p: "p = (j, v)" by (cases p)
  have n: "map_of kvs j = None" using Cons.prems by (simp add: p map_of_eq_None_iff)
  obtain r where r: "js_object kvs = JObj r" by (simp add: js_object_def)
  with Cons n show ?case by (cases v) (auto simp: p field_def)
qed (simp add: field_def)

lemma js_prop_field: "js_prop k (Some v) = (if v = JNull then Inl TypeError else Inr (field k v))"
  by (cases v) (simp_all add: field_def)

lemma step_sent_json:
  "step_sent is_role roles s (step_json f) \<longleftrightarrow> fs_name f = field ''name'' s \<and>
     fs_description f = js_or (field ''description'' s) (Some (JStr '''')) \<and> fs_order f = field ''order'' s \<and>
     fs_sla f = js_or (field ''sla'' s) (Some (JNum 24)) \<and>
     fs_role f = Some (case find (is_role s) roles of None \<Rightarrow> JNull | Some r \<Rightarrow> JStr (role_id r))"
  by (simp add: step_sent_def step_json_def field_object)

lemma transition_sent_json:
  "transition_sent ss i (transition_json a b out) \<longleftrightarrow> a = field ''order'' (ss ! i) \<and>
     b = (if Suc i < length ss then field ''order'' (ss ! Suc i) else Some JNull) \<and> out = ''APPROVED''"
  by (simp add: transition_sent_def transition_json_def field_object)

text \<open>The lookups of both editors, and what they share.\<close>

locale role_lookup =
  fixes lookup :: "role_out list \<Rightarrow> json \<Rightarrow> js_error + role_out option" and is_role :: "json \<Rightarrow> role_out \<Rightarrow> bool"
    and readable :: "json \<Rightarrow> bool"
  assumes lookup_run: "s \<noteq> JNull \<Longrightarrow>
    lookup roles s = (if roles = [] \<or> readable s then Inr (find (is_role s) roles) else Inl TypeError)"
begin

lemma format_step_null [simp]: "\<exists>err. format_step (lookup roles) JNull = Inl err"
  by (cases "lookup roles JNull") (simp_all add: format_step_def)

lemma format_step_run:
  "s \<noteq> JNull \<Longrightarrow> format_step (lookup roles) s = (if roles = [] \<or> readable s
     then Inr \<lparr>fs_name = field ''name'' s, fs_description = js_or (field ''description'' s) (Some (JStr '''')),
       fs_order = field ''order'' s, fs_sla = js_or (field ''sla'' s) (Some (JNum 24)),
       fs_role = Some (case find (is_role s) roles of None \<Rightarrow> JNull | Some r \<Rightarrow> JStr (role_id r))\<rparr>
     else Inl TypeError)"
  by (simp add: format_step_def lookup_run js_prop_field)

lemma format_step_Inr:
  "format_step (lookup roles) s = Inr f \<Longrightarrow> s \<noteq> JNull \<and> (roles = [] \<or> readable s) \<and>
    fs_order f = field ''order'' s \<and> step_sent is_role roles s (step_json f)"
  using format_step_null [of roles] by (cases "s = JNull") (auto simp: format_step_run step_sent_json split: if_splits)

lemma format_steps_Inl:
  "map_results (format_step (lookup roles)) ss = Inl err \<Longrightarrow> \<not> list_all (\<lambda>s. s \<noteq> JNull \<and> (roles = [] \<or> readable s)) ss"
proof
  assume err: "map_results (format_step (lookup roles)) ss = Inl err" and ok: "list_all (\<lambda>s. s \<noteq> JNull \<and> (roles = [] \<or> readable s)) ss"
  define sent where "sent = (\<lambda>s. \<lparr>fs_name = field ''name'' s, fs_description = js_or (field ''description'' s) (Some (JStr '''')),
       fs_order = field ''order'' s, fs_sla = js_or (field ''sla'' s) (Some (JNum 24)),
       fs_role = Some (case find (is_role s) roles of None \<Rightarrow> JNull | Some r \<Rightarrow> JStr (role_id r))\<rparr>)"
  have "map_results (format_step (lookup roles)) ss = Inr (map sent ss)"
    by (rule map_results_Inr) (use ok in \<open>auto simp: list_all_iff format_step_run sent_def\<close>)
  with err show False by simp
qed

lemma format_steps_Inr:
  assumes "map_results (format_step (lookup roles)) ss = Inr fs"
  shows "list_all (\<lambda>s. s \<noteq> JNull \<and> (roles = [] \<or> readable s)) ss \<and>
    list_all2 (step_sent is_role roles) ss (map step_json fs) \<and> map fs_order fs = map (field ''order'') ss"
proof -
  have l: "length fs = length ss" by (rule map_results_length [OF assms])
  have "format_step (lookup roles) (ss ! i) = Inr (fs ! i)" if "i < length ss" for i
    using map_results_nth [OF assms] that by simp
  note f = format_step_Inr [OF this]
  then show ?thesis
    using l by (auto simp: list_all_length list_all2_conv_all_nth intro: nth_equalityI)
qed

text \<open>The payload of a blueprint, on every branch.\<close>

lemma blueprint_payload_run:
  "case blueprint_payload (lookup roles) data of
     Inl err \<Rightarrow> \<not> blueprint_ok readable roles data
   | Inr p \<Rightarrow> blueprint_ok readable roles data \<and> payload_sent is_role roles data p"
proof (cases "\<exists>ss. field ''steps'' data = Some (JArr ss)")
  case False
  then have "\<exists>err. and_then (js_prop ''steps'' (Some data)) js_array = Inl err"
    by (cases "field ''steps'' data" rule: js_array.cases) (auto simp: js_prop_field)
  then obtain err where "blueprint_payload (lookup roles) data = Inl err"
    by (cases "js_prop ''steps'' (Some data)") (auto simp: blueprint_payload_def)
  moreover have "\<not> blueprint_ok readable roles data" using False by (auto simp: blueprint_ok_def split: option.split json.split)
  ultimately show ?thesis by simp
next
  case True
  then obtain ss where s: "field ''steps'' data = Some (JArr ss)" by blast
  then have d: "data \<noteq> JNull" by (auto simp: field_def)
  show ?thesis
  proof (cases "map_results (format_step (lookup roles)) ss")
    case (Inl err)
    then show ?thesis using format_steps_Inl [OF Inl] s d by (simp add: blueprint_payload_def js_prop_field blueprint_ok_def)
  next
    case (Inr fs)
    note f = format_steps_Inr [OF Inr]
    have l: "length fs = length ss" by (rule map_results_length [OF Inr])
    have o: "fs_order (fs ! i) = field ''order'' (ss ! i)" if "i < length ss" for i
      using arg_cong [OF conjunct2 [OF conjunct2 [OF f]], of "\<lambda>xs. xs ! i"] that l by simp
    have "list_all (\<lambda>(i, t). transition_sent ss i t) (enumerate 0 (linear_transitions fs))"
      using l o by (auto simp: list_all_length nth_enumerate_eq linear_transitions_length linear_transitions_nth transition_sent_json)
    moreover have "length (linear_transitions fs) = length ss" by (simp add: l linear_transitions_length)
    moreover have "blueprint_payload (lookup roles) data = Inr (js_object [(''name'', field ''name'' data), (''description'', field ''description'' data),
        (''is_active'', Some (JBool True)), (''steps'', Some (JArr (map step_json fs))), (''transitions'', Some (JArr (linear_transitions fs)))])"
      using s d Inr by (simp add: blueprint_payload_def js_prop_field del: js_object_Some)
    ultimately show ?thesis
      using s conjunct1 [OF f] conjunct1 [OF conjunct2 [OF f]]
      by (simp add: blueprint_ok_def payload_sent_def field_object del: js_object_Some)
  qed
qed

end

lemma find_role_run: "s \<noteq> JNull \<Longrightarrow>
    find_role roles s = (if roles = [] \<or> text_role s then Inr (find (role_named s) roles) else Inl TypeError)"
proof (induction roles)
  case (Cons r rs)
  then show ?case
    by (cases "field ''role'' s" rule: js_to_lower.cases) (auto simp: js_prop_field text_role_def role_named_def)
qed simp

interpretation by_name: role_lookup find_role role_named text_role
  by unfold_locales (rule find_role_run)

lemma find_role_or_id_run: "s \<noteq> JNull \<Longrightarrow>
    find_role_or_id roles s = (if roles = [] \<or> text_role_or_none s then Inr (find (role_identified s) roles) else Inl TypeError)"
proof (induction roles)
  case (Cons r rs)
  then show ?case
    by (cases "field ''role'' s" rule: js_opt_to_lower.cases)
      (auto simp: js_prop_field text_role_or_none_def role_identified_def role_named_def)
qed simp

interpretation by_name_or_id: role_lookup find_role_or_id role_identified text_role_or_none
  by unfold_locales (rule find_role_or_id_run)

end
