(* ===== verification/CreateWorkflowPage.thy ===== *)
theory CreateWorkflowPage
  imports Runtime Blueprint
begin

text \<open>
  The workflow constructor, \<open>frontend/src/app/admin/workflows/create/page.tsx\<close>: a wizard in three
  steps (identity, execution nodes, confirmation), which generates a linear approval chain, and a
  JSON editor. Both modes end in \<open>POST workflows/\<close>.
\<close>

section \<open>State\<close>

record wizard_step =
  ws_tempId :: string
  ws_name :: string
  ws_description :: string
  ws_step_order :: nat
  ws_sla_hours :: nat
  ws_required_role_id :: "uuid option"
  ws_required_permission_id :: "uuid option"
  ws_is_conditional :: bool

record wizard_transition =
  wt_from :: string
  wt_to :: "string option"       \<comment> \<open>\<open>undefined\<close> means the end\<close>
  wt_outcome :: string

datatype wizard_mode = Wizard | Source

record wizard_state =
  wz_step :: nat
  wz_mode :: wizard_mode
  wz_isSubmitting :: bool
  wz_name :: string
  wz_description :: string
  wz_workflowSteps :: "wizard_step list"
  wz_transitions :: "wizard_transition list"
  wz_jsonSource :: string
  wz_roles :: "role_out list"
  wz_permissions :: "permission_out list"

definition wizard_init :: wizard_state where
  "wizard_init = \<lparr>wz_step = 1, wz_mode = Wizard, wz_isSubmitting = False, wz_name = '''',
     wz_description = '''', wz_workflowSteps = [], wz_transitions = [], wz_jsonSource = '''',
     wz_roles = [], wz_permissions = []\<rparr>"

datatype wizard_action = SetMode wizard_mode | InsertRole role_out | AddNode | RemoveNode nat
  | Back | Continue | Submit
datatype wizard_field = SourceField | NameField | DescriptionField
  | NodeName nat | NodeRole nat | NodeDescription nat
datatype wizard_call = FetchMetadata | PostWorkflow
datatype wizard_payload = Metadata "role_out list" "permission_out list" | WorkflowCreated

type_synonym wizard_reaction = "(wizard_state, wizard_call) reaction"

definition wizard_mount :: wizard_reaction where
  "wizard_mount = (wizard_init, [CallAll FetchMetadata [''roles/'', ''permissions/'']])"

section \<open>Steps management\<close>

definition addStep :: "js_env \<Rightarrow> wizard_state \<Rightarrow> wizard_state" where
  "addStep e s = s\<lparr>wz_workflowSteps := wz_workflowSteps s @
     [\<lparr>ws_tempId = env_randid e, ws_name = ''Step '' @ show_nat (length (wz_workflowSteps s) + 1),
       ws_description = '''', ws_step_order = length (wz_workflowSteps s) + 1, ws_sla_hours = 24,
       ws_required_role_id = None, ws_required_permission_id = None, ws_is_conditional = False\<rparr>]\<rparr>"

text \<open>\<open>newSteps.forEach((s, i) => s.step_order = i + 1)\<close>.\<close>

definition renumber :: "wizard_step list \<Rightarrow> wizard_step list" where
  "renumber ss = map (\<lambda>(i, s). s\<lparr>ws_step_order := i + 1\<rparr>) (enumerate 0 ss)"

definition removeStep :: "nat \<Rightarrow> wizard_state \<Rightarrow> wizard_state" where
  "removeStep i s = s\<lparr>wz_workflowSteps :=
     renumber (take i (wz_workflowSteps s) @ drop (i + 1) (wz_workflowSteps s))\<rparr>"

text \<open>\<open>updateStep(index, field, value)\<close>; the view calls it only with the index of a rendered node
  (an index outside the list would extend the array in JavaScript).\<close>

definition updateStep :: "nat \<Rightarrow> (wizard_step \<Rightarrow> wizard_step) \<Rightarrow> wizard_state \<Rightarrow> wizard_state" where
  "updateStep i f s = s\<lparr>wz_workflowSteps := (wz_workflowSteps s)[i := f (wz_workflowSteps s ! i)]\<rparr>"

fun default_transitions :: "wizard_step list \<Rightarrow> wizard_transition list" where
  "default_transitions [] = []"
| "default_transitions (c # ss) =
     [\<lparr>wt_from = ws_tempId c, wt_to = (case ss of [] \<Rightarrow> None | n # _ \<Rightarrow> Some (ws_tempId n)), wt_outcome = ''APPROVED''\<rparr>,
      \<lparr>wt_from = ws_tempId c, wt_to = None, wt_outcome = ''REJECTED''\<rparr>] @ default_transitions ss"

definition generateDefaultTransitions :: "wizard_state \<Rightarrow> wizard_state" where
  "generateDefaultTransitions s = s\<lparr>wz_transitions := default_transitions (wz_workflowSteps s)\<rparr>"

section \<open>Inserting a role into the source\<close>

text \<open>\<open>jsonSource.replace(/("role":\s*")[^"]*(")/, `$1${r.name.toLowerCase()}$2`)\<close>: the first match
  is replaced by the template, in which the dollar patterns of \<open>String.replace\<close> are expanded (a role
  name may hold some).\<close>

definition role_key :: string where
  "role_key = [CHR 0x22] @ ''role'' @ [CHR 0x22, CHR '':'']"

text \<open>A match at the start of the text: first group, the part between the groups, what follows.\<close>

definition match_role :: "string \<Rightarrow> (string \<times> string \<times> string) option" where
  "match_role s =
     (if take (length role_key) s \<noteq> role_key then None
      else let r = drop (length role_key) s; sp = takeWhile is_space r; q = dropWhile is_space r
           in if q = '''' \<or> hd q \<noteq> CHR 0x22 then None
              else let v = takeWhile (\<lambda>c. c \<noteq> CHR 0x22) (tl q); z = dropWhile (\<lambda>c. c \<noteq> CHR 0x22) (tl q)
                   in if z = '''' then None else Some (role_key @ sp @ [CHR 0x22], v, tl z))"

fun find_match :: "string \<Rightarrow> string \<Rightarrow> (string \<times> string \<times> string \<times> string) option" where
  "find_match before [] = None"
| "find_match before (c # s) = (case match_role (c # s) of
     Some (g, v, after) \<Rightarrow> Some (before, g, v, after)
   | None \<Rightarrow> find_match (before @ [c]) s)"

text \<open>The substitution of a replacement template: \<open>$$\<close>, \<open>$&\<close>, \<open>$`\<close>, \<open>$'\<close>, \<open>$n\<close> and \<open>$nn\<close> (two groups).\<close>

definition group_ref :: "string \<Rightarrow> string \<Rightarrow> string \<Rightarrow> (string \<times> nat) option" where
  "group_ref g1 g2 s =
     (let one = (if s \<noteq> '''' \<and> is_digit (hd s) then Some (digit_value (hd s)) else None);
          two = (if length s \<ge> 2 \<and> is_digit (hd s) \<and> is_digit (s ! 1)
                 then Some (10 * digit_value (hd s) + digit_value (s ! 1)) else None)
      in if two = Some 1 then Some (g1, 2) else if two = Some 2 then Some (g2, 2)
         else if one = Some 1 then Some (g1, 1) else if one = Some 2 then Some (g2, 1) else None)"

function expand_template :: "string \<Rightarrow> string \<Rightarrow> string \<Rightarrow> string \<Rightarrow> string \<Rightarrow> string \<Rightarrow> string" where
  "expand_template b m a g1 g2 [] = []"
| "expand_template b m a g1 g2 (c # s) =
     (if c \<noteq> CHR ''$'' \<or> s = '''' then c # expand_template b m a g1 g2 s
      else if hd s = CHR ''$'' then CHR ''$'' # expand_template b m a g1 g2 (tl s)
      else if hd s = CHR ''&'' then m @ expand_template b m a g1 g2 (tl s)
      else if hd s = CHR 0x60 then b @ expand_template b m a g1 g2 (tl s)
      else if hd s = CHR 0x27 then a @ expand_template b m a g1 g2 (tl s)
      else case group_ref g1 g2 s of
        Some (g, n) \<Rightarrow> g @ expand_template b m a g1 g2 (drop n s)
      | None \<Rightarrow> c # expand_template b m a g1 g2 s)"
  by pat_completeness auto
termination by (relation "measure (\<lambda>(b, m, a, g1, g2, s). length s)") auto

definition insert_role :: "string \<Rightarrow> string \<Rightarrow> string" where
  "insert_role name s = (case find_match '''' s of
     None \<Rightarrow> s
   | Some (b, g, v, a) \<Rightarrow>
       b @ expand_template b (g @ v @ [CHR 0x22]) a g [CHR 0x22] (''$1'' @ to_lower name @ ''$2'') @ a)"

section \<open>Submitting\<close>

definition wizard_step_json :: "wizard_step \<Rightarrow> json" where
  "wizard_step_json s = JObj [(''name'', JStr (ws_name s)), (''description'', JStr (ws_description s)),
     (''step_order'', JNum (of_nat (ws_step_order s))), (''sla_hours'', JNum (of_nat (ws_sla_hours s))),
     (''required_role_id'', case ws_required_role_id s of None \<Rightarrow> JNull | Some r \<Rightarrow> if r = '''' then JNull else JStr r),
     (''required_permission_id'', case ws_required_permission_id s of None \<Rightarrow> JNull | Some p \<Rightarrow> if p = '''' then JNull else JStr p),
     (''is_conditional'', JBool (ws_is_conditional s))]"

definition order_of :: "wizard_step list \<Rightarrow> string option \<Rightarrow> json option" where
  "order_of ss t = map_option (\<lambda>s. JNum (of_nat (ws_step_order s))) (find (\<lambda>s. Some (ws_tempId s) = t) ss)"

definition format_transition :: "wizard_step list \<Rightarrow> wizard_transition \<Rightarrow> json" where
  "format_transition ss t = transition_json (order_of ss (Some (wt_from t))) (order_of ss (wt_to t)) (wt_outcome t)"

definition wizard_body :: "wizard_state \<Rightarrow> json" where
  "wizard_body s = JObj [(''name'', JStr (wz_name s)), (''description'', JStr (wz_description s)),
     (''is_active'', JBool True), (''steps'', JArr (map wizard_step_json (wz_workflowSteps s))),
     (''transitions'', JArr (map (format_transition (wz_workflowSteps s)) (wz_transitions s)))]"

definition final_payload :: "wizard_state \<Rightarrow> js_error + json" where
  "final_payload s = (case wz_mode s of
     Source \<Rightarrow> and_then (JSON_parse (wz_jsonSource s)) (blueprint_payload (find_role_or_id (wz_roles s)))
   | Wizard \<Rightarrow> Inr (wizard_body s))"

definition validation_error :: "string \<Rightarrow> string" where
  "validation_error m = ''Validation Error: '' @ m"

definition handleSubmit :: "js_env \<Rightarrow> wizard_state \<Rightarrow> wizard_reaction" where
  "handleSubmit e s = (case final_payload s of
     Inl err \<Rightarrow> (s\<lparr>wz_isSubmitting := False\<rparr>, [Alert (validation_error (env_errmsg e err))])
   | Inr p \<Rightarrow> (s\<lparr>wz_isSubmitting := True\<rparr>, [Call PostWorkflow POST ''workflows/'' (JsonBody p)]))"

definition nextStep :: "wizard_state \<Rightarrow> wizard_reaction" where
  "nextStep s =
     (if wz_step s = 1 \<and> trim (wz_name s) = '''' then (s, [Alert ''Protocol Identifier is required.''])
      else if wz_step s = 2 \<and> wz_workflowSteps s = [] then (s, [Alert ''At least one execution node is required.''])
      else ((if wz_step s = 2 then generateDefaultTransitions s else s)\<lparr>wz_step := wz_step s + 1\<rparr>, []))"

definition wizard_click :: "js_env \<Rightarrow> wizard_action \<Rightarrow> wizard_state \<Rightarrow> wizard_reaction" where
  "wizard_click e c s = (case c of
     SetMode m \<Rightarrow> (s\<lparr>wz_mode := m\<rparr>, [])
   | InsertRole r \<Rightarrow> (s\<lparr>wz_jsonSource := insert_role (role_name r) (wz_jsonSource s)\<rparr>, [])
   | AddNode \<Rightarrow> (addStep e s, [])
   | RemoveNode i \<Rightarrow> (removeStep i s, [])
   | Back \<Rightarrow> (s\<lparr>wz_step := wz_step s - 1\<rparr>, [])
   | Continue \<Rightarrow> nextStep s
   | Submit \<Rightarrow> handleSubmit e s)"

definition wizard_change :: "wizard_field \<Rightarrow> string \<Rightarrow> wizard_state \<Rightarrow> wizard_reaction" where
  "wizard_change f v s = (case f of
     SourceField \<Rightarrow> (s\<lparr>wz_jsonSource := v\<rparr>, [])
   | NameField \<Rightarrow> (s\<lparr>wz_name := v\<rparr>, [])
   | DescriptionField \<Rightarrow> (s\<lparr>wz_description := v\<rparr>, [])
   | NodeName i \<Rightarrow> (updateStep i (\<lambda>w. w\<lparr>ws_name := v\<rparr>) s, [])
   | NodeRole i \<Rightarrow> (updateStep i (\<lambda>w. w\<lparr>ws_required_role_id := (if v = '''' then None else Some v)\<rparr>) s, [])
   | NodeDescription i \<Rightarrow> (updateStep i (\<lambda>w. w\<lparr>ws_description := v\<rparr>) s, []))"

definition wizard_ok :: "js_env \<Rightarrow> wizard_call \<Rightarrow> wizard_payload \<Rightarrow> wizard_state \<Rightarrow> wizard_reaction" where
  "wizard_ok e k p s = (case (k, p) of
     (FetchMetadata, Metadata rs ps) \<Rightarrow> (s\<lparr>wz_roles := rs, wz_permissions := ps,
        wz_jsonSource := JSON_stringify (wizard_template (env_rand e))\<rparr>, [])
   | (PostWorkflow, _) \<Rightarrow> (s\<lparr>wz_isSubmitting := False\<rparr>, [Push ''/workflows''])
   | _ \<Rightarrow> (s, []))"

definition wizard_fail :: "js_env \<Rightarrow> wizard_call \<Rightarrow> api_failure \<Rightarrow> wizard_state \<Rightarrow> wizard_reaction" where
  "wizard_fail e k x s = (case k of
     FetchMetadata \<Rightarrow> (s, [])
   | PostWorkflow \<Rightarrow> (s\<lparr>wz_isSubmitting := False\<rparr>, [Alert (validation_error (fl_message x))]))"

section \<open>View\<close>

definition mode_style :: "wizard_state \<Rightarrow> wizard_mode \<Rightarrow> string" where
  "mode_style s m = (if wz_mode s = m then ''bg-indigo-500'' else ''text-slate-500'')"

definition wizard_header :: "wizard_state \<Rightarrow> (wizard_action, wizard_field) node" where
  "wizard_header s = Box [
     heading ''Protocol Constructor'' ''Define New Strategy''
       ''Admins define core operational blueprints here. Standard users initialize instances via the Inventory portal.'',
     Sty (mode_style s Wizard) [Btn (SetMode Wizard) False [Ico ''Cpu'', Txt ''Wizard'']],
     Sty (mode_style s Source) [Btn (SetMode Source) False [Ico ''Code'', Txt ''Source'']]]"

definition progress_bar :: "wizard_state \<Rightarrow> (wizard_action, wizard_field) node" where
  "progress_bar s = Box (map (\<lambda>i. Box [
     Sty (if i \<le> wz_step s then ''bg-indigo-500'' else ''bg-white'') [],
     Sty (if i = wz_step s then ''current'' else if i < wz_step s then ''done'' else ''todo'')
       [if i < wz_step s then Ico ''Check'' else Txt (show_nat i)]]) [1, 2, 3])"

definition source_view :: "wizard_state \<Rightarrow> (wizard_action, wizard_field) node" where
  "source_view s = Box [
     Txt ''Blueprint Definition'', Ico ''Info'', Txt ''JSON Strict Schema'',
     Inp SourceField (wz_jsonSource s),
     Txt ''Node Explorer'', Ico ''Search'', Txt ''Available Roles'',
     Box (map (\<lambda>r. Box [Txt (role_name r), Btn (InsertRole r) False [Ico ''ArrowRight'']]) (wz_roles s)),
     Txt ''Linear transitions are synthesized automatically. Ensure order keys are sequential.'']"

definition identity_view :: "wizard_state \<Rightarrow> (wizard_action, wizard_field) node" where
  "identity_view s = Box [Txt ''Protocol Identifier'', Inp NameField (wz_name s),
     Txt ''Strategy Description'', Inp DescriptionField (wz_description s)]"

definition node_view :: "wizard_state \<Rightarrow> nat \<times> wizard_step \<Rightarrow> (wizard_action, wizard_field) node" where
  "node_view s = (\<lambda>(i, w). Box [
     Btn (RemoveNode i) False [Ico ''Trash2''],
     Txt ''Node Name'', Inp (NodeName i) (ws_name w),
     Txt ''Required Authority'',
     Sel (NodeRole i) (case ws_required_role_id w of None \<Rightarrow> '''' | Some r \<Rightarrow> r)
       (('''', ''No Restriction'') # map (\<lambda>r. (role_id r, role_name r)) (wz_roles s)),
     Txt ''Description'', Inp (NodeDescription i) (ws_description w),
     Txt (show_nat (i + 1))])"

definition nodes_view :: "wizard_state \<Rightarrow> (wizard_action, wizard_field) node" where
  "nodes_view s = Box ([Txt ''Execution Nodes'', Btn AddNode False [Ico ''Plus'', Txt ''Add Node''],
     Box (map (node_view s) (enumerate 0 (wz_workflowSteps s)))] @
     show_if (wz_workflowSteps s = []) [Txt ''No execution nodes defined''])"

definition summary_view :: "wizard_state \<Rightarrow> (wizard_action, wizard_field) node" where
  "summary_view s = Box [Ico ''Check'', Txt ''Protocol Matrix Validated'',
     Txt (show_nat (length (wz_workflowSteps s))),
     Txt (JSON_stringify (JObj [(''protocol'', JStr (wz_name s)),
       (''nodes'', JNum (of_nat (length (wz_workflowSteps s)))),
       (''paths'', JNum (of_nat (length (wz_transitions s)))),
       (''topology'', JStr ''LINEAR_OPTIMIZED'')]))]"

definition submit_button :: "wizard_state \<Rightarrow> string \<Rightarrow> string \<Rightarrow> (wizard_action, wizard_field) node" where
  "submit_button s icon label =
     Btn Submit (wz_isSubmitting s) [if wz_isSubmitting s then Spin else Ico icon, Txt label]"

definition wizard_footer :: "wizard_state \<Rightarrow> (wizard_action, wizard_field) node" where
  "wizard_footer s = (case wz_mode s of
     Wizard \<Rightarrow> Box [Btn Back (wz_step s = 1) [Ico ''ArrowLeft'', Txt ''Back''],
       (if wz_step s < 3 then Btn Continue False [Txt ''Continue'', Ico ''ArrowRight'']
        else submit_button s ''Save'' ''Initialize Protocol'')]
   | Source \<Rightarrow> Box [submit_button s ''Plus'' ''Commit Source Blueprint''])"

definition wizard_view :: "js_env \<Rightarrow> wizard_state \<Rightarrow> (wizard_action, wizard_field) node" where
  "wizard_view e s = Box [wizard_header s, progress_bar s,
     (case wz_mode s of
        Source \<Rightarrow> source_view s
      | Wizard \<Rightarrow> Box (show_if (wz_step s = 1) [identity_view s] @ show_if (wz_step s = 2) [nodes_view s] @
                     show_if (wz_step s = 3) [summary_view s])),
     wizard_footer s]"

definition wizard_page :: "(wizard_state, wizard_action, wizard_field, wizard_call, wizard_payload) page" where
  "wizard_page = \<lparr>on_mount = wizard_mount, on_click = wizard_click, on_change = wizard_change,
     on_ok = wizard_ok, on_fail = wizard_fail, on_timer = (\<lambda>_ s. (s, [])),
     on_deps = (\<lambda>_ _. []), view = wizard_view\<rparr>"

lemma wizard_page_simps [simp]:
  "on_mount wizard_page = wizard_mount" "on_click wizard_page = wizard_click"
  "on_change wizard_page = wizard_change" "on_ok wizard_page = wizard_ok"
  "on_fail wizard_page = wizard_fail" "on_timer wizard_page = (\<lambda>_ s. (s, []))"
  "on_deps wizard_page = (\<lambda>_ _. [])" "view wizard_page = wizard_view"
  by (simp_all add: wizard_page_def)

section \<open>What the view offers\<close>

lemma node_view_parts [simp]:
  "clicks (node_view s x) = [RemoveNode (fst x)]"
  "accepts (node_view s x) f v \<longleftrightarrow> f \<in> {NodeName (fst x), NodeDescription (fst x)} \<or>
     f = NodeRole (fst x) \<and> (v = '''' \<or> v \<in> role_id ` set (wz_roles s))"
  by (cases x, simp add: node_view_def) (cases x; cases f; auto simp: node_view_def image_image)

lemma nodes_clicks [simp]:
  "set (clicks (nodes_view s)) = {AddNode} \<union> RemoveNode ` {..<length (wz_workflowSteps s)}"
proof -
  have "fst ` set (enumerate 0 (wz_workflowSteps s)) = {..<length (wz_workflowSteps s)}"
    by (metis atLeast0LessThan atLeastLessThan_upt length_map list.set_map map_fst_enumerate add_0)
  then show ?thesis by (auto simp: nodes_view_def)
qed

lemma wizard_parts_clicks [simp]:
  "set (clicks (wizard_header s)) = {SetMode Wizard, SetMode Source}"
  "clicks (progress_bar s) = []" "clicks (identity_view s) = []" "clicks (summary_view s) = []"
  "set (clicks (source_view s)) = InsertRole ` set (wz_roles s)"
  "set (clicks (submit_button s i l)) = (if wz_isSubmitting s then {} else {Submit})"
  by (auto simp: wizard_header_def progress_bar_def identity_view_def summary_view_def source_view_def
      submit_button_def)

lemma wizard_clicks:
  "set (clicks (wizard_view e s)) = {SetMode Wizard, SetMode Source} \<union> (case wz_mode s of
     Source \<Rightarrow> InsertRole ` set (wz_roles s) \<union> (if wz_isSubmitting s then {} else {Submit})
   | Wizard \<Rightarrow> (if wz_step s = 2 then {AddNode} \<union> RemoveNode ` {..<length (wz_workflowSteps s)} else {}) \<union>
       (if wz_step s = 1 then {} else {Back}) \<union>
       (if wz_step s < 3 then {Continue} else if wz_isSubmitting s then {} else {Submit}))"
  by (cases "wz_mode s") (auto simp: wizard_view_def wizard_footer_def)

lemma wizard_parts_accepts [simp]:
  "accepts (wizard_header s) f v = False" "accepts (progress_bar s) f v = False"
  "accepts (identity_view s) f v \<longleftrightarrow> f \<in> {NameField, DescriptionField}"
  "accepts (nodes_view s) f v = list_ex (\<lambda>x. accepts (node_view s x) f v) (enumerate 0 (wz_workflowSteps s))"
  "accepts (summary_view s) f v = False" "accepts (source_view s) f v \<longleftrightarrow> f = SourceField"
  "accepts (wizard_footer s) f v = False"
  by (auto simp: wizard_header_def progress_bar_def identity_view_def summary_view_def source_view_def
      nodes_view_def wizard_footer_def submit_button_def simp del: node_view_parts split: wizard_mode.splits)

lemma wizard_accepts:
  "accepts (wizard_view e s) f v \<Longrightarrow> (case f of
     SourceField \<Rightarrow> wz_mode s = Source
   | NameField \<Rightarrow> wz_mode s = Wizard \<and> wz_step s = 1
   | DescriptionField \<Rightarrow> wz_mode s = Wizard \<and> wz_step s = 1
   | NodeName i \<Rightarrow> wz_mode s = Wizard \<and> wz_step s = 2
   | NodeDescription i \<Rightarrow> wz_mode s = Wizard \<and> wz_step s = 2
   | NodeRole i \<Rightarrow> wz_mode s = Wizard \<and> wz_step s = 2 \<and> (v = '''' \<or> v \<in> role_id ` set (wz_roles s)))"
  by (cases f; cases "wz_mode s") (auto simp: wizard_view_def show_if_def list_ex_iff split: if_splits)

section \<open>The wizard keeps a linear chain\<close>

lemma renumber_orders: "map ws_step_order (renumber ss) = map Suc [0..<length ss]"
  by (rule nth_equalityI) (simp_all add: renumber_def nth_enumerate_eq)

definition orders_ok :: "wizard_step list \<Rightarrow> bool" where
  "orders_ok ss \<longleftrightarrow> map ws_step_order ss = map Suc [0..<length ss]"

lemma orders_ok_nth: "orders_ok ss \<Longrightarrow> i < length ss \<Longrightarrow> ws_step_order (ss ! i) = Suc i"
  unfolding orders_ok_def by (metis add_0 length_map nth_map nth_upt)

lemma orders_ok_ops:
  "orders_ok []"
  "orders_ok (renumber ss)"
  "orders_ok ss \<Longrightarrow> ws_step_order w = Suc (length ss) \<Longrightarrow> orders_ok (ss @ [w])"
  "orders_ok ss \<Longrightarrow> ws_step_order (f (ss ! i)) = ws_step_order (ss ! i) \<Longrightarrow> orders_ok (ss[i := f (ss ! i)])"
proof -
  show "orders_ok []" "orders_ok (renumber ss)"
    using renumber_orders [of ss] by (simp_all add: orders_ok_def renumber_def)
  show "orders_ok ss \<Longrightarrow> ws_step_order w = Suc (length ss) \<Longrightarrow> orders_ok (ss @ [w])"
    by (simp add: orders_ok_def)
  assume "orders_ok ss" and "ws_step_order (f (ss ! i)) = ws_step_order (ss ! i)"
  then have "map ws_step_order (ss[i := f (ss ! i)]) = map ws_step_order ss"
    by (cases "i < length ss") (simp_all add: map_update list_update_same_conv list_update_beyond)
  with \<open>orders_ok ss\<close> show "orders_ok (ss[i := f (ss ! i)])" by (simp add: orders_ok_def)
qed

definition wizard_ready :: "wizard_state \<Rightarrow> bool" where
  "wizard_ready s \<longleftrightarrow> 1 \<le> wz_step s \<and> wz_step s \<le> 3 \<and> orders_ok (wz_workflowSteps s) \<and>
     (2 \<le> wz_step s \<longrightarrow> trim (wz_name s) \<noteq> '''') \<and>
     (wz_step s = 3 \<longrightarrow> wz_workflowSteps s \<noteq> [] \<and> wz_transitions s = default_transitions (wz_workflowSteps s))"

definition is_post :: "wizard_call \<Rightarrow> bool" where
  "is_post k = (k = PostWorkflow)"

lemma is_post_simps [simp]: "is_post PostWorkflow" "\<not> is_post FetchMetadata"
  by (simp_all add: is_post_def)

definition wizard_inv :: "wizard_state \<Rightarrow> wizard_call list \<Rightarrow> bool" where
  "wizard_inv s ks \<longleftrightarrow> wizard_ready s \<and> length (filter is_post ks) = (if wz_isSubmitting s then 1 else 0)"

lemma ready_click:
  assumes "wizard_ready s" and "c \<in> set (clicks (wizard_view e s))"
  shows "wizard_ready (fst (wizard_click e c s))"
proof (cases c)
  case (RemoveNode i)
  with assms have "wz_step s = 2" by (cases "wz_mode s") (auto simp: wizard_clicks split: if_splits)
  with assms(1) RemoveNode show ?thesis
    by (simp add: wizard_ready_def wizard_click_def removeStep_def orders_ok_ops)
next
  case AddNode
  with assms have "wz_step s = 2" by (cases "wz_mode s") (auto simp: wizard_clicks split: if_splits)
  with assms(1) AddNode show ?thesis
    by (simp add: wizard_ready_def wizard_click_def addStep_def orders_ok_ops)
next
  case Back
  with assms have "wz_step s \<noteq> 1" by (cases "wz_mode s") (auto simp: wizard_clicks split: if_splits)
  with assms(1) Back show ?thesis by (auto simp: wizard_ready_def wizard_click_def)
next
  case Continue
  with assms have "wz_step s < 3" by (cases "wz_mode s") (auto simp: wizard_clicks split: if_splits)
  with assms(1) have "wz_step s \<in> {1, 2}" by (auto simp: wizard_ready_def)
  with assms(1) Continue show ?thesis
    by (auto simp: wizard_ready_def wizard_click_def nextStep_def generateDefaultTransitions_def)
next
  case Submit
  with assms show ?thesis
    by (cases "final_payload s") (auto simp: wizard_ready_def wizard_click_def handleSubmit_def)
qed (use assms in \<open>auto simp: wizard_ready_def wizard_click_def\<close>)

lemma ready_change:
  assumes "wizard_ready s" and "accepts (wizard_view e s) f v"
  shows "wizard_ready (fst (wizard_change f v s))"
  using assms(1) wizard_accepts [OF assms(2)]
  by (cases f) (auto simp: wizard_ready_def wizard_change_def updateStep_def orders_ok_ops)

lemma wizard_click_calls:
  "wizard_click e c s = (s', es) \<Longrightarrow>
   if c = Submit \<and> wz_isSubmitting s' then calls es = [PostWorkflow]
   else calls es = [] \<and> (c = Submit \<or> wz_isSubmitting s' = wz_isSubmitting s)"
  by (cases c) (auto simp: wizard_click_def handleSubmit_def nextStep_def addStep_def removeStep_def
      generateDefaultTransitions_def split: if_splits sum.splits)

interpretation wizard: page_invariant wizard_page wizard_inv
proof
  show "wizard_inv (fst (on_mount wizard_page)) (calls (snd (on_mount wizard_page)))"
    by (simp add: wizard_inv_def wizard_ready_def wizard_mount_def wizard_init_def orders_ok_ops)
next
  fix s ks c e s' es
  assume i: "wizard_inv s ks" and c: "c \<in> set (clicks (view wizard_page e s))"
    and r: "on_click wizard_page e c s = (s', es)"
  then have "wizard_ready s'" using ready_click [of s c e] by (simp add: wizard_inv_def)
  moreover have "c = Submit \<Longrightarrow> \<not> wz_isSubmitting s"
    using c by (cases "wz_mode s") (auto simp: wizard_clicks split: if_splits)
  ultimately show "wizard_inv s' (ks @ calls es @ calls (on_deps wizard_page s s'))"
    using i r wizard_click_calls [of e c s s' es] by (auto simp: wizard_inv_def split: if_splits)
next
  fix s ks f v s' es e
  assume i: "wizard_inv s ks" and a: "accepts (view wizard_page e s) f v"
    and r: "on_change wizard_page f v s = (s', es)"
  then have "wizard_ready s'" using ready_change [of s e f v] by (simp add: wizard_inv_def)
  with i r show "wizard_inv s' (ks @ calls es @ calls (on_deps wizard_page s s'))"
    by (cases f) (auto simp: wizard_inv_def wizard_change_def updateStep_def)
next
  fix s ks k e p s' es
  assume "wizard_inv s ks" "k \<in> set ks" "on_ok wizard_page e k p s = (s', es)"
  then show "wizard_inv s' (remove1 k ks @ calls es @ calls (on_deps wizard_page s s'))"
    by (cases k; cases p) (auto simp: wizard_inv_def wizard_ready_def wizard_ok_def filter_remove1_length
        split: if_splits)
next
  fix s ks k e x s' es
  assume "wizard_inv s ks" "k \<in> set ks" "on_fail wizard_page e k x s = (s', es)"
  then show "wizard_inv s' (remove1 k ks @ calls es @ calls (on_deps wizard_page s s'))"
    by (cases k) (auto simp: wizard_inv_def wizard_ready_def wizard_fail_def filter_remove1_length
        split: if_splits)
next
  fix s ks k s' es
  assume "wizard_inv s ks" "on_timer wizard_page k s = (s', es)"
  then show "wizard_inv s' (ks @ calls es @ calls (on_deps wizard_page s s'))"
    by auto
qed

section \<open>What is submitted\<close>

text \<open>The edges of a linear chain of \<open>n\<close> steps: approval leads to the next step or, from the last,
  to the end; rejection ends everywhere.\<close>

definition chain_edges :: "nat \<Rightarrow> json list" where
  "chain_edges n = concat (map (\<lambda>i.
     [transition_json (Some (JNum (of_nat (Suc i)))) (if Suc i < n then Some (JNum (of_nat (Suc (Suc i)))) else None) ''APPROVED'',
      transition_json (Some (JNum (of_nat (Suc i)))) None ''REJECTED'']) [0..<n])"

lemma default_transitions_concat:
  "default_transitions ss = concat (map (\<lambda>i.
     [\<lparr>wt_from = ws_tempId (ss ! i), wt_to = (if Suc i < length ss then Some (ws_tempId (ss ! Suc i)) else None), wt_outcome = ''APPROVED''\<rparr>,
      \<lparr>wt_from = ws_tempId (ss ! i), wt_to = None, wt_outcome = ''REJECTED''\<rparr>]) [0..<length ss])"
proof (induction ss)
  case Nil
  then show ?case by simp
next
  case (Cons c ss)
  have up: "[0..<length (c # ss)] = 0 # map Suc [0..<length ss]"
    by (simp add: upt_conv_Cons map_Suc_upt del: upt_Suc)
  have hd: "(case ss of [] \<Rightarrow> None | n # _ \<Rightarrow> Some (ws_tempId n)) =
      (if Suc 0 < length (c # ss) then Some (ws_tempId ((c # ss) ! Suc 0)) else None)"
    by (cases ss) simp_all
  show ?case
    unfolding up default_transitions.simps hd Cons.IH
    by (simp add: o_def cong: if_cong del: upt_Suc)
qed

lemma order_of_nth:
  assumes "orders_ok ss" and "distinct (map ws_tempId ss)" and "i < length ss"
  shows "order_of ss (Some (ws_tempId (ss ! i))) = Some (JNum (of_nat (Suc i)))"
  using find_distinct [OF assms(2,3)] orders_ok_nth [OF assms(1,3)] by (simp add: order_of_def)

lemma order_of_None: "order_of ss None = None"
  by (induction ss) (simp_all add: order_of_def)

lemma chain_edges_formatted:
  assumes "orders_ok ss" and "distinct (map ws_tempId ss)"
  shows "map (format_transition ss) (default_transitions ss) = chain_edges (length ss)"
  unfolding default_transitions_concat [of ss] chain_edges_def map_concat map_map
  by (intro arg_cong [where f = concat] map_cong refl)
    (auto simp: format_transition_def order_of_None order_of_nth [OF assms] simp del: of_nat_Suc)

lemma wizard_submitted:
  assumes "reaches wizard_page s" and "wz_mode (st s) = Wizard"
    and "Submit \<in> set (clicks (wizard_view e (st s)))"
    and "distinct (map ws_tempId (wz_workflowSteps (st s)))"
  shows "filter is_post (inflight s) = [] \<and> trim (wz_name (st s)) \<noteq> '''' \<and> wz_workflowSteps (st s) \<noteq> [] \<and>
      orders_ok (wz_workflowSteps (st s))"
    and "wizard_body (st s) = JObj [(''name'', JStr (wz_name (st s))), (''description'', JStr (wz_description (st s))),
      (''is_active'', JBool True), (''steps'', JArr (map wizard_step_json (wz_workflowSteps (st s)))),
      (''transitions'', JArr (chain_edges (length (wz_workflowSteps (st s)))))]"
    and "\<exists>s'. perform wizard_page e (Click Submit) s = Some s' \<and> br_sent (br s') = br_sent (br s) @
      [intercept_request (br s) (make_request POST ''workflows/'' (JsonBody (wizard_body (st s))))]"
proof -
  have inv: "wizard_inv (st s) (inflight s)" by (rule wizard.reaches_inv [OF assms(1)])
  have sub: "\<not> wz_isSubmitting (st s)" "\<not> wz_step (st s) < 3"
    using assms(2,3) by (auto simp: wizard_clicks split: if_splits)
  with inv have r: "wz_step (st s) = 3" "wizard_ready (st s)" "filter is_post (inflight s) = []"
    by (auto simp: wizard_inv_def wizard_ready_def)
  then have ss: "orders_ok (wz_workflowSteps (st s))" "wz_workflowSteps (st s) \<noteq> []"
      "trim (wz_name (st s)) \<noteq> ''''" "wz_transitions (st s) = default_transitions (wz_workflowSteps (st s))"
    by (simp_all add: wizard_ready_def)
  have body: "final_payload (st s) = Inr (wizard_body (st s))"
    using assms(2) by (simp add: final_payload_def)
  have "perform wizard_page e (Click Submit) s = Some (react wizard_page (handleSubmit e (st s)) s)"
    using assms(3) by (simp add: wizard_click_def)
  moreover have "br_sent (br (react wizard_page (handleSubmit e (st s)) s)) = br_sent (br s) @
      [intercept_request (br s) (make_request POST ''workflows/'' (JsonBody (wizard_body (st s))))]"
    by (simp add: handleSubmit_def body react_def send_def)
  ultimately show "\<exists>s'. perform wizard_page e (Click Submit) s = Some s' \<and> br_sent (br s') = br_sent (br s) @
      [intercept_request (br s) (make_request POST ''workflows/'' (JsonBody (wizard_body (st s))))]" by blast
  show "filter is_post (inflight s) = [] \<and> trim (wz_name (st s)) \<noteq> '''' \<and> wz_workflowSteps (st s) \<noteq> [] \<and>
      orders_ok (wz_workflowSteps (st s))" using r(3) ss by simp
  show "wizard_body (st s) = JObj [(''name'', JStr (wz_name (st s))), (''description'', JStr (wz_description (st s))),
      (''is_active'', JBool True), (''steps'', JArr (map wizard_step_json (wz_workflowSteps (st s)))),
      (''transitions'', JArr (chain_edges (length (wz_workflowSteps (st s)))))]"
    using ss chain_edges_formatted [OF ss(1) assms(4)] by (simp add: wizard_body_def)
qed

text \<open>
  C35. The wizard submits a linear chain: whenever its last page offers the submit button, the name
  is not blank, there is at least one step, the steps are numbered 1 to n in their order and no other
  submission is pending; a click sends one POST, and when the random identifiers of the steps differ,
  its transitions are exactly those of the chain: approval to the next step or the end, rejection to
  the end.
\<close>

theorem wizard_submits_chain:
  assumes "reaches wizard_page s" and "wz_mode (st s) = Wizard"
    and "Submit \<in> set (clicks (wizard_view e (st s)))"
    and "distinct (map ws_tempId (wz_workflowSteps (st s)))"
  shows "filter is_post (inflight s) = [] \<and> trim (wz_name (st s)) \<noteq> '''' \<and> wz_workflowSteps (st s) \<noteq> [] \<and>
    map ws_step_order (wz_workflowSteps (st s)) = map Suc [0..<length (wz_workflowSteps (st s))] \<and>
    (\<exists>s'. perform wizard_page e (Click Submit) s = Some s' \<and>
      br_sent (br s') = br_sent (br s) @ [intercept_request (br s) (make_request POST ''workflows/''
        (JsonBody (JObj [(''name'', JStr (wz_name (st s))), (''description'', JStr (wz_description (st s))),
           (''is_active'', JBool True), (''steps'', JArr (map wizard_step_json (wz_workflowSteps (st s)))),
           (''transitions'', JArr (chain_edges (length (wz_workflowSteps (st s)))))])))])"
  using wizard_submitted [OF assms] by (simp add: orders_ok_def)

definition sample_wizard_env :: "string \<Rightarrow> js_env" where
  "sample_wizard_env i = \<lparr>env_now = 0, env_rand = 7, env_randid = i, env_errmsg = (\<lambda>_. ''''),
     env_email = (\<lambda>s. List.member s (CHR ''@''))\<rparr>"

definition sample_wizard_events :: "(js_env \<times> (wizard_action, wizard_field, wizard_call, wizard_payload) event) list" where
  "sample_wizard_events = [
     (sample_wizard_env ''a'', Change NameField ''Leave''), (sample_wizard_env ''a'', Click Continue),
     (sample_wizard_env ''a'', Click AddNode), (sample_wizard_env ''b'', Click AddNode),
     (sample_wizard_env ''c'', Click AddNode), (sample_wizard_env ''c'', Click (RemoveNode 1)),
     (sample_wizard_env ''c'', Click Continue)]"

lemma sample_wizard_run:
  "\<exists>s. perform_all wizard_page sample_wizard_events (mounted wizard_page new_browser) = Some s \<and>
     wz_mode (st s) = Wizard \<and> wz_step (st s) = 3 \<and> \<not> wz_isSubmitting (st s) \<and>
     distinct (map ws_tempId (wz_workflowSteps (st s))) \<and> length (wz_workflowSteps (st s)) = 2"
proof -
  have t: "trim ''Leave'' \<noteq> ''''" by code_simp
  have a: "accepts (wizard_view e s) NameField v" if "wz_mode s = Wizard" "wz_step s = 1" for e s v
    using that by (simp add: wizard_view_def show_if_def)
  have c: "c \<in> set (clicks (wizard_view e s))" if "wz_mode s = Wizard"
      "wz_step s < 3 \<and> c = Continue \<or> wz_step s = 2 \<and> c = AddNode \<or>
       wz_step s = 2 \<and> c = RemoveNode 1 \<and> 1 < length (wz_workflowSteps s)" for c e s
    using that by (auto simp: wizard_clicks)
  show ?thesis using t
    by (simp add: sample_wizard_events_def wizard_mount_def a c wizard_change_def wizard_click_def
        nextStep_def addStep_def removeStep_def renumber_def generateDefaultTransitions_def
        sample_wizard_env_def wizard_init_def)
qed

theorem wizard_submits_chain_witness:
  "\<exists>s s'. reaches wizard_page s \<and> perform wizard_page (sample_wizard_env ''x'') (Click Submit) s = Some s' \<and>
     filter is_post (inflight s) = [] \<and> length (wz_workflowSteps (st s)) = 2"
proof -
  obtain s where s: "perform_all wizard_page sample_wizard_events (mounted wizard_page new_browser) = Some s"
    and st: "wz_mode (st s) = Wizard" "wz_step (st s) = 3" "\<not> wz_isSubmitting (st s)"
    and d: "distinct (map ws_tempId (wz_workflowSteps (st s)))" and l: "length (wz_workflowSteps (st s)) = 2"
    using sample_wizard_run by blast
  have r: "reaches wizard_page s" by (rule reaches_perform_all [OF reaches.mount s])
  have c: "Submit \<in> set (clicks (wizard_view (sample_wizard_env ''x'') (st s)))"
    using st by (simp add: wizard_clicks)
  from wizard_submits_chain [OF r st(1) c d] r l show ?thesis by blast
qed

text \<open>
  C36. The constructor's JSON mode: a submit sends exactly one POST, to \<open>workflows/\<close>, when the text is
  JSON of a blueprint that can be sent; its body has the name and the description of the text, one step for
  each of the blueprint's, in order, under its name, with 24 hours where it states none (or 0) and the role
  that its name or identifier finds, and one approval transition from each to the next, the last to the end.
  Otherwise it alerts and sends nothing.
\<close>

theorem source_mode_submits:
  assumes "wz_mode (st s) = Source" and "\<not> wz_isSubmitting (st s)"
  shows "\<exists>s'. perform wizard_page e (Click Submit) s = Some s' \<and>
    (if \<exists>data. JSON_parse (wz_jsonSource (st s)) = Inr data \<and> blueprint_ok text_role_or_none (wz_roles (st s)) data
     then br_alerts (br s') = br_alerts (br s) \<and>
       (\<exists>data p. JSON_parse (wz_jsonSource (st s)) = Inr data \<and> payload_sent role_identified (wz_roles (st s)) data p \<and>
         br_sent (br s') = br_sent (br s) @ [intercept_request (br s) (make_request POST ''workflows/'' (JsonBody p))])
     else br_sent (br s') = br_sent (br s) \<and>
       (\<exists>err. br_alerts (br s') = br_alerts (br s) @ [''Validation Error: '' @ env_errmsg e err]))"
proof -
  have c: "Submit \<in> set (clicks (wizard_view e (st s)))" using assms by (simp add: wizard_clicks)
  then have p: "perform wizard_page e (Click Submit) s = Some (react wizard_page (handleSubmit e (st s)) s)"
    by (simp add: wizard_click_def)
  show ?thesis
  proof (cases "JSON_parse (wz_jsonSource (st s))")
    case (Inl err)
    with p assms show ?thesis by (auto simp: handleSubmit_def final_payload_def react_def validation_error_def)
  next
    case (Inr data)
    note run = by_name_or_id.blueprint_payload_run [of "wz_roles (st s)" data]
    show ?thesis
    proof (cases "blueprint_payload (find_role_or_id (wz_roles (st s))) data")
      case (Inl err)
      with Inr run p assms show ?thesis by (auto simp: handleSubmit_def final_payload_def react_def validation_error_def)
    next
      case r: (Inr q)
      with Inr run p assms show ?thesis by (simp add: handleSubmit_def final_payload_def react_def send_def) blast
    qed
  qed
qed

theorem source_mode_submits_witness:
  "(\<exists>s' p. perform wizard_page (sample_wizard_env ''x'') (Click Submit)
     \<lparr>st = wizard_init\<lparr>wz_mode := Source, wz_jsonSource := JSON_stringify (wizard_template 7)\<rparr>, inflight = [], timers = [], br = new_browser\<rparr> = Some s' \<and>
     map rq_body (br_sent (br s')) = [JsonBody p] \<and> field ''name'' p = Some (JStr ''NEW_PROTOCOL_7'') \<and>
     field ''description'' p = Some (JStr ''High-integrity orchestration blueprint.'')) \<and>
   (\<exists>s'. perform wizard_page (sample_wizard_env ''x'') (Click Submit)
     \<lparr>st = wizard_init\<lparr>wz_mode := Source, wz_jsonSource := ''null''\<rparr>, inflight = [], timers = [], br = new_browser\<rparr> = Some s' \<and>
     br_sent (br s') = [])"
proof -
  let ?s = "\<lambda>t. \<lparr>st = wizard_init\<lparr>wz_mode := Source, wz_jsonSource := t\<rparr>, inflight = [], timers = [], br = new_browser\<rparr>"
  note f = source_mode_submits [of "?s _" "sample_wizard_env ''x''"]
  have j: "JSON_parse ''null'' = Inr JNull" by code_simp
  have n: "protocol_name 7 = ''NEW_PROTOCOL_7''" by code_simp
  have t: "JSON_parse (JSON_stringify (wizard_template 7)) = Inr (wizard_template 7)"
    by (rule parse_stringify [OF printable_default(2)])
  have "blueprint_ok text_role_or_none [] (wizard_template 7)"
    by (simp add: blueprint_ok_def wizard_template_def field_def blueprint_step_def)
  then have "\<exists>s' p. perform wizard_page (sample_wizard_env ''x'') (Click Submit) (?s (JSON_stringify (wizard_template 7))) = Some s' \<and>
      map rq_body (br_sent (br s')) = [JsonBody p] \<and> payload_sent role_identified [] (wizard_template 7) p"
    using f [of "JSON_stringify (wizard_template 7)"] t
    by (auto simp: wizard_init_def new_browser_def make_request_def intercept_request_def simp del: perform.simps split: option.splits)
  moreover have "field ''name'' (wizard_template 7) = Some (JStr ''NEW_PROTOCOL_7'')"
    "field ''description'' (wizard_template 7) = Some (JStr ''High-integrity orchestration blueprint.'')"
    by (simp_all add: field_def wizard_template_def n)
  moreover have "\<not> blueprint_ok r roles JNull" for r roles by (simp add: blueprint_ok_def field_def)
  then have "\<exists>s'. perform wizard_page (sample_wizard_env ''x'') (Click Submit) (?s ''null'') = Some s' \<and> br_sent (br s') = []"
    using f [of "''null''"] j by (auto simp: wizard_init_def new_browser_def simp del: perform.simps)
  ultimately show ?thesis by (force simp: payload_sent_def)
qed

end
