(* ===== verification/RequestPages.thy ===== *)
theory RequestPages
  imports Runtime Schemas
begin

text \<open>
  The request ledger, \<open>frontend/src/app/requests/page.tsx\<close>, with its status filter, and the page of
  one request, \<open>frontend/src/app/requests/[id]/page.tsx\<close> (also mounted at \<open>/instances/[id]\<close>), with
  the execution timeline and the decision console.
\<close>

section \<open>The ledger\<close>

record ledger_state =
  lr_requests :: "request_out list"
  lr_loading :: bool
  lr_statusFilter :: string

definition ledger_init :: ledger_state where
  "ledger_init = \<lparr>lr_requests = [], lr_loading = True, lr_statusFilter = ''''\<rparr>"

datatype ledger_action = OpenRequest uuid
datatype ledger_field = StatusFilter
datatype ledger_call = FetchRequests string

text \<open>\<open>fetchRequests\<close> reads the filter of the render it was called in.\<close>

definition requests_url :: "string \<Rightarrow> string" where
  "requests_url f = ''requests/'' @ (if f = '''' then '''' else ''?status='' @ f)"

definition fetchRequests :: "string \<Rightarrow> ledger_call effect" where
  "fetchRequests f = Call (FetchRequests f) GET (requests_url f) NoBody"

definition ledger_mount :: "(ledger_state, ledger_call) reaction" where
  "ledger_mount = (ledger_init, [fetchRequests (lr_statusFilter ledger_init)])"

definition ledger_deps :: "ledger_state \<Rightarrow> ledger_state \<Rightarrow> ledger_call effect list" where
  "ledger_deps old new =
     (if lr_statusFilter old = lr_statusFilter new then [] else [fetchRequests (lr_statusFilter new)])"

definition ledger_click :: "js_env \<Rightarrow> ledger_action \<Rightarrow> ledger_state \<Rightarrow> (ledger_state, ledger_call) reaction" where
  "ledger_click e c s = (case c of OpenRequest i \<Rightarrow> (s, [Push (''/instances/'' @ i)]))"

definition ledger_change :: "ledger_field \<Rightarrow> string \<Rightarrow> ledger_state \<Rightarrow> (ledger_state, ledger_call) reaction" where
  "ledger_change f v s = (s\<lparr>lr_statusFilter := v\<rparr>, [])"

definition ledger_ok :: "js_env \<Rightarrow> ledger_call \<Rightarrow> request_out list \<Rightarrow> ledger_state \<Rightarrow> (ledger_state, ledger_call) reaction" where
  "ledger_ok e k rs s = (s\<lparr>lr_requests := rs, lr_loading := False\<rparr>, [])"

definition ledger_fail :: "js_env \<Rightarrow> ledger_call \<Rightarrow> api_failure \<Rightarrow> ledger_state \<Rightarrow> (ledger_state, ledger_call) reaction" where
  "ledger_fail e k x s = (s\<lparr>lr_loading := False\<rparr>, [])"

text \<open>\<open>STATUS_COLORS[status] || STATUS_COLORS.CREATED\<close>, by the colour of each entry.\<close>

definition STATUS_COLORS :: "(string \<times> string) list" where
  "STATUS_COLORS = [(''CREATED'', ''slate''), (''IN_PROGRESS'', ''indigo''), (''APPROVED'', ''emerald''),
     (''REJECTED'', ''rose''), (''COMPLETED'', ''emerald''), (''ESCALATED'', ''amber'')]"

definition status_style :: "string \<Rightarrow> string" where
  "status_style status = (case map_of STATUS_COLORS status of Some c \<Rightarrow> c | None \<Rightarrow> ''slate'')"

definition status_options :: "(string \<times> string) list" where
  "status_options = [('''', ''All Nodes''), (''IN_PROGRESS'', ''Active''), (''COMPLETED'', ''Fulfilled''),
     (''REJECTED'', ''Terminated''), (''ESCALATED'', ''Escalated'')]"

definition offered :: "string \<Rightarrow> bool" where
  "offered v = list_ex (\<lambda>(w, l). w = v) status_options"

definition ledger_entry :: "request_out \<Rightarrow> (ledger_action, ledger_field) node" where
  "ledger_entry r = Area (OpenRequest (ro_id r)) [
     Ico ''GitBranch'', Txt (''Instance #'' @ short_id (ro_id r)),
     Sty (status_style (ro_status r)) [Txt (replace_char (CHR ''_'') (CHR '' '') (ro_status r))],
     Ico ''Clock'', Tim ''distance'' (ro_created_at r),
     Txt (''Core Blueprint: '' @ ro_workflow_id r),
     Txt ''Analyze Trace'', Ico ''ArrowRight'']"

definition ledger_list :: "request_out list \<Rightarrow> (ledger_action, ledger_field) node" where
  "ledger_list rs = (if rs = [] then
       Box [Ico ''GitBranch'', Txt ''No active sequences discovered'',
         Txt ''Initialize a strategy from the inventory to begin tracking.'']
     else Box (map ledger_entry rs))"

definition ledger_view :: "js_env \<Rightarrow> ledger_state \<Rightarrow> (ledger_action, ledger_field) node" where
  "ledger_view e s = (if lr_loading s then Box [Spin, Txt ''Syncing Operational Data''] else Box [
     heading ''Operational Ledger'' ''Request Audit''
       ''Track, monitor, and audit every strategic workflow instance across the infrastructure.'',
     Ico ''Search'', Ico ''Filter'', Sel StatusFilter (lr_statusFilter s) status_options,
     ledger_list (lr_requests s)])"

definition ledger_page :: "(ledger_state, ledger_action, ledger_field, ledger_call, request_out list) page" where
  "ledger_page = \<lparr>on_mount = ledger_mount, on_click = ledger_click, on_change = ledger_change,
     on_ok = ledger_ok, on_fail = ledger_fail, on_timer = (\<lambda>_ s. (s, [])),
     on_deps = ledger_deps, view = ledger_view\<rparr>"

lemma ledger_page_simps [simp]:
  "on_mount ledger_page = ledger_mount" "on_click ledger_page = ledger_click"
  "on_change ledger_page = ledger_change" "on_ok ledger_page = ledger_ok"
  "on_fail ledger_page = ledger_fail" "on_timer ledger_page = (\<lambda>_ s. (s, []))"
  "on_deps ledger_page = ledger_deps" "view ledger_page = ledger_view"
  by (simp_all add: ledger_page_def)

lemma ledger_clicks:
  "set (clicks (ledger_view e s)) = (if lr_loading s then {} else (\<lambda>r. OpenRequest (ro_id r)) ` set (lr_requests s))"
  by (auto simp: ledger_view_def ledger_list_def ledger_entry_def)

lemma ledger_accepts:
  "accepts (ledger_view e s) f v \<longleftrightarrow> \<not> lr_loading s \<and> offered v"
  by (cases f) (auto simp: ledger_view_def ledger_list_def ledger_entry_def offered_def list_ex_iff intro: rev_image_eqI)

text \<open>The filter and every pending fetch name one of the offered options; a fetch is pending for the
  current filter unless the page has an answer to some fetch.\<close>

definition ledger_inv :: "ledger_state \<Rightarrow> ledger_call list \<Rightarrow> bool" where
  "ledger_inv s ks \<longleftrightarrow> offered (lr_statusFilter s) \<and>
     (\<forall>f. FetchRequests f \<in> set ks \<longrightarrow> offered f) \<and> (ks = [] \<longrightarrow> \<not> lr_loading s)"

interpretation ledger: page_invariant ledger_page ledger_inv
proof
  show "ledger_inv (fst (on_mount ledger_page)) (calls (snd (on_mount ledger_page)))"
    by (simp add: ledger_inv_def ledger_mount_def ledger_init_def fetchRequests_def offered_def status_options_def)
next
  fix s ks c e s' es
  assume "ledger_inv s ks" "on_click ledger_page e c s = (s', es)"
  then show "ledger_inv s' (ks @ calls es @ calls (on_deps ledger_page s s'))"
    by (cases c) (auto simp: ledger_inv_def ledger_click_def ledger_deps_def)
next
  fix s ks f v s' es e
  assume "ledger_inv s ks" "accepts (view ledger_page e s) f v" "on_change ledger_page f v s = (s', es)"
  then show "ledger_inv s' (ks @ calls es @ calls (on_deps ledger_page s s'))"
    by (auto simp: ledger_inv_def ledger_change_def ledger_deps_def ledger_accepts fetchRequests_def)
next
  fix s ks k e p s' es
  assume "ledger_inv s ks" "k \<in> set ks" "on_ok ledger_page e k p s = (s', es)"
  moreover from this have "s' = s\<lparr>lr_requests := p, lr_loading := False\<rparr>" "es = []" by (auto simp: ledger_ok_def)
  ultimately show "ledger_inv s' (remove1 k ks @ calls es @ calls (on_deps ledger_page s s'))"
    by (simp add: ledger_inv_def ledger_ok_def ledger_deps_def) (metis notin_set_remove1)
next
  fix s ks k e x s' es
  assume "ledger_inv s ks" "k \<in> set ks" "on_fail ledger_page e k x s = (s', es)"
  moreover from this have "s' = s\<lparr>lr_loading := False\<rparr>" "es = []" by (auto simp: ledger_fail_def)
  ultimately show "ledger_inv s' (remove1 k ks @ calls es @ calls (on_deps ledger_page s s'))"
    by (simp add: ledger_inv_def ledger_fail_def ledger_deps_def) (metis notin_set_remove1)
next
  fix s ks k s' es
  assume "ledger_inv s ks" "on_timer ledger_page k s = (s', es)"
  then show "ledger_inv s' (ks @ calls es @ calls (on_deps ledger_page s s'))"
    by (auto simp: ledger_inv_def ledger_deps_def)
qed

text \<open>
  The ledger does not order its answers: after the filter is changed to \<open>v\<close> and then to \<open>w\<close>, the
  answer for \<open>v\<close> may arrive last, and then the page lists the requests of status \<open>v\<close> under the filter
  \<open>w\<close>, with nothing pending that would correct it.
\<close>

lemma ledger_stale_answer:
  assumes "\<not> lr_loading (st s)" and "inflight s = []" and "lr_statusFilter (st s) = u"
    and "distinct [u, v, w]" and "offered v" and "offered w"
  shows "\<exists>s'. perform_all ledger_page
      [(e, Change StatusFilter v), (e, Change StatusFilter w), (e, Ok (FetchRequests w) rw), (e, Ok (FetchRequests v) rv)] s = Some s' \<and>
    lr_statusFilter (st s') = w \<and> lr_requests (st s') = rv \<and> inflight s' = []"
  using assms by (auto simp: ledger_accepts ledger_change_def ledger_ok_def ledger_deps_def fetchRequests_def)

definition sample_request_env :: js_env where
  "sample_request_env = \<lparr>env_now = 0, env_rand = 0, env_randid = ''x'', env_errmsg = (\<lambda>_. ''''),
     env_email = (\<lambda>s. List.member s (CHR ''@''))\<rparr>"

theorem ledger_stale_answer_witness:
  "\<exists>s'. perform_all ledger_page
      [(sample_request_env, Change StatusFilter ''REJECTED''), (sample_request_env, Change StatusFilter ''COMPLETED''),
       (sample_request_env, Ok (FetchRequests ''COMPLETED'') []), (sample_request_env, Ok (FetchRequests ''REJECTED'') [])]
      \<lparr>st = ledger_init\<lparr>lr_loading := False\<rparr>, inflight = [], timers = [], br = new_browser\<rparr> = Some s' \<and>
    lr_statusFilter (st s') = ''COMPLETED''"
  using ledger_stale_answer [of "\<lparr>st = ledger_init\<lparr>lr_loading := False\<rparr>, inflight = [], timers = [], br = new_browser\<rparr>"
      "''''" "''REJECTED''" "''COMPLETED''" sample_request_env "[]" "[]"]
  by (auto simp: ledger_init_def offered_def status_options_def simp del: perform_all.simps)

section \<open>The page of one request\<close>

record detail_state =
  rd_request :: "request_out option"
  rd_loading :: bool
  rd_processing :: bool
  rd_outcome :: string
  rd_note :: string

definition detail_init :: detail_state where
  "detail_init = \<lparr>rd_request = None, rd_loading = True, rd_processing = False, rd_outcome = ''APPROVED'', rd_note = ''''\<rparr>"

datatype detail_action = SubmitDecision | SetOutcome string
datatype detail_field = NoteField
datatype detail_call = FetchRequest | PostProcess | RefetchRequest
datatype detail_payload = RequestData request_out | Processed

definition detail_mount :: "uuid \<Rightarrow> (detail_state, detail_call) reaction" where
  "detail_mount i = (detail_init, [Call FetchRequest GET (''/requests/'' @ i) NoBody])"

definition handleProcess :: "uuid \<Rightarrow> detail_state \<Rightarrow> (detail_state, detail_call) reaction" where
  "handleProcess i s = (s\<lparr>rd_processing := True\<rparr>,
     [Call PostProcess POST (''/requests/'' @ i @ ''/process'') (JsonBody (JObj
        [(''outcome'', JStr (rd_outcome s)), (''context'', JObj [(''note'', JStr (rd_note s))])]))])"

definition detail_click :: "uuid \<Rightarrow> js_env \<Rightarrow> detail_action \<Rightarrow> detail_state \<Rightarrow> (detail_state, detail_call) reaction" where
  "detail_click i e c s = (case c of
     SubmitDecision \<Rightarrow> handleProcess i s
   | SetOutcome out \<Rightarrow> (s\<lparr>rd_outcome := out\<rparr>, []))"

definition detail_change :: "detail_field \<Rightarrow> string \<Rightarrow> detail_state \<Rightarrow> (detail_state, detail_call) reaction" where
  "detail_change f v s = (s\<lparr>rd_note := v\<rparr>, [])"

definition detail_ok :: "uuid \<Rightarrow> js_env \<Rightarrow> detail_call \<Rightarrow> detail_payload \<Rightarrow> detail_state \<Rightarrow> (detail_state, detail_call) reaction" where
  "detail_ok i e k p s = (case (k, p) of
     (FetchRequest, RequestData r) \<Rightarrow> (s\<lparr>rd_request := Some r, rd_loading := False\<rparr>, [])
   | (PostProcess, _) \<Rightarrow> (s, [Call RefetchRequest GET (''/requests/'' @ i) NoBody])
   | (RefetchRequest, RequestData r) \<Rightarrow> (s\<lparr>rd_request := Some r, rd_note := '''', rd_processing := False\<rparr>, [])
   | (FetchRequest, _) \<Rightarrow> (s\<lparr>rd_loading := False\<rparr>, [])
   | (RefetchRequest, _) \<Rightarrow> (s\<lparr>rd_processing := False\<rparr>, []))"

definition detail_fail :: "js_env \<Rightarrow> detail_call \<Rightarrow> api_failure \<Rightarrow> detail_state \<Rightarrow> (detail_state, detail_call) reaction" where
  "detail_fail e k x s = (case k of
     FetchRequest \<Rightarrow> (s\<lparr>rd_loading := False\<rparr>, [])
   | PostProcess \<Rightarrow> (s\<lparr>rd_processing := False\<rparr>, [])
   | RefetchRequest \<Rightarrow> (s\<lparr>rd_processing := False\<rparr>, []))"

definition currentStep :: "request_out \<Rightarrow> request_step_out option" where
  "currentStep r = find (\<lambda>x. so_status x = ''PENDING'') (ro_steps r)"

definition request_style :: "request_out \<Rightarrow> string" where
  "request_style r = (if ro_status r = ''COMPLETED'' then ''emerald'' else if ro_status r = ''REJECTED'' then ''rose'' else ''indigo'')"

definition detail_header :: "request_out \<Rightarrow> (detail_action, detail_field) node" where
  "detail_header r = Box [Lnk ''/dashboard'' [Ico ''ArrowLeft''], Txt ''Operational Tracker'',
     Sty (request_style r) [Txt (''Protocol '' @ ro_status r)],
     Txt ''Instance '', Txt (''#'' @ short_id (ro_id r)), Txt ''Initialized '', Tim ''PPPp'' (ro_created_at r)]"

definition step_done :: "request_step_out \<Rightarrow> bool" where
  "step_done x = (so_status x = ''APPROVED'' \<or> so_status x = ''REJECTED'')"

definition step_pending :: "request_step_out \<Rightarrow> bool" where
  "step_pending x = (so_status x = ''PENDING'')"

definition status_tone :: "request_step_out \<Rightarrow> string" where
  "status_tone x = (if step_done x \<and> so_status x = ''APPROVED'' then ''emerald''
     else if step_done x \<and> so_status x = ''REJECTED'' then ''rose''
     else if step_pending x then ''indigo'' else ''slate'')"

definition timeline_step :: "js_env \<Rightarrow> request_step_out \<Rightarrow> (detail_action, detail_field) node" where
  "timeline_step e x = Box (
     [Sty (if step_done x then ''emerald'' else if step_pending x then ''indigo'' else ''slate'')
        [if step_done x then Ico ''CheckCircle2'' else if step_pending x then Ico ''Clock'' else Box []],
      Txt (case so_step_name x of None \<Rightarrow> '''' | Some n \<Rightarrow> n)] @
     (case so_completed_at x of None \<Rightarrow> [] | Some t \<Rightarrow> [Txt ''Verified '', Tim ''p'' t]) @
     [Txt ''State Vector'', Sty (status_tone x) [Txt (so_status x)]] @
     (case so_deadline x of None \<Rightarrow> []
      | Some d \<Rightarrow> [Txt ''Expiration'', Sty (if d < env_now e then ''rose'' else ''slate'') [Tim ''PP'' d]]) @
     (case so_outcome x of None \<Rightarrow> []
      | Some out \<Rightarrow> show_if (out \<noteq> '''') [Txt ''Decision Notes'', Txt out]))"

text \<open>\<open>request.steps.sort(\<dots>)\<close> sorts the array of the state in place; the sort is stable, so the
  timeline is the same in every later render.\<close>

definition execution_timeline :: "js_env \<Rightarrow> request_out \<Rightarrow> (detail_action, detail_field) node" where
  "execution_timeline e r = Box ([Ico ''Activity'', Txt ''Execution Timeline''] @
     map (timeline_step e) (by_step_order (ro_steps r)) @
     show_if (ro_status r = ''COMPLETED'')
       [Ico ''Zap'', Ico ''Shield'', Txt ''Chain Optimization Completed'', Txt ''All strategic nodes validated successfully.''])"

definition deadline_box :: "js_env \<Rightarrow> int \<Rightarrow> (detail_action, detail_field) node" where
  "deadline_box e d = Sty (if d < env_now e then ''rose'' else ''emerald'')
     [Txt ''SLA Protection'',
      Txt (if d < env_now e then ''CRITICAL: BREACH DETECTED'' else ''NOMINAL: MONITORING ACTIVE''), Ico ''Clock'']"

definition decision_form :: "js_env \<Rightarrow> detail_state \<Rightarrow> request_step_out \<Rightarrow> (detail_action, detail_field) node" where
  "decision_form e s x = Frm SubmitDecision True (
     [Txt ''Active Strategic Node'', Txt (case so_step_name x of None \<Rightarrow> '''' | Some n \<Rightarrow> n)] @
     (case so_deadline x of None \<Rightarrow> [] | Some d \<Rightarrow> [deadline_box e d]) @
     [Sty (if rd_outcome s = ''APPROVED'' then ''emerald'' else ''slate'')
        [Btn (SetOutcome ''APPROVED'') False [Ico ''CheckCircle2'', Txt ''Approve'']],
      Sty (if rd_outcome s = ''REJECTED'' then ''rose'' else ''slate'')
        [Btn (SetOutcome ''REJECTED'') False [Ico ''XCircle'', Txt ''Reject'']],
      Txt ''Strategic Justification'', Inp NoteField (rd_note s),
      Sub (rd_processing s) (if rd_processing s then [Spin] else [Txt ''Submit Decision'', Ico ''Send'']),
      Txt ''This action advances the operational step assigned to your identity clearance.''])"

definition decision_console :: "js_env \<Rightarrow> detail_state \<Rightarrow> request_out \<Rightarrow> (detail_action, detail_field) node" where
  "decision_console e s r = Box [Ico ''Clock'', Txt ''Decision Console'',
     (case currentStep r of Some x \<Rightarrow> decision_form e s x
      | None \<Rightarrow> Box [Sty (if ro_status r = ''COMPLETED'' then ''emerald'' else ''slate'') [Ico ''Shield''],
          Txt ''Security Lock: Sequence finalized or action privilege restricted.''])]"

definition instance_intel :: "request_out \<Rightarrow> (detail_action, detail_field) node" where
  "instance_intel r = Box [Txt ''Instance Intel'', Txt ''Primary Payload'',
     (case ro_request_data r of None \<Rightarrow> Val ''JSON'' JNull | Some v \<Rightarrow> Val ''JSON'' v),
     Txt ''Source Matrix'', Txt (ro_requester_id r), Txt ''Core Blueprint'', Txt (ro_workflow_id r)]"

definition detail_view :: "js_env \<Rightarrow> detail_state \<Rightarrow> (detail_action, detail_field) node" where
  "detail_view e s = (if rd_loading s then Box [Spin, Txt ''Accessing Instance Memory'']
     else case rd_request s of
       None \<Rightarrow> Txt ''Request sequence terminated or not found.''
     | Some r \<Rightarrow> Box [detail_header r, execution_timeline e r, decision_console e s r, instance_intel r])"

definition detail_page :: "uuid \<Rightarrow> (detail_state, detail_action, detail_field, detail_call, detail_payload) page" where
  "detail_page i = \<lparr>on_mount = detail_mount i, on_click = detail_click i, on_change = detail_change,
     on_ok = detail_ok i, on_fail = detail_fail, on_timer = (\<lambda>_ s. (s, [])),
     on_deps = (\<lambda>_ _. []), view = detail_view\<rparr>"

lemma detail_page_simps [simp]:
  "on_mount (detail_page i) = detail_mount i" "on_click (detail_page i) = detail_click i"
  "on_change (detail_page i) = detail_change" "on_ok (detail_page i) = detail_ok i"
  "on_fail (detail_page i) = detail_fail" "on_timer (detail_page i) = (\<lambda>_ s. (s, []))"
  "on_deps (detail_page i) = (\<lambda>_ _. [])" "view (detail_page i) = detail_view"
  by (simp_all add: detail_page_def)

text \<open>The decision form is there exactly while some step of the request is pending.\<close>

lemma detail_parts [simp]:
  "clicks (detail_header r) = []" "clicks (execution_timeline e r) = []" "clicks (instance_intel r) = []"
  "clicks (deadline_box e d) = []"
proof -
  have "clicks (timeline_step e x) = []" for x
    by (auto simp: timeline_step_def show_if_def split: option.splits)
  then show "clicks (execution_timeline e r) = []" by (simp add: execution_timeline_def o_def)
qed (auto simp: detail_header_def instance_intel_def deadline_box_def split: option.splits)

lemma decision_form_clicks [simp]:
  "set (clicks (decision_form e s x)) =
     (if rd_processing s then {} else {SubmitDecision}) \<union> {SetOutcome ''APPROVED'', SetOutcome ''REJECTED''}"
  by (cases "so_deadline x") (auto simp: decision_form_def deadline_box_def)

lemma detail_clicks:
  "set (clicks (detail_view e s)) =
     (case rd_request s of None \<Rightarrow> {}
      | Some r \<Rightarrow> if rd_loading s \<or> currentStep r = None then {}
          else (if rd_processing s then {} else {SubmitDecision}) \<union> {SetOutcome ''APPROVED'', SetOutcome ''REJECTED''})"
proof (cases "rd_request s")
  case (Some r)
  then show ?thesis by (cases "currentStep r") (simp_all add: detail_view_def decision_console_def)
qed (simp add: detail_view_def)

definition is_decision_call :: "detail_call \<Rightarrow> bool" where
  "is_decision_call k = (k = PostProcess \<or> k = RefetchRequest)"

definition known_outcome :: "string \<Rightarrow> bool" where
  "known_outcome out = (out = ''APPROVED'' \<or> out = ''REJECTED'')"

definition detail_inv :: "detail_state \<Rightarrow> detail_call list \<Rightarrow> bool" where
  "detail_inv s ks \<longleftrightarrow> known_outcome (rd_outcome s) \<and>
     length (filter is_decision_call ks) = (if rd_processing s then 1 else 0)"

lemma is_decision_call_simps [simp]:
  "is_decision_call PostProcess" "is_decision_call RefetchRequest" "\<not> is_decision_call FetchRequest"
  by (simp_all add: is_decision_call_def)

lemma outcome_click:
  "SetOutcome out \<in> set (clicks (detail_view e s)) \<Longrightarrow> known_outcome out"
  by (cases "rd_request s") (auto simp: detail_clicks known_outcome_def split: if_splits)

lemma submit_click:
  "SubmitDecision \<in> set (clicks (detail_view e s)) \<longleftrightarrow>
   \<not> rd_loading s \<and> \<not> rd_processing s \<and> (\<exists>r. rd_request s = Some r \<and> currentStep r \<noteq> None)"
  by (cases "rd_request s") (auto simp: detail_clicks)

interpretation detail: page_invariant "detail_page i" detail_inv for i
proof
  show "detail_inv (fst (on_mount (detail_page i))) (calls (snd (on_mount (detail_page i))))"
    by (simp add: detail_inv_def detail_mount_def detail_init_def known_outcome_def)
next
  fix s ks c e s' es
  assume "detail_inv s ks" "c \<in> set (clicks (view (detail_page i) e s))" "on_click (detail_page i) e c s = (s', es)"
  then show "detail_inv s' (ks @ calls es @ calls (on_deps (detail_page i) s s'))"
    by (cases c) (auto simp: detail_inv_def detail_click_def handleProcess_def submit_click dest: outcome_click)
next
  fix s ks f v s' es e
  assume "detail_inv s ks" "on_change (detail_page i) f v s = (s', es)"
  then show "detail_inv s' (ks @ calls es @ calls (on_deps (detail_page i) s s'))"
    by (auto simp: detail_inv_def detail_change_def)
next
  fix s ks k e p s' es
  assume "detail_inv s ks" "k \<in> set ks" "on_ok (detail_page i) e k p s = (s', es)"
  then show "detail_inv s' (remove1 k ks @ calls es @ calls (on_deps (detail_page i) s s'))"
    by (cases k; cases p) (auto simp: detail_inv_def detail_ok_def filter_remove1_length filter_empty_conv
        split: if_splits)
next
  fix s ks k e x s' es
  assume "detail_inv s ks" "k \<in> set ks" "on_fail (detail_page i) e k x s = (s', es)"
  then show "detail_inv s' (remove1 k ks @ calls es @ calls (on_deps (detail_page i) s s'))"
    by (cases k) (auto simp: detail_inv_def detail_fail_def filter_remove1_length split: if_splits)
next
  fix s ks k s' es
  assume "detail_inv s ks" "on_timer (detail_page i) k s = (s', es)"
  then show "detail_inv s' (ks @ calls es @ calls (on_deps (detail_page i) s s'))"
    by auto
qed

text \<open>
  C39. The decision console: in every session of the page of request \<open>i\<close>, the submit button is
  offered exactly when the request is loaded with a pending step and no decision is being processed;
  then no decision call is pending, and a click posts one decision on \<open>i\<close> with the selected outcome,
  which is APPROVED or REJECTED, and the note.
\<close>

theorem decision_console_submits:
  assumes "reaches (detail_page i) s"
  shows "(SubmitDecision \<in> set (clicks (detail_view e (st s))) \<longleftrightarrow>
      \<not> rd_loading (st s) \<and> \<not> rd_processing (st s) \<and>
      (\<exists>r x. rd_request (st s) = Some r \<and> x \<in> set (ro_steps r) \<and> so_status x = ''PENDING'')) \<and>
    (SubmitDecision \<in> set (clicks (detail_view e (st s))) \<longrightarrow> filter is_decision_call (inflight s) = [] \<and>
      rd_outcome (st s) \<in> {''APPROVED'', ''REJECTED''} \<and>
      (\<exists>s'. perform (detail_page i) e (Click SubmitDecision) s = Some s' \<and>
        br_sent (br s') = br_sent (br s) @ [intercept_request (br s) (make_request POST (''/requests/'' @ i @ ''/process'')
          (JsonBody (JObj [(''outcome'', JStr (rd_outcome (st s))), (''context'', JObj [(''note'', JStr (rd_note (st s)))])])))] \<and>
        filter is_decision_call (inflight s') = [PostProcess]))"
proof -
  have inv: "detail_inv (st s) (inflight s)" by (rule detail.reaches_inv [OF assms])
  have cur: "currentStep r \<noteq> None \<longleftrightarrow> (\<exists>x. x \<in> set (ro_steps r) \<and> so_status x = ''PENDING'')" for r
    by (auto simp: currentStep_def find_None_iff)
  have send: "perform (detail_page i) e (Click SubmitDecision) s = Some (react (detail_page i) (handleProcess i (st s)) s)"
    if "SubmitDecision \<in> set (clicks (detail_view e (st s)))"
    using that by (simp add: detail_click_def)
  have eff: "br_sent (br (react (detail_page i) (handleProcess i (st s)) s)) = br_sent (br s) @
      [intercept_request (br s) (make_request POST (''/requests/'' @ i @ ''/process'')
          (JsonBody (JObj [(''outcome'', JStr (rd_outcome (st s))), (''context'', JObj [(''note'', JStr (rd_note (st s)))])])))]"
    "inflight (react (detail_page i) (handleProcess i (st s)) s) = inflight s @ [PostProcess]"
    by (simp_all add: handleProcess_def react_def send_def)
  have iff: "SubmitDecision \<in> set (clicks (detail_view e (st s))) \<longleftrightarrow>
      \<not> rd_loading (st s) \<and> \<not> rd_processing (st s) \<and>
      (\<exists>r x. rd_request (st s) = Some r \<and> x \<in> set (ro_steps r) \<and> so_status x = ''PENDING'')"
    unfolding submit_click cur by blast
  show ?thesis
  proof (intro conjI impI)
    show "SubmitDecision \<in> set (clicks (detail_view e (st s))) \<longleftrightarrow>
      \<not> rd_loading (st s) \<and> \<not> rd_processing (st s) \<and>
      (\<exists>r x. rd_request (st s) = Some r \<and> x \<in> set (ro_steps r) \<and> so_status x = ''PENDING'')" by (rule iff)
  next
    assume c: "SubmitDecision \<in> set (clicks (detail_view e (st s)))"
    then show none: "filter is_decision_call (inflight s) = []" using inv by (simp add: submit_click detail_inv_def)
    show "rd_outcome (st s) \<in> {''APPROVED'', ''REJECTED''}" using inv by (simp add: detail_inv_def known_outcome_def)
    show "\<exists>s'. perform (detail_page i) e (Click SubmitDecision) s = Some s' \<and>
        br_sent (br s') = br_sent (br s) @ [intercept_request (br s) (make_request POST (''/requests/'' @ i @ ''/process'')
          (JsonBody (JObj [(''outcome'', JStr (rd_outcome (st s))), (''context'', JObj [(''note'', JStr (rd_note (st s)))])])))] \<and>
        filter is_decision_call (inflight s') = [PostProcess]"
      using send [OF c] eff none by auto
  qed
qed

definition sample_request :: request_out where
  "sample_request = \<lparr>ro_id = ''i'', ro_workflow_id = ''w'', ro_requester_id = ''u'', ro_status = ''IN_PROGRESS'',
     ro_request_data = None, ro_current_step_id = Some ''s'', ro_created_at = 0,
     ro_steps = [\<lparr>so_id = ''rs'', so_status = ''PENDING'', so_outcome = None, so_deadline = None,
       so_completed_at = None, so_step_name = Some ''Review'', so_step_order = Some 1\<rparr>]\<rparr>"

lemma sample_detail_run:
  "\<exists>s. perform_all (detail_page ''i'') [(sample_request_env, Ok FetchRequest (RequestData sample_request))]
     (mounted (detail_page ''i'') new_browser) = Some s \<and>
     st s = detail_init\<lparr>rd_request := Some sample_request, rd_loading := False\<rparr>"
  by (simp add: detail_mount_def detail_ok_def)

theorem decision_console_submits_witness:
  "\<exists>s s'. reaches (detail_page ''i'') s \<and>
     perform (detail_page ''i'') sample_request_env (Click SubmitDecision) s = Some s' \<and>
     filter is_decision_call (inflight s') = [PostProcess]"
proof -
  obtain s where s: "perform_all (detail_page ''i'') [(sample_request_env, Ok FetchRequest (RequestData sample_request))]
     (mounted (detail_page ''i'') new_browser) = Some s"
    and st: "st s = detail_init\<lparr>rd_request := Some sample_request, rd_loading := False\<rparr>"
    using sample_detail_run by blast
  have r: "reaches (detail_page ''i'') s" by (rule reaches_perform_all [OF reaches.mount s])
  have "SubmitDecision \<in> set (clicks (detail_view sample_request_env (st s)))"
    by (simp add: st submit_click detail_init_def currentStep_def sample_request_def)
  with decision_console_submits [OF r, of sample_request_env] r show ?thesis by blast
qed

end
