(* ===== verification/TasksPage.thy ===== *)
theory TasksPage
  imports Runtime Schemas
begin

text \<open>
  The task list, \<open>frontend/src/app/tasks/page.tsx\<close>: the tasks the current user may decide, a
  modal with the details of the selected task, and the decision buttons. Selecting a task starts
  a request for its details (an effect that depends on \<open>selectedTask\<close>); a decision captures the
  task that was selected when it was clicked.
\<close>

section \<open>State and handlers\<close>

record tasks_state =
  ts_tasks :: "task_out list"
  ts_loading :: bool
  ts_selected :: "task_out option"
  ts_details :: "request_out option"
  ts_comment :: string
  ts_processing :: bool

definition tasks_init :: tasks_state where
  "tasks_init = \<lparr>ts_tasks = [], ts_loading = True, ts_selected = None, ts_details = None,
     ts_comment = '''', ts_processing = False\<rparr>"

datatype decision = Approve | Reject

definition decision_text :: "decision \<Rightarrow> string" where
  "decision_text a = (case a of Approve \<Rightarrow> ''approve'' | Reject \<Rightarrow> ''reject'')"

datatype tasks_action = SelectTask task_out | CloseModal | Decide decision | GoWorkflows
datatype tasks_field = CommentField
datatype tasks_call = FetchTasks | FetchDetails uuid | PostDecision task_out
datatype tasks_payload = TasksData "task_out list" | DetailsData request_out | DecisionDone

type_synonym tasks_reaction = "(tasks_state, tasks_call) reaction"

definition tasks_mount :: tasks_reaction where
  "tasks_mount = (tasks_init, [Call FetchTasks GET ''requests/my-tasks'' NoBody])"

text \<open>The effect with dependency \<open>[selectedTask]\<close>.\<close>

definition tasks_deps :: "tasks_state \<Rightarrow> tasks_state \<Rightarrow> tasks_call effect list" where
  "tasks_deps old new =
     (if ts_selected old = ts_selected new then []
      else case ts_selected new of None \<Rightarrow> []
        | Some t \<Rightarrow> [Call (FetchDetails (tk_request_id t)) GET (''requests/'' @ tk_request_id t) NoBody])"

definition handleDecision :: "decision \<Rightarrow> tasks_state \<Rightarrow> tasks_reaction" where
  "handleDecision a s = (case ts_selected s of
     None \<Rightarrow> (s, [])
   | Some t \<Rightarrow> (s\<lparr>ts_processing := True\<rparr>,
       [Call (PostDecision t) POST (''/workflow-instances/'' @ tk_request_id t @ ''/decision'')
         (JsonBody (JObj [(''action'', JStr (decision_text a)), (''comment'', JStr (ts_comment s))]))]))"

definition tasks_click :: "js_env \<Rightarrow> tasks_action \<Rightarrow> tasks_state \<Rightarrow> tasks_reaction" where
  "tasks_click e c s = (case c of
     SelectTask t \<Rightarrow> (s\<lparr>ts_selected := Some t\<rparr>, [])
   | CloseModal \<Rightarrow> (s\<lparr>ts_selected := None\<rparr>, [])
   | Decide a \<Rightarrow> handleDecision a s
   | GoWorkflows \<Rightarrow> (s, [Push ''/workflows'']))"

definition tasks_change :: "tasks_field \<Rightarrow> string \<Rightarrow> tasks_state \<Rightarrow> tasks_reaction" where
  "tasks_change f v s = (s\<lparr>ts_comment := v\<rparr>, [])"

text \<open>The continuations. A successful decision removes the decided task with an updater function
  (\<open>prev => prev.filter(\<dots>)\<close>), so it works on the list as it is when the response arrives.\<close>

definition tasks_ok :: "js_env \<Rightarrow> tasks_call \<Rightarrow> tasks_payload \<Rightarrow> tasks_state \<Rightarrow> tasks_reaction" where
  "tasks_ok e k p s = (case (k, p) of
     (FetchTasks, TasksData ts) \<Rightarrow> (s\<lparr>ts_tasks := ts, ts_loading := False\<rparr>, [])
   | (FetchDetails i, DetailsData d) \<Rightarrow> (s\<lparr>ts_details := Some d\<rparr>, [])
   | (PostDecision t, _) \<Rightarrow>
       (s\<lparr>ts_tasks := filter (\<lambda>u. tk_request_step_id u \<noteq> tk_request_step_id t) (ts_tasks s),
          ts_selected := None, ts_details := None, ts_comment := '''', ts_processing := False\<rparr>, [])
   | _ \<Rightarrow> (s, []))"

definition tasks_fail :: "js_env \<Rightarrow> tasks_call \<Rightarrow> api_failure \<Rightarrow> tasks_state \<Rightarrow> tasks_reaction" where
  "tasks_fail e k x s = (case k of
     FetchTasks \<Rightarrow> (s\<lparr>ts_loading := False\<rparr>, [])
   | FetchDetails i \<Rightarrow> (s, [])
   | PostDecision t \<Rightarrow> (s\<lparr>ts_processing := False\<rparr>,
       [Alert ''Execution failed. Please verify your permissions.'']))"

section \<open>View\<close>

definition task_card :: "task_out \<Rightarrow> (tasks_action, tasks_field) node" where
  "task_card t = Area (SelectTask t)
     (show_if (tk_is_sla_breached t) [Txt ''SLA Incident Level 1''] @
      [Sty (if tk_is_sla_breached t then ''border-rose'' else ''border-white'')
         [Ico (if tk_is_sla_breached t then ''AlertCircle'' else ''GitBranch'')],
       Txt (tk_workflow_name t), Txt (tk_step_name t)] @
      (case tk_step_description t of None \<Rightarrow> []
         | Some d \<Rightarrow> show_if (d \<noteq> '''') [Txt d]) @
      [Txt ''Deadline: '', (case tk_deadline t of None \<Rightarrow> Txt ''UNRESTRICTED'' | Some d \<Rightarrow> Tim ''distance'' d),
       Txt ''Initialized '', Tim ''distance'' (tk_created_at t),
       Btn (SelectTask t) False [Txt ''Review Request'', Ico ''ArrowRight''],
       Txt ''Advances protocol state for your assigned role''])"

definition step_completed :: "request_step_out \<Rightarrow> bool" where
  "step_completed x = (so_status x = ''COMPLETED'' \<or> so_status x = ''APPROVED'')"

definition step_current :: "request_step_out \<Rightarrow> bool" where
  "step_current x = (so_status x = ''PENDING'' \<or> so_status x = ''IN_PROGRESS'')"

definition timeline_entry :: "nat \<times> request_step_out \<Rightarrow> (tasks_action, tasks_field) node" where
  "timeline_entry = (\<lambda>(i, x). Sty
     (if step_completed x then ''emerald'' else if step_current x then ''indigo'' else ''slate'')
     [Txt (case so_step_name x of None \<Rightarrow> ''Step '' @ show_nat (i + 1)
           | Some n \<Rightarrow> (if n = '''' then ''Step '' @ show_nat (i + 1) else n)),
      Txt (so_status x)])"

definition timeline_view :: "request_out option \<Rightarrow> (tasks_action, tasks_field) node list" where
  "timeline_view d = (case d of None \<Rightarrow> [Spin]
     | Some r \<Rightarrow> map timeline_entry (enumerate 0 (by_step_order (ro_steps r))))"

definition context_view :: "json option \<Rightarrow> (tasks_action, tasks_field) node list" where
  "context_view d = (case d of
     Some (JObj kvs) \<Rightarrow> map (\<lambda>(k, v). Box [Txt (k @ '':''), Val ''String'' v]) kvs
   | _ \<Rightarrow> [Txt ''No context data available.''])"

definition decision_buttons :: "tasks_state \<Rightarrow> (tasks_action, tasks_field) node" where
  "decision_buttons s = Box [
     Btn (Decide Reject) (ts_processing s) [Txt ''REJECT''],
     Btn (Decide Approve) (ts_processing s)
       (if ts_processing s then [Spin] else [Txt ''APPROVE REQUEST'', Ico ''ArrowRight''])]"

definition task_modal :: "tasks_state \<Rightarrow> task_out \<Rightarrow> (tasks_action, tasks_field) node" where
  "task_modal s t = Box [
     Area CloseModal [],
     Txt ''Execution Protocol'', Txt (tk_workflow_name t), Txt (tk_step_name t),
     Btn CloseModal False [Txt ''Close'', Txt ''X''],
     Txt ''Description'',
     Txt (case tk_step_description t of None \<Rightarrow> ''No description provided for this operational node.''
          | Some d \<Rightarrow> (if d = '''' then ''No description provided for this operational node.'' else d)),
     Txt ''Request Context'', Box (context_view (tk_request_data t)),
     Txt ''Timeline'', Box (timeline_view (ts_details s)),
     Txt ''Executive Commentary'', Inp CommentField (ts_comment s),
     decision_buttons s]"

definition tasks_view :: "js_env \<Rightarrow> tasks_state \<Rightarrow> (tasks_action, tasks_field) node" where
  "tasks_view e s = (if ts_loading s then Spin else Box [
     heading ''Action Buffer'' ''Strategic Tasks''
       ''Workflow nodes requiring high-privileged decision and operational action.'',
     (if ts_tasks s = [] then
        Box [Ico ''CheckCircle2'', Txt ''Strategic queue clear. All operational nodes stable.'',
             Btn GoWorkflows False [Ico ''GitBranch'', Txt ''Initialize New Strategy'']]
      else Box (map task_card (ts_tasks s))),
     Box (case ts_selected s of None \<Rightarrow> [] | Some t \<Rightarrow> [task_modal s t])])"

definition tasks_page :: "(tasks_state, tasks_action, tasks_field, tasks_call, tasks_payload) page" where
  "tasks_page = \<lparr>on_mount = tasks_mount, on_click = tasks_click, on_change = tasks_change,
     on_ok = tasks_ok, on_fail = tasks_fail, on_timer = (\<lambda>_ s. (s, [])),
     on_deps = tasks_deps, view = tasks_view\<rparr>"

lemma tasks_page_simps [simp]:
  "on_mount tasks_page = tasks_mount" "on_click tasks_page = tasks_click"
  "on_change tasks_page = tasks_change" "on_ok tasks_page = tasks_ok"
  "on_fail tasks_page = tasks_fail" "on_timer tasks_page = (\<lambda>_ s. (s, []))"
  "on_deps tasks_page = tasks_deps" "view tasks_page = tasks_view"
  by (simp_all add: tasks_page_def)

lemmas tasks_defs = tasks_click_def tasks_change_def tasks_ok_def tasks_fail_def handleDecision_def

section \<open>What the view offers\<close>

lemma clicks_task_card: "set (clicks (task_card t)) = {SelectTask t}"
  by (auto simp: task_card_def show_if_def split: option.splits)

lemma clicks_timeline [simp]: "concat (map clicks (timeline_view d)) = []"
  by (auto simp: timeline_view_def timeline_entry_def split: option.splits)

lemma clicks_context [simp]: "concat (map clicks (context_view d)) = []"
  by (auto simp: context_view_def split: option.splits json.splits)

lemma clicks_task_modal:
  "set (clicks (task_modal s t)) = {CloseModal} \<union> (if ts_processing s then {} else {Decide Approve, Decide Reject})"
  by (auto simp: task_modal_def decision_buttons_def)

lemma tasks_clicks:
  "set (clicks (tasks_view e s)) =
     (if ts_loading s then {}
      else (if ts_tasks s = [] then {GoWorkflows} else SelectTask ` set (ts_tasks s)) \<union>
        (if ts_selected s = None then {}
         else {CloseModal} \<union> (if ts_processing s then {} else {Decide Approve, Decide Reject})))"
  by (auto simp: tasks_view_def clicks_task_card clicks_task_modal split: option.splits)

lemma tasks_accepts:
  "accepts (tasks_view e s) f v \<longleftrightarrow> \<not> ts_loading s \<and> ts_selected s \<noteq> None"
proof -
  have card: "\<not> accepts (task_card t) f v" for t
    by (auto simp: task_card_def split: option.splits)
  have tl: "\<not> list_ex (\<lambda>n. accepts n f v) (timeline_view d)" for d
    by (auto simp: timeline_view_def timeline_entry_def list_ex_iff split: option.splits)
  have cx: "\<not> list_ex (\<lambda>n. accepts n f v) (context_view d)" for d
    by (auto simp: context_view_def list_ex_iff split: option.splits json.splits)
  have "accepts (task_modal s t) f v" for t
    by (cases f) (simp add: task_modal_def decision_buttons_def tl cx)
  with card show ?thesis
    by (cases "ts_selected s") (auto simp: tasks_view_def list_ex_iff)
qed

section \<open>Decisions\<close>

text \<open>A decision in flight keeps the buttons closed, so there is never a second one; and while
  the page loads nothing is selected.\<close>

definition is_decision :: "tasks_call \<Rightarrow> bool" where
  "is_decision k = (case k of PostDecision t \<Rightarrow> True | _ \<Rightarrow> False)"

definition tasks_inv :: "tasks_state \<Rightarrow> tasks_call list \<Rightarrow> bool" where
  "tasks_inv s ks \<longleftrightarrow> length (filter is_decision ks) = (if ts_processing s then 1 else 0)"

lemma calls_tasks_deps: "filter is_decision (calls (tasks_deps s s')) = []"
  by (auto simp: tasks_deps_def is_decision_def split: option.splits)

interpretation tasks: page_invariant tasks_page tasks_inv
proof
  show "tasks_inv (fst (on_mount tasks_page)) (calls (snd (on_mount tasks_page)))"
    by (simp add: tasks_inv_def tasks_mount_def tasks_init_def is_decision_def)
next
  fix s ks c e s' es
  assume "tasks_inv s ks" "c \<in> set (clicks (view tasks_page e s))" "on_click tasks_page e c s = (s', es)"
  then show "tasks_inv s' (ks @ calls es @ calls (on_deps tasks_page s s'))"
    by (auto simp: tasks_inv_def tasks_clicks tasks_defs calls_tasks_deps is_decision_def
        split: tasks_action.splits option.splits if_splits)
next
  fix s ks f v s' es e
  assume "tasks_inv s ks" "on_change tasks_page f v s = (s', es)"
  then show "tasks_inv s' (ks @ calls es @ calls (on_deps tasks_page s s'))"
    by (auto simp: tasks_inv_def tasks_defs calls_tasks_deps)
next
  fix s ks k e p s' es
  assume "tasks_inv s ks" "k \<in> set ks" "on_ok tasks_page e k p s = (s', es)"
  then show "tasks_inv s' (remove1 k ks @ calls es @ calls (on_deps tasks_page s s'))"
    by (auto simp: tasks_inv_def tasks_defs calls_tasks_deps filter_remove1_length is_decision_def
        split: tasks_call.splits tasks_payload.splits if_splits)
next
  fix s ks k e x s' es
  assume "tasks_inv s ks" "k \<in> set ks" "on_fail tasks_page e k x s = (s', es)"
  then show "tasks_inv s' (remove1 k ks @ calls es @ calls (on_deps tasks_page s s'))"
    by (auto simp: tasks_inv_def tasks_defs calls_tasks_deps filter_remove1_length is_decision_def
        split: tasks_call.splits if_splits)
next
  fix s ks k s' es
  assume "tasks_inv s ks" "on_timer tasks_page k s = (s', es)"
  then show "tasks_inv s' (ks @ calls es @ calls (on_deps tasks_page s s'))"
    by (simp add: calls_tasks_deps tasks_inv_def)
qed

section \<open>Properties\<close>

lemma decision_sent:
  assumes "reaches tasks_page s" and "Decide a \<in> set (clicks (tasks_view e (st s)))"
  shows "filter is_decision (inflight s) = [] \<and>
    (\<exists>t s'. ts_selected (st s) = Some t \<and> perform tasks_page e (Click (Decide a)) s = Some s' \<and>
      inflight s' = inflight s @ [PostDecision t] \<and> br_sent (br s') = br_sent (br s) @
        [intercept_request (br s) (make_request POST
           (''/workflow-instances/'' @ tk_request_id t @ ''/decision'')
           (JsonBody (JObj [(''action'', JStr (decision_text a)), (''comment'', JStr (ts_comment (st s)))])))])"
proof -
  have "tasks_inv (st s) (inflight s)" by (rule tasks.reaches_inv [OF assms(1)])
  then have "\<exists>t. ts_selected (st s) = Some t \<and> filter is_decision (inflight s) = []"
    using assms(2) by (auto simp: tasks_clicks tasks_inv_def split: if_splits)
  with assms(2) show ?thesis
    by (fastforce simp: react_def tasks_defs tasks_deps_def send_def)
qed

text \<open>
  C32. At any time at most one decision of the task list is in flight; the decision buttons are
  offered only when a task is selected and none is; clicking one then sends a single POST to that
  task's decision endpoint with the action and the comment.
\<close>

theorem tasks_single_decision:
  assumes "reaches tasks_page s"
  shows "length (filter is_decision (inflight s)) \<le> 1 \<and>
    (Decide a \<in> set (clicks (tasks_view e (st s))) \<longrightarrow>
      filter is_decision (inflight s) = [] \<and>
      (\<exists>t s'. ts_selected (st s) = Some t \<and> perform tasks_page e (Click (Decide a)) s = Some s' \<and>
        inflight s' = inflight s @ [PostDecision t] \<and> br_sent (br s') = br_sent (br s) @
          [intercept_request (br s) (make_request POST
             (''/workflow-instances/'' @ tk_request_id t @ ''/decision'')
             (JsonBody (JObj [(''action'', JStr (decision_text a)), (''comment'', JStr (ts_comment (st s)))])))]))"
proof -
  have "tasks_inv (st s) (inflight s)" by (rule tasks.reaches_inv [OF assms])
  then have "length (filter is_decision (inflight s)) \<le> 1" by (simp add: tasks_inv_def)
  with decision_sent [OF assms] show ?thesis by blast
qed

definition sample_task :: "uuid \<Rightarrow> task_out" where
  "sample_task i = \<lparr>tk_request_id = i, tk_request_step_id = i, tk_workflow_name = ''w'',
     tk_step_name = ''s'', tk_step_description = None, tk_deadline = None, tk_is_sla_breached = False,
     tk_request_data = None, tk_created_at = 0\<rparr>"

definition sample_env :: js_env where
  "sample_env = \<lparr>env_now = 0, env_rand = 0, env_randid = ''a'', env_errmsg = (\<lambda>_. ''''),
     env_email = (\<lambda>s. List.member s (CHR ''@''))\<rparr>"

definition sample_events :: "(js_env \<times> (tasks_action, tasks_field, tasks_call, tasks_payload) event) list" where
  "sample_events = [(sample_env, Ok FetchTasks (TasksData [sample_task ''a'', sample_task ''b''])),
     (sample_env, Click (SelectTask (sample_task ''a'')))]"

definition sample_tasks_state :: tasks_state where
  "sample_tasks_state = tasks_init\<lparr>ts_tasks := [sample_task ''a'', sample_task ''b''], ts_loading := False\<rparr>"

lemma sample_events_run:
  "\<exists>s. perform_all tasks_page sample_events (mounted tasks_page new_browser) = Some s \<and>
     st s = sample_tasks_state\<lparr>ts_selected := Some (sample_task ''a'')\<rparr>"
  by (auto simp: sample_events_def tasks_mount_def tasks_defs tasks_clicks tasks_init_def
      sample_tasks_state_def)

theorem tasks_single_decision_witness:
  "\<exists>s s'. reaches tasks_page s \<and> length (filter is_decision (inflight s)) \<le> 1 \<and>
     perform tasks_page sample_env (Click (Decide Approve)) s = Some s' \<and>
     rq_url (last (br_sent (br s'))) = ''/workflow-instances/a/decision''"
proof -
  obtain s where s: "perform_all tasks_page sample_events (mounted tasks_page new_browser) = Some s"
    and st: "st s = sample_tasks_state\<lparr>ts_selected := Some (sample_task ''a'')\<rparr>"
    using sample_events_run by blast
  have r: "reaches tasks_page s" by (rule reaches_perform_all [OF reaches.mount s])
  have "Decide Approve \<in> set (clicks (tasks_view sample_env (st s)))"
    by (simp add: st tasks_clicks sample_tasks_state_def tasks_init_def)
  with tasks_single_decision [OF r, of Approve sample_env] r st show ?thesis
    by (auto simp: sample_task_def make_request_def)
qed

text \<open>
  Whatever arrives while a decision is in flight, its success removes the decided task from
  the list as it is at that moment and nothing else: the answers of two decisions, in either order,
  leave the same list, without both tasks and with every other task in place.
\<close>

lemma decision_removal_commutes:
  "ts_tasks (fst (tasks_ok e (PostDecision t) p (fst (tasks_ok e' (PostDecision u) q s)))) =
   ts_tasks (fst (tasks_ok e' (PostDecision u) q (fst (tasks_ok e (PostDecision t) p s)))) \<and>
   set (ts_tasks (fst (tasks_ok e (PostDecision t) p (fst (tasks_ok e' (PostDecision u) q s))))) =
   {v \<in> set (ts_tasks s). tk_request_step_id v \<noteq> tk_request_step_id t \<and>
      tk_request_step_id v \<noteq> tk_request_step_id u}"
  by (auto simp: tasks_ok_def filter_commute conj_commute)

text \<open>
  C33. Closing the modal does not clear the commentary: text entered while one task was open is
  sent as the comment of a decision on another task that is opened afterwards.
\<close>

theorem comment_carried_over:
  assumes "\<not> ts_loading (st s)" and "\<not> ts_processing (st s)"
    and "{a, b} \<subseteq> set (ts_tasks (st s))"
  shows "\<exists>s'. perform_all tasks_page
       [(e, Click (SelectTask a)), (e, Change CommentField c), (e, Click CloseModal),
        (e, Click (SelectTask b)), (e, Click (Decide d))] s = Some s' \<and>
     rq_url (last (br_sent (br s'))) = ''/workflow-instances/'' @ tk_request_id b @ ''/decision'' \<and>
     rq_body (last (br_sent (br s'))) =
       JsonBody (JObj [(''action'', JStr (decision_text d)), (''comment'', JStr c)])"
proof -
  from assms have ne: "ts_tasks (st s) \<noteq> []" by auto
  have d: "d \<in> {Approve, Reject}" by (cases d) auto
  from assms ne d show ?thesis
    by (auto simp: tasks_clicks tasks_defs react_def tasks_deps_def send_def make_request_def tasks_accepts)
qed

theorem comment_carried_over_witness:
  "\<exists>s'. perform_all tasks_page
       [(sample_env, Click (SelectTask (sample_task ''a''))), (sample_env, Change CommentField ''no''),
        (sample_env, Click CloseModal), (sample_env, Click (SelectTask (sample_task ''b''))),
        (sample_env, Click (Decide Approve))]
       \<lparr>st = sample_tasks_state, inflight = [], timers = [], br = new_browser\<rparr> = Some s' \<and>
     rq_url (last (br_sent (br s'))) = ''/workflow-instances/'' @ ''b'' @ ''/decision''"
  using comment_carried_over [of "\<lparr>st = sample_tasks_state, inflight = [], timers = [], br = new_browser\<rparr>"
      "sample_task ''a''" "sample_task ''b''" sample_env "''no''" Approve]
  by (auto simp: sample_tasks_state_def tasks_init_def sample_task_def simp del: perform_all.simps)

end
