(* ===== verification/Composition.thy ===== *)
theory Composition
  imports Platform CreateWorkflowPage RequestPages TasksPage
begin

text \<open>
  The frontend on the backend: what the backend reads of the bodies that the pages send, and what the
  pages show of the backend's answers. The properties that follow are in the root theory.
\<close>

section \<open>The constructor's body\<close>

text \<open>pydantic reads a JSON integer as that integer and a JSON boolean as that boolean.\<close>

definition codec_ok :: "codec \<Rightarrow> bool" where
  "codec_ok cd \<longleftrightarrow> (\<forall>k. cd_int cd (JNum (of_int k)) = Some k) \<and> (\<forall>b. cd_bool cd (JBool b) = Some b)"

lemma codec_nat: "codec_ok cd \<Longrightarrow> cd_int cd (JNum (of_nat n)) = Some (int n)"
  unfolding codec_ok_def by (metis of_int_of_nat_eq)

definition chain_arrow :: "nat \<Rightarrow> nat option \<Rightarrow> string \<Rightarrow> transition_in" where
  "chain_arrow k to out = \<lparr>ti_from = int k, ti_to = map_option int to, ti_outcome = out, ti_condition = None\<rparr>"

definition chain_transitions :: "nat \<Rightarrow> transition_in list" where
  "chain_transitions n = concat (map (\<lambda>i.
     [chain_arrow (Suc i) (if Suc i < n then Some (Suc (Suc i)) else None) ''APPROVED'', chain_arrow (Suc i) None ''REJECTED'']) [0..<n])"

lemma arrow_read:
  assumes "codec_ok cd"
  shows "StepTransitionCreate cd (transition_json (Some (JNum (of_nat k))) (map_option (\<lambda>j. JNum (of_nat j)) to) out) =
    Some (chain_arrow k to out)"
  by (cases to) (simp_all add: StepTransitionCreate_def transition_json_def js_object_def required_def optional_def read_text_def
      read_dict_def codec_nat [OF assms] chain_arrow_def del: of_nat_Suc)

lemma those_append: "those (xs @ ys) = Option.bind (those xs) (\<lambda>a. map_option ((@) a) (those ys))"
proof (induction xs)
  case Nil
  then show ?case by (cases "those ys") simp_all
next
  case (Cons x xs)
  then show ?case by (cases x; cases "those xs"; cases "those ys") simp_all
qed

lemma those_concat: "(\<And>x. x \<in> set xs \<Longrightarrow> those (map f (g x)) = Some (h x)) \<Longrightarrow>
    those (map f (concat (map g xs))) = Some (concat (map h xs))"
  by (induction xs) (simp_all add: those_append)

lemma those_Some: "those xs = Some ys \<Longrightarrow> xs = map Some ys"
proof (induction xs arbitrary: ys)
  case (Cons x xs)
  then show ?case by (cases x; cases "those xs") auto
qed simp

lemma edges_read:
  assumes "codec_ok cd"
  shows "read_list (StepTransitionCreate cd) (JArr (chain_edges n)) = Some (chain_transitions n)"
proof -
  have a: "(if b then Some (JNum (of_nat j)) else None) = map_option (\<lambda>j. JNum (of_nat j)) (if b then Some j else None)" for b j
    by simp
  show ?thesis
    unfolding read_list_def json.case chain_edges_def chain_transitions_def a
    by (rule those_concat) (simp add: arrow_read [OF assms] arrow_read [OF assms, of _ None, simplified] del: of_nat_Suc)
qed

lemma wizard_step_read:
  assumes "codec_ok cd" "WorkflowStepCreate cd (wizard_step_json s) = Some si"
  shows "si_order si = int (ws_step_order s)" "si_name si = ws_name s" "si_sla_hours si = int (ws_sla_hours s)"
  using assms(2)
  by (auto simp: WorkflowStepCreate_def wizard_step_json_def required_def optional_def defaulted_def bounded_text_def at_least_def
      read_text_def codec_nat [OF assms(1)] bind_eq_Some_conv split: if_splits)

lemma steps_read:
  assumes "codec_ok cd" "read_list (WorkflowStepCreate cd) (JArr (map wizard_step_json ss)) = Some sis"
  shows "map si_order sis = map (\<lambda>s. int (ws_step_order s)) ss" "map si_name sis = map ws_name ss"
    "map si_sla_hours sis = map (\<lambda>s. int (ws_sla_hours s)) ss"
proof -
  have "map (\<lambda>s. WorkflowStepCreate cd (wizard_step_json s)) ss = map Some sis"
    using those_Some [of _ sis] assms(2) by (simp add: read_list_def o_def)
  then have "length ss = length sis" and r: "\<And>k. k < length ss \<Longrightarrow> WorkflowStepCreate cd (wizard_step_json (ss ! k)) = Some (sis ! k)"
    by (metis length_map, metis (no_types, lifting) length_map nth_map)
  then show "map si_order sis = map (\<lambda>s. int (ws_step_order s)) ss" "map si_name sis = map ws_name ss"
    "map si_sla_hours sis = map (\<lambda>s. int (ws_sla_hours s)) ss"
    using wizard_step_read [OF assms(1) r] by (auto intro!: nth_equalityI)
qed

lemma concat_single: "k < n \<Longrightarrow> concat (map (\<lambda>i. if i = k then X else []) [0..<n]) = X"
proof (induction n)
  case (Suc n)
  have "concat (map (\<lambda>i. if i = k then X else []) [0..<k]) = []" by simp
  with Suc show ?case by (cases "k = n") auto
qed simp

lemma chain_transitions_at:
  assumes "k < n"
  shows "filter (\<lambda>t. ti_from t = int (Suc k) \<and> ti_outcome t = out) (chain_transitions n) =
    filter (\<lambda>t. ti_outcome t = out)
      [chain_arrow (Suc k) (if Suc k < n then Some (Suc (Suc k)) else None) ''APPROVED'', chain_arrow (Suc k) None ''REJECTED'']"
    (is "filter ?P _ = filter ?Q (?f k)")
proof -
  have "filter ?P (?f i) = (if i = k then filter ?Q (?f k) else [])" for i
    by (auto simp: chain_arrow_def)
  then have "filter ?P (chain_transitions n) = concat (map (\<lambda>i. if i = k then filter ?Q (?f k) else []) [0..<n])"
    by (simp add: chain_transitions_def filter_concat o_def)
  also have "\<dots> = filter ?Q (?f k)" by (rule concat_single [OF assms])
  finally show ?thesis .
qed

text \<open>Whatever the constructor submits is a chain, if the backend accepts it at all.\<close>

lemma wizard_body_chain:
  assumes "codec_ok cd" and "orders_ok ss" and "ss \<noteq> []"
    and "WorkflowCreate cd (JObj [(''name'', JStr name), (''description'', JStr description), (''is_active'', JBool True),
      (''steps'', JArr (map wizard_step_json ss)), (''transitions'', JArr (chain_edges (length ss)))]) = Some wi"
  shows "chain_input wi \<and> wi_name wi = name \<and> map si_name (wi_steps wi) = map ws_name ss \<and>
    map si_sla_hours (wi_steps wi) = map (\<lambda>s. int (ws_sla_hours s)) ss"
proof -
  have r: "read_list (WorkflowStepCreate cd) (JArr (map wizard_step_json ss)) = Some (wi_steps wi)"
    and t: "wi_transitions wi = chain_transitions (length ss)" and n: "wi_name wi = name"
    using assms(4) edges_read [OF assms(1), of "length ss"]
    by (auto simp: WorkflowCreate_def required_def optional_def defaulted_def bounded_text_def bind_eq_Some_conv split: if_splits)
  note s = steps_read [OF assms(1) r]
  have len: "length (wi_steps wi) = length ss" using s(1) by (metis length_map)
  have "map int (map ws_step_order ss) = map int (map Suc [0..<length ss])" using assms(2) by (simp add: orders_ok_def)
  then have o: "step_orders wi = map (\<lambda>k. int (Suc k)) [0..<length (wi_steps wi)]"
    using s(1) len by (simp add: step_orders_def o_def del: of_nat_Suc)
  have "input_edges wi (int (Suc k)) ''APPROVED'' = [(if Suc k < length ss then Some (int (Suc (Suc k))) else None, None)]"
    "input_edges wi (int (Suc k)) ''REJECTED'' = [(None, None)]" if "k < length ss" for k
    by (simp_all add: input_edges_def t chain_transitions_at [OF that] del: of_nat_Suc) (simp_all add: chain_arrow_def)
  then have "chain_input wi"
    using o len assms(3) by (auto simp: chain_input_def)
  with n s(2,3) show ?thesis by simp
qed

text \<open>A successful creation.\<close>

lemma post_workflow_Success:
  assumes "post_workflow e cd u body d = (Success (Some w), d')" "rows_ok e d"
  obtains wi where "WorkflowCreate cd body = Some wi" "workflow_accepted e d wi" "wo_id w = db_uuid d (db_drawn d)"
    "d' = created e d wi (user_id u)"
proof -
  obtain wi where wi: "WorkflowCreate cd body = Some wi"
    using assms(1) by (cases "WorkflowCreate cd body") (auto simp: post_workflow_def)
  then obtain i where i: "transact (and_do (check_role u ''admin'') (\<lambda>_. create_workflow e wi (user_id u))) d = (Inr i, d')"
    "workflow_response e d' i = Some w"
    using assms(1) by (auto simp: post_workflow_def respond_def split: prod.splits sum.splits)
  then have "transact (create_workflow e wi (user_id u)) d = (Inr i, d')"
    by (auto simp: transact_check_role split: sum.splits)
  then have "create_workflow e wi (user_id u) d = (Inr i, d')"
    by (auto simp: transact_def split: prod.splits sum.splits)
  from create_workflow_Inr [OF assms(2) this] have "workflow_accepted e d wi" "i = db_uuid d (db_drawn d)" "d' = created e d wi (user_id u)"
    by simp_all
  moreover have "wo_id w = i"
    using i(2) get_row_Some [of wf_id i "db_workflows d'"] by (auto simp: workflow_response_def WorkflowSchema_def)
  ultimately show thesis using that [OF wi] by simp
qed

section \<open>Decisions of the task page\<close>

text \<open>A decision on an identifier that no request has.\<close>

lemma make_decision_unknown:
  assumes "get_row rq_id i (db_requests d) = None" "map_of kvs ''action'' = Some (JStr a)" "a \<noteq> ''''"
  shows "fst (make_decision e u i (JObj kvs) d) = Failed 400 \<and> same_tables d (snd (make_decision e u i (JObj kvs) d))"
proof -
  have "decide e i u kvs = process_step e i u (to_upper a) (Some [(''comment'', py_get ''comment'' kvs), (''action'', JStr a)])"
    using assms(2,3) by (simp add: decide_def Let_def)
  with assms(1) show ?thesis by (simp add: make_decision_def transact_def process_step_def decision_status_def)
qed

lemma decision_texts [simp]: "to_upper (decision_text a) \<in> {''APPROVE'', ''REJECT'', ''EXECUTE''}" "decision_text a \<noteq> ''''"
  by (cases a; simp add: decision_text_def)+

lemma page_decision_fails:
  assumes "committed e d" "srv_strict e"
  shows "fst (make_decision e u i (JObj [(''action'', JStr (decision_text a)), (''comment'', JStr c)]) d) \<in> {Failed 400, Failed 500} \<and>
    same_tables d (snd (make_decision e u i (JObj [(''action'', JStr (decision_text a)), (''comment'', JStr c)]) d))"
proof (cases "get_row rq_id i (db_requests d)")
  case None
  from make_decision_unknown [OF this, of _ "decision_text a" e u] show ?thesis by simp
next
  case (Some r)
  then have r: "r \<in> set (db_requests d)" "rq_id r = i" using get_row_Some [OF Some] by auto
  let ?kvs = "[(''action'', JStr (decision_text a)), (''comment'', JStr c)]"
  have "map_of ?kvs ''action'' = Some (JStr (decision_text a))" by simp
  from documented_actions [OF assms(1) r(1) assms(2) this decision_texts(1), of u] show ?thesis by (simp only: r(2))
qed

section \<open>Answers shown by the request page\<close>

text \<open>An event of the page whose answer, if any, is one that the backend serialises.\<close>

definition served :: "(detail_action, detail_field, detail_call, detail_payload) event \<Rightarrow> bool" where
  "served x = (case x of Ok k (RequestData r) \<Rightarrow> ro_steps r = [] | _ \<Rightarrow> True)"

lemma schema_served: "served (Ok k (RequestData (WorkflowRequestSchema q)))"
  by (simp add: served_def WorkflowRequestSchema_def)

definition stepless :: "detail_state \<Rightarrow> bool" where
  "stepless s = (case rd_request s of None \<Rightarrow> True | Some r \<Rightarrow> ro_steps r = [])"

lemma stepless_clicks: "stepless s \<Longrightarrow> clicks (detail_view e s) = []"
proof -
  assume "stepless s"
  then have "set (clicks (detail_view e s)) = {}"
    by (auto simp: stepless_def detail_clicks currentStep_def split: option.splits)
  then show ?thesis by (simp only: set_empty)
qed

lemma stepless_perform:
  assumes "stepless (st s)" "served x" "perform (detail_page i) e x s = Some s'"
    and "PostProcess \<notin> set (inflight s)"
  shows "stepless (st s') \<and> PostProcess \<notin> set (inflight s')"
proof (cases x)
  case (Click c)
  with assms stepless_clicks [OF assms(1), of e] show ?thesis by simp
next
  case (Change f v)
  with assms show ?thesis by (auto simp: detail_change_def stepless_def react_def split: if_splits)
next
  case (Ok k p)
  with assms show ?thesis
    by (cases k; cases p) (auto simp: detail_ok_def stepless_def served_def react_def
        dest: notin_set_remove1 split: if_splits)
next
  case (Fail k y)
  with assms show ?thesis
    by (cases k) (auto simp: detail_fail_def stepless_def react_def dest: notin_set_remove1 split: if_splits)
next
  case (Fire k)
  with assms show ?thesis by (auto simp: react_def split: if_splits)
qed

section \<open>A run of the constructor\<close>

definition constructor_events :: "(js_env \<times> (wizard_action, wizard_field, wizard_call, wizard_payload) event) list" where
  "constructor_events = [
     (sample_wizard_env ''a'', Change NameField ''Leave''), (sample_wizard_env ''a'', Click Continue),
     (sample_wizard_env ''a'', Click AddNode), (sample_wizard_env ''b'', Click Continue)]"

definition only_node :: wizard_step where
  "only_node = \<lparr>ws_tempId = ''a'', ws_name = ''Step 1'', ws_description = '''', ws_step_order = 1, ws_sla_hours = 24,
     ws_required_role_id = None, ws_required_permission_id = None, ws_is_conditional = False\<rparr>"

lemma constructor_run:
  obtains s where "reaches wizard_page s" "wz_mode (st s) = Wizard" "Submit \<in> set (clicks (wizard_view e (st s)))"
    "wz_workflowSteps (st s) = [only_node]" "wz_name (st s) = ''Leave''" "wz_description (st s) = ''''"
proof -
  have t: "trim ''Leave'' \<noteq> ''''" and n: "show_nat (Suc 0) = ''1''" by code_simp+
  have a: "accepts (wizard_view e s) NameField v" if "wz_mode s = Wizard" "wz_step s = 1" for e s v
    using that by (simp add: wizard_view_def show_if_def)
  have c: "c \<in> set (clicks (wizard_view e s))" if "wz_mode s = Wizard" "wz_step s < 3 \<and> c = Continue \<or> wz_step s = 2 \<and> c = AddNode" for c e s
    using that by (auto simp: wizard_clicks)
  have "\<exists>s. perform_all wizard_page constructor_events (mounted wizard_page new_browser) = Some s \<and> wz_mode (st s) = Wizard \<and>
      wz_step (st s) = 3 \<and> \<not> wz_isSubmitting (st s) \<and> wz_workflowSteps (st s) = [only_node] \<and> wz_name (st s) = ''Leave'' \<and>
      wz_description (st s) = ''''"
    using t by (simp add: constructor_events_def wizard_mount_def a c wizard_change_def wizard_click_def nextStep_def addStep_def
        generateDefaultTransitions_def sample_wizard_env_def wizard_init_def only_node_def n)
  then obtain s where s: "perform_all wizard_page constructor_events (mounted wizard_page new_browser) = Some s"
    "wz_mode (st s) = Wizard" "wz_step (st s) = 3" "\<not> wz_isSubmitting (st s)" "wz_workflowSteps (st s) = [only_node]"
    "wz_name (st s) = ''Leave''" "wz_description (st s) = ''''" by blast
  have "Submit \<in> set (clicks (wizard_view e (st s)))" using s(2-4) by (simp add: wizard_clicks)
  with that [OF reaches_perform_all [OF reaches.mount s(1)] s(2)] s(5-7) show thesis by blast
qed

lemma sample_codec_ok: "codec_ok sample_codec"
  by (simp add: codec_ok_def sample_codec_def)

definition constructed_input :: workflow_in where
  "constructed_input = \<lparr>wi_name = ''Leave'', wi_description = Some '''', wi_active = True,
     wi_steps = [\<lparr>si_name = ''Step 1'', si_description = Some '''', si_order = 1, si_sla_hours = 24, si_role_id = None,
       si_permission_id = None, si_is_conditional = False, si_condition = None\<rparr>], wi_transitions = chain_transitions 1\<rparr>"

lemma constructed_read:
  "WorkflowCreate sample_codec (JObj [(''name'', JStr ''Leave''), (''description'', JStr ''''), (''is_active'', JBool True),
     (''steps'', JArr (map wizard_step_json [only_node])), (''transitions'', JArr (chain_edges 1))]) = Some constructed_input"
proof -
  have "read_list (WorkflowStepCreate sample_codec) (JArr (map wizard_step_json [only_node])) = Some (wi_steps constructed_input)"
    by (simp add: read_list_def WorkflowStepCreate_def wizard_step_json_def only_node_def required_def optional_def defaulted_def
        bounded_text_def at_least_def read_text_def sample_codec_def constructed_input_def)
  with edges_read [OF sample_codec_ok, of 1] show ?thesis
    by (simp add: WorkflowCreate_def required_def optional_def defaulted_def bounded_text_def read_text_def constructed_input_def)
      (simp add: sample_codec_def)
qed

lemma constructed_accepted: "workflow_accepted (sample_server f) (empty_db uid) constructed_input"
proof -
  have "list_all (transition_row_ok (sample_server f)) (transition_rows u n m ts)"
    if "list_all (\<lambda>t. length (ti_outcome t) \<le> 50) ts" for u n m ts
    using that by (induction ts arbitrary: n) (auto simp: transition_row_ok_def transition_row_of_def split: option.split)
  moreover have "list_all (\<lambda>t. length (ti_outcome t) \<le> 50) (chain_transitions 1)"
    by (simp add: chain_transitions_def chain_arrow_def)
  ultimately show ?thesis
    by (simp add: workflow_accepted_def constructed_input_def empty_db_def step_input_ok_def step_row_ok_def step_row_of_def
        int32_def in_opt_def created_transitions_def)
qed

end
