(* ===== verification/WorkflowsPage.thy ===== *)
theory WorkflowsPage
  imports Runtime Blueprint
begin

text \<open>
  The workflow inventory, \<open>frontend/src/app/workflows/page.tsx\<close>: the list of workflows, the modal
  that creates one from a JSON blueprint (with a small form that adds steps to the text), and the
  modal that starts a request.
\<close>

section \<open>State and handlers\<close>

record inventory_state =
  iv_workflows :: "workflow_out list"
  iv_loading :: bool
  iv_starting :: "uuid option"
  iv_payload :: string
  iv_requestTitle :: string
  iv_requestPriority :: string
  iv_payloadModal :: "workflow_out option"
  iv_createModal :: bool
  iv_isSubmitting :: bool
  iv_blueprintJson :: string
  iv_roles :: "role_out list"
  iv_user :: "user_out option"
  iv_newStepName :: string
  iv_newStepRole :: string
  iv_newStepSLA :: rat

definition inventory_init :: inventory_state where
  "inventory_init = \<lparr>iv_workflows = [], iv_loading = True, iv_starting = None, iv_payload = '''',
     iv_requestTitle = '''', iv_requestPriority = ''medium'', iv_payloadModal = None,
     iv_createModal = False, iv_isSubmitting = False, iv_blueprintJson = '''', iv_roles = [],
     iv_user = None, iv_newStepName = '''', iv_newStepRole = '''', iv_newStepSLA = 24\<rparr>"

datatype inventory_action = OpenCreate | GoBuild | NewRequest workflow_out | DismissCreate | Discard
  | CommitBlueprint | AddStep | DismissPayload | Abort | StartWorkflow
datatype inventory_field = StepNameField | StepRoleField | StepSlaField | BlueprintField
  | RequestTitleField | PayloadField | PriorityField
datatype inventory_call = FetchInventory | PostBlueprint | RefreshList | PostStart
datatype inventory_payload =
    InventoryData "workflow_out list" user_out "role_out list"
  | BlueprintCreated | ListData "workflow_out list" | Started uuid

type_synonym inventory_reaction = "(inventory_state, inventory_call) reaction"

definition inventory_mount :: inventory_reaction where
  "inventory_mount = (inventory_init, [CallAll FetchInventory [''workflows/'', ''users/me'', ''roles/'']])"

text \<open>\<open>handleCreateWorkflow\<close> up to its first \<open>await\<close>: what throws before it is caught, alerted and
  followed by \<open>finally\<close>.\<close>

definition create_alert :: string where
  "create_alert = ''Failed to create workflow. Verify JSON structure and role names.''"

definition handleCreateWorkflow :: "inventory_state \<Rightarrow> inventory_reaction" where
  "handleCreateWorkflow s =
     (case and_then (JSON_parse (iv_blueprintJson s)) (blueprint_payload (find_role (iv_roles s))) of
        Inl e \<Rightarrow> (s\<lparr>iv_isSubmitting := False\<rparr>, [Alert create_alert])
      | Inr p \<Rightarrow> (s\<lparr>iv_isSubmitting := True\<rparr>, [Call PostBlueprint POST ''/workflows/'' (JsonBody p)]))"

definition handleAddStep :: "inventory_state \<Rightarrow> inventory_reaction" where
  "handleAddStep s =
     (if iv_newStepName s = '''' \<or> iv_newStepRole s = ''''
      then (s, [Alert ''Please provide a Step Name and Role.''])
      else case and_then (JSON_parse (iv_blueprintJson s))
             (add_blueprint_step (iv_newStepName s) (iv_newStepRole s) (iv_newStepSLA s)) of
        Inl e \<Rightarrow> (s, [Alert ''Invalid JSON in editor. Please fix before adding steps.''])
      | Inr updated \<Rightarrow> (s\<lparr>iv_blueprintJson := JSON_stringify updated, iv_newStepName := '''',
          iv_newStepRole := (case iv_roles s of [] \<Rightarrow> '''' | r # _ \<Rightarrow> role_name r),
          iv_newStepSLA := 24\<rparr>, []))"

definition handleStartWorkflow :: "inventory_state \<Rightarrow> inventory_reaction" where
  "handleStartWorkflow s = (case iv_payloadModal s of
     None \<Rightarrow> (s, [])
   | Some w \<Rightarrow> (if trim (iv_requestTitle s) = '''' then (s, [Alert ''Please provide a request title.''])
       else (s\<lparr>iv_starting := Some (wo_id w)\<rparr>, [Call PostStart POST ''/requests/'' (JsonBody (JObj
         [(''workflow_id'', JStr (wo_id w)),
          (''request_data'', JObj [(''title'', JStr (iv_requestTitle s)),
             (''description'', JStr (iv_payload s)), (''priority'', JStr (iv_requestPriority s))])]))])))"

text \<open>Clicks beside a modal close it unless its call is pending; \<open>!starting\<close> also holds for an
  empty identifier.\<close>

definition inventory_click :: "js_env \<Rightarrow> inventory_action \<Rightarrow> inventory_state \<Rightarrow> inventory_reaction" where
  "inventory_click e c s = (case c of
     OpenCreate \<Rightarrow> (s\<lparr>iv_createModal := True\<rparr>, [])
   | GoBuild \<Rightarrow> (s, [Push ''/admin/workflows/create''])
   | NewRequest w \<Rightarrow> (s\<lparr>iv_payloadModal := Some w, iv_payload := ''''\<rparr>, [])
   | DismissCreate \<Rightarrow> (if iv_isSubmitting s then (s, []) else (s\<lparr>iv_createModal := False\<rparr>, []))
   | Discard \<Rightarrow> (s\<lparr>iv_createModal := False\<rparr>, [])
   | CommitBlueprint \<Rightarrow> handleCreateWorkflow s
   | AddStep \<Rightarrow> handleAddStep s
   | DismissPayload \<Rightarrow> (if iv_starting s = None \<or> iv_starting s = Some '''' then (s\<lparr>iv_payloadModal := None\<rparr>, [])
       else (s, []))
   | Abort \<Rightarrow> (s\<lparr>iv_payloadModal := None\<rparr>, [])
   | StartWorkflow \<Rightarrow> handleStartWorkflow s)"

text \<open>The value of a number input: the browser empties it unless it is a floating-point number,
  and \<open>Number("")\<close> is 0.\<close>

definition number_input :: "string \<Rightarrow> rat" where
  "number_input v =
     (let neg = (v \<noteq> '''' \<and> hd v = CHR ''-''); u = (if neg then tl v else v);
          ip = takeWhile is_digit u; r = dropWhile is_digit u; dot = (r \<noteq> '''' \<and> hd r = CHR ''.'');
          fp = (if dot then takeWhile is_digit (tl r) else ''''); r' = (if dot then dropWhile is_digit (tl r) else r)
      in if ip @ fp = '''' \<or> (dot \<and> fp = '''') then 0
         else case parse_exponent r' of None \<Rightarrow> 0
           | Some e \<Rightarrow> (if neg then -1 else 1) * scale10 (of_nat (dec_value (ip @ fp))) (e - int (length fp)))"

definition inventory_change :: "inventory_field \<Rightarrow> string \<Rightarrow> inventory_state \<Rightarrow> inventory_reaction" where
  "inventory_change f v s = (case f of
     StepNameField \<Rightarrow> (s\<lparr>iv_newStepName := v\<rparr>, [])
   | StepRoleField \<Rightarrow> (s\<lparr>iv_newStepRole := v\<rparr>, [])
   | StepSlaField \<Rightarrow> (s\<lparr>iv_newStepSLA := number_input v\<rparr>, [])
   | BlueprintField \<Rightarrow> (s\<lparr>iv_blueprintJson := v\<rparr>, [])
   | RequestTitleField \<Rightarrow> (s\<lparr>iv_requestTitle := v\<rparr>, [])
   | PayloadField \<Rightarrow> (s\<lparr>iv_payload := v\<rparr>, [])
   | PriorityField \<Rightarrow> (s\<lparr>iv_requestPriority := v\<rparr>, []))"

text \<open>The \<open>finally\<close> block of \<open>handleStartWorkflow\<close>.\<close>

definition end_start :: "inventory_state \<Rightarrow> inventory_state" where
  "end_start s = s\<lparr>iv_starting := None, iv_payloadModal := None, iv_requestTitle := '''',
     iv_payload := '''', iv_requestPriority := ''medium''\<rparr>"

definition inventory_ok :: "js_env \<Rightarrow> inventory_call \<Rightarrow> inventory_payload \<Rightarrow> inventory_state \<Rightarrow> inventory_reaction" where
  "inventory_ok e k p s = (case (k, p) of
     (FetchInventory, InventoryData ws u rs) \<Rightarrow>
       (s\<lparr>iv_workflows := ws, iv_user := Some u, iv_roles := rs,
          iv_blueprintJson := JSON_stringify (defaultBlueprint (env_rand e)), iv_loading := False\<rparr>, [])
   | (PostBlueprint, _) \<Rightarrow> (s, [Call RefreshList GET ''/workflows/'' NoBody])
   | (RefreshList, ListData ws) \<Rightarrow>
       (s\<lparr>iv_workflows := ws, iv_createModal := False, iv_isSubmitting := False\<rparr>, [])
   | (PostStart, Started i) \<Rightarrow> (end_start s, [Push (''/instances/'' @ i)])
   | (FetchInventory, _) \<Rightarrow> (s\<lparr>iv_loading := False\<rparr>, [])
   | (RefreshList, _) \<Rightarrow> (s\<lparr>iv_isSubmitting := False\<rparr>, [Alert create_alert])
   | (PostStart, _) \<Rightarrow> (end_start s, []))"

definition inventory_fail :: "js_env \<Rightarrow> inventory_call \<Rightarrow> api_failure \<Rightarrow> inventory_state \<Rightarrow> inventory_reaction" where
  "inventory_fail e k x s = (case k of
     FetchInventory \<Rightarrow> (s\<lparr>iv_loading := False\<rparr>, [])
   | PostBlueprint \<Rightarrow> (s\<lparr>iv_isSubmitting := False\<rparr>, [Alert create_alert])
   | RefreshList \<Rightarrow> (s\<lparr>iv_isSubmitting := False\<rparr>, [Alert create_alert])
   | PostStart \<Rightarrow> (end_start s, []))"

section \<open>View\<close>

definition user_is_admin :: "inventory_state \<Rightarrow> bool" where
  "user_is_admin s = (case iv_user s of None \<Rightarrow> False
     | Some u \<Rightarrow> list_ex (\<lambda>r. to_lower (role_name r) = ''admin'') (usr_roles u))"

definition inventory_header :: "inventory_state \<Rightarrow> (inventory_action, inventory_field) node" where
  "inventory_header s = Box (
     [heading ''Operational Blueprints'' ''Workflow Inventory''
       ''Manage and orchestrate enterprise-grade logic templates across your infrastructure.''] @
     show_if (user_is_admin s)
       [Btn OpenCreate False [Ico ''Plus'', Txt ''Start New Workflow''],
        Btn GoBuild False [Ico ''Cpu'', Txt ''Build Strategy'']])"

definition description_or :: "string \<Rightarrow> workflow_out \<Rightarrow> string" where
  "description_or d w = (case wo_description w of None \<Rightarrow> d | Some t \<Rightarrow> if t = '''' then d else t)"

definition workflow_card :: "workflow_out \<Rightarrow> (inventory_action, inventory_field) node" where
  "workflow_card w = Box [Ico ''Play'', Txt ''Protocol v4.1'', Txt (wo_name w),
     Txt (description_or ''System-defined orchestration template for automated cross-departmental processing.'' w),
     Txt (show_nat (length (wo_steps w))), Txt ''Strategic Nodes'',
     Btn (NewRequest w) False [Txt ''New Request'']]"

definition workflow_cards :: "workflow_out list \<Rightarrow> (inventory_action, inventory_field) node" where
  "workflow_cards ws = (if ws = [] then Box [Ico ''Info'', Txt ''No operational architectures deployed.'']
     else Box (map workflow_card ws))"

definition step_form :: "inventory_state \<Rightarrow> (inventory_action, inventory_field) node" where
  "step_form s = Box [Txt ''Add Evaluation Node'',
     Inp StepNameField (iv_newStepName s),
     Sel StepRoleField (iv_newStepRole s)
       (('''', ''Select Role...'') # map (\<lambda>r. (role_name r, role_name r)) (iv_roles s)),
     Sty ''number'' [Inp StepSlaField (show_number (iv_newStepSLA s))],
     Btn AddStep False [Ico ''Plus'']]"

definition create_modal :: "inventory_state \<Rightarrow> (inventory_action, inventory_field) node" where
  "create_modal s = Box [
     Area DismissCreate [],
     Ico ''Plus'', Txt ''Define Operational Blueprint'', Txt ''JSON Source Interface'',
     Txt ''Available Roles'', Box (map (\<lambda>r. Txt (role_name r)) (iv_roles s)),
     step_form s,
     Txt ''Blueprint Definition (JSON)'', Inp BlueprintField (iv_blueprintJson s),
     Txt ''Interface Logic'', Txt ''Role-Based Tiers'', Txt ''Sequence Order'', Txt ''Validation'', Txt ''Pro Tip'',
     Btn Discard (iv_isSubmitting s) [Txt ''Discard''],
     Btn CommitBlueprint (iv_isSubmitting s)
       (if iv_isSubmitting s then [Spin] else [Txt ''Commit Blueprint''])]"

definition payload_modal :: "inventory_state \<Rightarrow> workflow_out \<Rightarrow> (inventory_action, inventory_field) node" where
  "payload_modal s w = Box [
     Area DismissPayload [],
     Ico ''Cpu'', Txt ''Initialize Sequence'', Txt (wo_name w),
     Txt ''Request Title *'', Inp RequestTitleField (iv_requestTitle s),
     Txt ''Description'', Inp PayloadField (iv_payload s),
     Txt ''Priority'', Sel PriorityField (iv_requestPriority s)
       [(''low'', ''Low''), (''medium'', ''Medium''), (''high'', ''High'')],
     Btn Abort (iv_starting s \<noteq> None) [Txt ''Abort''],
     Btn StartWorkflow (iv_starting s \<noteq> None)
       (case iv_starting s of None \<Rightarrow> [Txt ''Start Request''] | Some i \<Rightarrow> if i = '''' then [Txt ''Start Request''] else [Spin])]"

definition inventory_view :: "js_env \<Rightarrow> inventory_state \<Rightarrow> (inventory_action, inventory_field) node" where
  "inventory_view e s = (if iv_loading s then Spin else Box (
     [inventory_header s, workflow_cards (iv_workflows s)] @
     show_if (iv_createModal s) [create_modal s] @
     (case iv_payloadModal s of None \<Rightarrow> [] | Some w \<Rightarrow> [payload_modal s w])))"

definition inventory_page :: "(inventory_state, inventory_action, inventory_field, inventory_call, inventory_payload) page" where
  "inventory_page = \<lparr>on_mount = inventory_mount, on_click = inventory_click, on_change = inventory_change,
     on_ok = inventory_ok, on_fail = inventory_fail, on_timer = (\<lambda>_ s. (s, [])),
     on_deps = (\<lambda>_ _. []), view = inventory_view\<rparr>"

lemma inventory_page_simps [simp]:
  "on_mount inventory_page = inventory_mount" "on_click inventory_page = inventory_click"
  "on_change inventory_page = inventory_change" "on_ok inventory_page = inventory_ok"
  "on_fail inventory_page = inventory_fail" "on_timer inventory_page = (\<lambda>_ s. (s, []))"
  "on_deps inventory_page = (\<lambda>_ _. [])" "view inventory_page = inventory_view"
  by (simp_all add: inventory_page_def)

lemmas inventory_defs = inventory_click_def inventory_change_def handleCreateWorkflow_def
  handleAddStep_def handleStartWorkflow_def end_start_def

section \<open>What the view offers\<close>

lemma workflow_cards_parts [simp]:
  "set (clicks (workflow_cards ws)) = NewRequest ` set ws" "accepts (workflow_cards ws) f v = False"
  by (auto simp: workflow_cards_def workflow_card_def)

lemma inventory_header_parts [simp]:
  "set (clicks (inventory_header s)) = (if user_is_admin s then {OpenCreate, GoBuild} else {})"
  "accepts (inventory_header s) f v = False"
  by (auto simp: inventory_header_def)

lemma create_modal_clicks [simp]:
  "set (clicks (create_modal s)) =
     {DismissCreate, AddStep} \<union> (if iv_isSubmitting s then {} else {Discard, CommitBlueprint})"
  by (auto simp: create_modal_def step_form_def)

lemma payload_modal_clicks [simp]:
  "set (clicks (payload_modal s w)) =
     {DismissPayload} \<union> (if iv_starting s = None then {Abort, StartWorkflow} else {})"
  by (auto simp: payload_modal_def)

lemma inventory_clicks:
  "set (clicks (inventory_view e s)) = (if iv_loading s then {} else
     (if user_is_admin s then {OpenCreate, GoBuild} else {}) \<union> NewRequest ` set (iv_workflows s) \<union>
     (if iv_createModal s then {DismissCreate, AddStep} \<union>
        (if iv_isSubmitting s then {} else {Discard, CommitBlueprint}) else {}) \<union>
     (if iv_payloadModal s = None then {} else
        {DismissPayload} \<union> (if iv_starting s = None then {Abort, StartWorkflow} else {})))"
  by (cases "iv_payloadModal s") (auto simp: inventory_view_def)

lemma create_modal_accepts [simp]:
  "accepts (create_modal s) f v \<longleftrightarrow> f \<in> {StepNameField, StepSlaField, BlueprintField} \<or>
     f = StepRoleField \<and> (v = '''' \<or> v \<in> role_name ` set (iv_roles s))"
  by (cases f) (auto simp: create_modal_def step_form_def image_image)

lemma payload_modal_accepts [simp]:
  "accepts (payload_modal s w) f v \<longleftrightarrow> f \<in> {RequestTitleField, PayloadField} \<or>
     f = PriorityField \<and> v \<in> {''low'', ''medium'', ''high''}"
  by (cases f) (auto simp: payload_modal_def)

lemma inventory_accepts:
  "accepts (inventory_view e s) f v \<longleftrightarrow> \<not> iv_loading s \<and>
     (iv_createModal s \<and> accepts (create_modal s) f v \<or>
      (\<exists>w. iv_payloadModal s = Some w \<and> accepts (payload_modal s w) f v))"
  by (cases "iv_payloadModal s") (auto simp: inventory_view_def simp del: create_modal_accepts payload_modal_accepts)

section \<open>One creation and one start at a time\<close>

definition is_creation :: "inventory_call \<Rightarrow> bool" where
  "is_creation k = (case k of PostBlueprint \<Rightarrow> True | RefreshList \<Rightarrow> True | _ \<Rightarrow> False)"

definition is_start :: "inventory_call \<Rightarrow> bool" where
  "is_start k = (k = PostStart)"

definition inventory_inv :: "inventory_state \<Rightarrow> inventory_call list \<Rightarrow> bool" where
  "inventory_inv s ks \<longleftrightarrow> length (filter is_creation ks) = (if iv_isSubmitting s then 1 else 0) \<and>
     length (filter is_start ks) = (if iv_starting s = None then 0 else 1)"

lemma call_kinds [simp]:
  "is_creation FetchInventory = False" "is_creation PostBlueprint = True"
  "is_creation RefreshList = True" "is_creation PostStart = False"
  "is_start FetchInventory = False" "is_start PostBlueprint = False"
  "is_start RefreshList = False" "is_start PostStart = True"
  by (simp_all add: is_creation_def is_start_def)

interpretation inventory: page_invariant inventory_page inventory_inv
proof
  show "inventory_inv (fst (on_mount inventory_page)) (calls (snd (on_mount inventory_page)))"
    by (simp add: inventory_inv_def inventory_mount_def inventory_init_def)
next
  fix s ks c e s' es
  assume i: "inventory_inv s ks" and c: "c \<in> set (clicks (view inventory_page e s))"
    and r: "on_click inventory_page e c s = (s', es)"
  have "c = CommitBlueprint \<Longrightarrow> \<not> iv_isSubmitting s" and "c = StartWorkflow \<Longrightarrow> iv_starting s = None"
    using c by (auto simp: inventory_clicks split: if_splits)
  with i r show "inventory_inv s' (ks @ calls es @ calls (on_deps inventory_page s s'))"
    by (cases c) (auto simp: inventory_inv_def inventory_defs split: if_splits option.splits sum.splits)
next
  fix s ks f v s' es e
  assume "inventory_inv s ks" "on_change inventory_page f v s = (s', es)"
  then show "inventory_inv s' (ks @ calls es @ calls (on_deps inventory_page s s'))"
    by (cases f) (auto simp: inventory_inv_def inventory_change_def)
next
  fix s ks k e p s' es
  assume "inventory_inv s ks" "k \<in> set ks" "on_ok inventory_page e k p s = (s', es)"
  then show "inventory_inv s' (remove1 k ks @ calls es @ calls (on_deps inventory_page s s'))"
    by (cases k; cases p) (auto simp: inventory_inv_def inventory_ok_def end_start_def filter_remove1_length
        filter_empty_conv split: if_splits)
next
  fix s ks k e x s' es
  assume "inventory_inv s ks" "k \<in> set ks" "on_fail inventory_page e k x s = (s', es)"
  then show "inventory_inv s' (remove1 k ks @ calls es @ calls (on_deps inventory_page s s'))"
    by (cases k) (auto simp: inventory_inv_def inventory_fail_def end_start_def filter_remove1_length
        split: if_splits)
next
  fix s ks k s' es
  assume "inventory_inv s ks" "on_timer inventory_page k s = (s', es)"
  then show "inventory_inv s' (ks @ calls es @ calls (on_deps inventory_page s s'))"
    by auto
qed

section \<open>Properties\<close>

text \<open>
  C38. Creating a workflow from the inventory: in every session at most one creation is pending, and the
  commit button is offered only in an open modal with none pending. A click on it sends exactly one POST
  when the text is JSON of a blueprint that can be sent, and closes the button until the answer; the body
  has the name and the description of the text, one step for each of the blueprint's, in order, with 24
  hours where it states none (or 0) and the role of its name, and one approval transition from each to the
  next, the last to the end. Otherwise it alerts and sends nothing.
\<close>

theorem inventory_single_creation:
  assumes "reaches inventory_page s"
  shows "length (filter is_creation (inflight s)) \<le> 1 \<and>
    (CommitBlueprint \<in> set (clicks (inventory_view e (st s))) \<longrightarrow>
      iv_createModal (st s) \<and> filter is_creation (inflight s) = [] \<and>
      (\<exists>s'. perform inventory_page e (Click CommitBlueprint) s = Some s' \<and>
        (if \<exists>data. JSON_parse (iv_blueprintJson (st s)) = Inr data \<and> blueprint_ok text_role (iv_roles (st s)) data
         then filter is_creation (inflight s') = [PostBlueprint] \<and> CommitBlueprint \<notin> set (clicks (inventory_view e' (st s'))) \<and>
           (\<exists>data p. JSON_parse (iv_blueprintJson (st s)) = Inr data \<and> payload_sent role_named (iv_roles (st s)) data p \<and>
             br_sent (br s') = br_sent (br s) @ [intercept_request (br s) (make_request POST ''/workflows/'' (JsonBody p))])
         else br_sent (br s') = br_sent (br s) \<and> br_alerts (br s') = br_alerts (br s) @ [create_alert])))"
proof -
  have inv: "inventory_inv (st s) (inflight s)" by (rule inventory.reaches_inv [OF assms])
  then have "length (filter is_creation (inflight s)) \<le> 1" by (simp add: inventory_inv_def split: if_splits)
  moreover {
    assume c: "CommitBlueprint \<in> set (clicks (inventory_view e (st s)))"
    then have open_modal: "iv_createModal (st s)" "\<not> iv_isSubmitting (st s)" by (auto simp: inventory_clicks split: if_splits)
    with inv have n: "filter is_creation (inflight s) = []" by (simp add: inventory_inv_def)
    have p: "perform inventory_page e (Click CommitBlueprint) s = Some (react inventory_page (handleCreateWorkflow (st s)) s)"
      using c by (simp add: inventory_click_def)
    note run = by_name.blueprint_payload_run [of "iv_roles (st s)"]
    have "if \<exists>data. JSON_parse (iv_blueprintJson (st s)) = Inr data \<and> blueprint_ok text_role (iv_roles (st s)) data
       then \<exists>data p. JSON_parse (iv_blueprintJson (st s)) = Inr data \<and> payload_sent role_named (iv_roles (st s)) data p \<and>
         handleCreateWorkflow (st s) = ((st s)\<lparr>iv_isSubmitting := True\<rparr>, [Call PostBlueprint POST ''/workflows/'' (JsonBody p)])
       else handleCreateWorkflow (st s) = ((st s)\<lparr>iv_isSubmitting := False\<rparr>, [Alert create_alert])"
    proof (cases "JSON_parse (iv_blueprintJson (st s))")
      case (Inr data)
      with run [of data] show ?thesis
        by (cases "blueprint_payload (find_role (iv_roles (st s))) data") (simp_all add: handleCreateWorkflow_def)
    qed (simp add: handleCreateWorkflow_def)
    with p n open_modal c have "iv_createModal (st s) \<and> filter is_creation (inflight s) = [] \<and>
      (\<exists>s'. perform inventory_page e (Click CommitBlueprint) s = Some s' \<and>
        (if \<exists>data. JSON_parse (iv_blueprintJson (st s)) = Inr data \<and> blueprint_ok text_role (iv_roles (st s)) data
         then filter is_creation (inflight s') = [PostBlueprint] \<and> CommitBlueprint \<notin> set (clicks (inventory_view e' (st s'))) \<and>
           (\<exists>data p. JSON_parse (iv_blueprintJson (st s)) = Inr data \<and> payload_sent role_named (iv_roles (st s)) data p \<and>
             br_sent (br s') = br_sent (br s) @ [intercept_request (br s) (make_request POST ''/workflows/'' (JsonBody p))])
         else br_sent (br s') = br_sent (br s) \<and> br_alerts (br s') = br_alerts (br s) @ [create_alert]))"
      by (auto simp: react_def send_def inventory_clicks split: if_splits)
  }
  ultimately show ?thesis by blast
qed

definition sample_inventory_env :: js_env where
  "sample_inventory_env = \<lparr>env_now = 0, env_rand = 7, env_randid = ''x'', env_errmsg = (\<lambda>_. ''''),
     env_email = (\<lambda>s. List.member s (CHR ''@''))\<rparr>"

definition sample_admin :: user_out where
  "sample_admin = \<lparr>usr_id = ''u'', usr_full_name = ''Ada'', usr_roles = [\<lparr>role_id = ''r'', role_name = ''Admin''\<rparr>]\<rparr>"

definition sample_inventory_events :: "(js_env \<times> (inventory_action, inventory_field, inventory_call, inventory_payload) event) list" where
  "sample_inventory_events = [
     (sample_inventory_env, Ok FetchInventory (InventoryData [] sample_admin (usr_roles sample_admin))),
     (sample_inventory_env, Click OpenCreate)]"

definition sample_inventory :: inventory_state where
  "sample_inventory = inventory_init\<lparr>iv_user := Some sample_admin, iv_roles := usr_roles sample_admin,
     iv_blueprintJson := JSON_stringify (defaultBlueprint 7), iv_loading := False, iv_createModal := True\<rparr>"

lemma sample_inventory_run:
  "\<exists>s. perform_all inventory_page sample_inventory_events (mounted inventory_page new_browser) = Some s \<and>
     st s = sample_inventory"
proof -
  have "to_lower ''Admin'' = ''admin''" by code_simp
  then show ?thesis
    by (simp add: sample_inventory_events_def inventory_mount_def inventory_ok_def inventory_clicks
        inventory_click_def sample_inventory_env_def sample_inventory_def inventory_init_def user_is_admin_def
        sample_admin_def)
qed

lemma sample_inventory_click:
  "CommitBlueprint \<in> set (clicks (inventory_view e sample_inventory))"
  by (simp add: sample_inventory_def inventory_clicks inventory_init_def)

theorem inventory_single_creation_witness:
  "\<exists>s s' p. reaches inventory_page s \<and> perform inventory_page sample_inventory_env (Click CommitBlueprint) s = Some s' \<and>
     filter is_creation (inflight s') = [PostBlueprint] \<and> rq_body (last (br_sent (br s'))) = JsonBody p \<and>
     field ''name'' p = Some (JStr ''NEW_PROTOCOL_7'') \<and>
     field ''description'' p = Some (JStr ''Enterprise-grade orchestration logic.'')"
proof -
  obtain s where s: "perform_all inventory_page sample_inventory_events (mounted inventory_page new_browser) = Some s"
    and st: "st s = sample_inventory"
    using sample_inventory_run by blast
  have r: "reaches inventory_page s" by (rule reaches_perform_all [OF reaches.mount s])
  have c: "CommitBlueprint \<in> set (clicks (inventory_view sample_inventory_env (st s)))"
    unfolding st by (rule sample_inventory_click)
  have j: "JSON_parse (iv_blueprintJson (st s)) = Inr (defaultBlueprint 7)"
    unfolding st by (simp add: sample_inventory_def parse_stringify [OF printable_default(1)])
  have "blueprint_ok text_role (iv_roles (st s)) (defaultBlueprint 7)"
    by (simp add: blueprint_ok_def defaultBlueprint_def field_def blueprint_step_def text_role_def)
  with inventory_single_creation [OF r, of sample_inventory_env sample_inventory_env] c j
  obtain s' p where s': "perform inventory_page sample_inventory_env (Click CommitBlueprint) s = Some s'"
    "filter is_creation (inflight s') = [PostBlueprint]" "payload_sent role_named (iv_roles (st s)) (defaultBlueprint 7) p"
    "br_sent (br s') = br_sent (br s) @ [intercept_request (br s) (make_request POST ''/workflows/'' (JsonBody p))]"
    by (auto simp del: perform.simps)
  have n: "protocol_name 7 = ''NEW_PROTOCOL_7''" by code_simp
  have "rq_body (last (br_sent (br s'))) = JsonBody p"
    by (simp add: s'(4) make_request_def intercept_request_def split: option.split)
  moreover have "field ''name'' p = Some (JStr ''NEW_PROTOCOL_7'')" "field ''description'' p = Some (JStr ''Enterprise-grade orchestration logic.'')"
    using s'(3) unfolding payload_sent_def by (simp_all add: field_def [of _ "defaultBlueprint 7"]) (simp_all add: defaultBlueprint_def n)
  ultimately show ?thesis using r s'(1,2) by blast
qed

text \<open>
  C37. Adding a step, from text to text: when the editor's text parses to an object whose step list is a
  list (or missing, \<open>null\<close>, empty), with a name and a role entered, the button replaces the text by one that
  parses to the same object with the new step appended: its name, role and hours as entered, its number one
  above the number of steps; every other key is unchanged, nothing is sent, and the inputs are reset to no
  name, the first role and 24 hours. (For objects without repeated keys whose numbers, the entered hours
  too, are integers.)
\<close>

theorem add_step_appends:
  assumes "JSON_parse (iv_blueprintJson s) = Inr (JObj kvs)" and "js_or (map_of kvs ''steps'') (Some (JArr [])) = Some (JArr ss)"
    and "printable (JObj kvs)" and "iv_newStepName s \<noteq> ''''" and "iv_newStepRole s \<noteq> ''''"
    and "iv_newStepSLA s = of_int h"
  shows "\<exists>s' kvs'. inventory_click e AddStep s = (s', []) \<and> JSON_parse (iv_blueprintJson s') = Inr (JObj kvs') \<and>
    map_of kvs' ''steps'' = Some (JArr (ss @ [JObj [(''name'', JStr (iv_newStepName s)), (''role'', JStr (iv_newStepRole s)),
       (''order'', JNum (of_nat (length ss + 1))), (''sla'', JNum (of_int h))]])) \<and>
    (\<forall>k. k \<noteq> ''steps'' \<longrightarrow> map_of kvs' k = map_of kvs k) \<and>
    iv_newStepName s' = '''' \<and> iv_newStepSLA s' = 24 \<and>
    iv_newStepRole s' = (case iv_roles s of [] \<Rightarrow> '''' | r # _ \<Rightarrow> role_name r)"
proof -
  let ?new = "JArr (ss @ [JObj [(''name'', JStr (iv_newStepName s)), (''role'', JStr (iv_newStepRole s)),
       (''order'', JNum (of_nat (length ss + 1))), (''sla'', JNum (of_int h))]])"
  have add: "add_blueprint_step (iv_newStepName s) (iv_newStepRole s) (iv_newStepSLA s) (JObj kvs) =
      Inr (JObj (set_key ''steps'' ?new kvs))"
    using assms(2,6) by (simp add: add_blueprint_step_def js_iterate_def js_spread_def)
  have "printable (JArr ss)"
  proof (cases "map_of kvs ''steps'' = Some (JArr ss)")
    case True
    then show ?thesis using assms(3) by (auto simp: list_all_iff dest: map_of_SomeD)
  next
    case False
    then have "ss = []" using assms(2) by (simp add: js_or_def split: if_splits)
    then show ?thesis by simp
  qed
  moreover have "printable (JNum (1 + of_nat (length ss)))" by (rule printable_nat)
  ultimately have new: "printable ?new" by simp
  have "printable (JObj (set_key ''steps'' ?new kvs))"
    using assms(3) new by (rule printable_set_key)
  then have "JSON_parse (JSON_stringify (JObj (set_key ''steps'' ?new kvs))) = Inr (JObj (set_key ''steps'' ?new kvs))"
    by (rule parse_stringify)
  with add assms(1,4,5) show ?thesis
    by (auto simp: inventory_click_def handleAddStep_def map_of_set_key simp del: printable.simps)
qed

definition sample_add :: inventory_state where
  "sample_add = sample_inventory\<lparr>iv_newStepName := ''Audit'', iv_newStepRole := ''Admin''\<rparr>"

theorem add_step_appends_witness:
  "\<exists>s' kvs' ss. inventory_click sample_inventory_env AddStep sample_add = (s', []) \<and> JSON_parse (iv_blueprintJson s') = Inr (JObj kvs') \<and>
     map_of kvs' ''name'' = Some (JStr ''NEW_PROTOCOL_7'') \<and> length ss = 3 \<and>
     map_of kvs' ''steps'' = Some (JArr (ss @ [JObj [(''name'', JStr ''Audit''), (''role'', JStr ''Admin''),
       (''order'', JNum 4), (''sla'', JNum 24)]]))"
proof -
  obtain kvs ss where d: "defaultBlueprint 7 = JObj kvs" and ss: "map_of kvs ''steps'' = Some (JArr ss)" "length ss = 3"
    and n: "map_of kvs ''name'' = Some (JStr (protocol_name 7))"
    by (simp add: defaultBlueprint_def)
  have p: "JSON_parse (iv_blueprintJson sample_add) = Inr (JObj kvs)"
    using parse_stringify [OF printable_default(1) [of 7]]
    by (simp add: sample_add_def sample_inventory_def d)
  have k: "printable (JObj kvs)" using printable_default(1) [of 7] by (simp only: d)
  have m: "protocol_name 7 = ''NEW_PROTOCOL_7''" by code_simp
  have o: "js_or (map_of kvs ''steps'') (Some (JArr [])) = Some (JArr ss)" by (simp add: ss js_or_def)
  have f: "iv_newStepName sample_add = ''Audit''" "iv_newStepRole sample_add = ''Admin''" "iv_newStepSLA sample_add = of_int 24"
    by (simp_all add: sample_add_def sample_inventory_def inventory_init_def)
  obtain s' kvs' where "inventory_click sample_inventory_env AddStep sample_add = (s', [])" "JSON_parse (iv_blueprintJson s') = Inr (JObj kvs')"
    "map_of kvs' ''steps'' = Some (JArr (ss @ [JObj [(''name'', JStr ''Audit''), (''role'', JStr ''Admin''),
       (''order'', JNum (of_nat (length ss + 1))), (''sla'', JNum (of_int 24))]]))"
    "\<forall>k. k \<noteq> ''steps'' \<longrightarrow> map_of kvs' k = map_of kvs k"
    using add_step_appends [OF p o k _ _ f(3), of sample_inventory_env] f(1,2) by auto
  moreover from this(4) have "map_of kvs' ''name'' = Some (JStr ''NEW_PROTOCOL_7'')" using n m by simp
  ultimately show ?thesis using ss(2) by (intro exI [of _ s'] exI [of _ kvs'] exI [of _ ss]) simp
qed

text \<open>
  The page offers the creation of workflows (both buttons) exactly to users with a role named
  admin in any case, whatever else the state is.
\<close>

lemma creation_for_admins_only:
  assumes "\<not> iv_loading s"
  shows "(OpenCreate \<in> set (clicks (inventory_view e s)) \<longleftrightarrow>
      (\<exists>u r. iv_user s = Some u \<and> r \<in> set (usr_roles u) \<and> to_lower (role_name r) = ''admin'')) \<and>
    (GoBuild \<in> set (clicks (inventory_view e s)) \<longleftrightarrow> OpenCreate \<in> set (clicks (inventory_view e s)))"
  using assms by (cases "iv_user s") (auto simp: inventory_clicks user_is_admin_def list_ex_iff)

theorem creation_for_admins_only_witness:
  "OpenCreate \<in> set (clicks (inventory_view sample_inventory_env sample_inventory))"
proof -
  have "to_lower ''Admin'' = ''admin''" by code_simp
  with creation_for_admins_only [of sample_inventory sample_inventory_env] show ?thesis
    by (simp add: sample_inventory_def inventory_init_def sample_admin_def)
qed

text \<open>
  A start that fails is silent and loses the form: without an alert the modal closes and title,
  description and priority are back to their initial values, exactly the state after a success.
\<close>

lemma failed_start_is_silent:
  assumes "PostStart \<in> set (inflight s)"
  shows "\<exists>s' s''. perform inventory_page e (Fail PostStart x) s = Some s' \<and>
    perform inventory_page e (Ok PostStart (Started i)) s = Some s'' \<and>
    br_alerts (br s') = br_alerts (br s) \<and> st s' = st s'' \<and>
    iv_requestTitle (st s') = '''' \<and> iv_payload (st s') = '''' \<and> iv_payloadModal (st s') = None"
  using assms by (simp add: inventory_fail_def inventory_ok_def end_start_def react_def)

theorem failed_start_is_silent_witness:
  "\<exists>s'. perform inventory_page sample_inventory_env (Fail PostStart \<lparr>fl_status = Some 500, fl_detail = None, fl_message = ''''\<rparr>)
     \<lparr>st = sample_inventory, inflight = [PostStart], timers = [], br = new_browser\<rparr> = Some s' \<and>
     br_alerts (br s') = []"
  using failed_start_is_silent [of "\<lparr>st = sample_inventory, inflight = [PostStart], timers = [], br = new_browser\<rparr>"]
  by (auto simp: new_browser_def)

end
