(* ===== verification/LoginPage.thy ===== *)
theory LoginPage
  imports Runtime
begin

text \<open>
  The login page, \<open>frontend/src/app/page.tsx\<close>: the credentials form, the call to
  \<open>login/access-token\<close> with a form-encoded body, the stored token, and the delayed move to the
  dashboard.
\<close>

section \<open>URLSearchParams\<close>

text \<open>\<open>URLSearchParams.toString\<close>: \<open>application/x-www-form-urlencoded\<close> text. Letters, digits
  and \<open>*-._\<close> stay, a space becomes \<open>+\<close>, every other byte \<open>%XX\<close> with upper-case digits.\<close>

definition hex_char :: "nat \<Rightarrow> char" where
  "hex_char d = (if d < 10 then char_of (48 + d) else char_of (55 + d))"

definition url_plain :: "char \<Rightarrow> bool" where
  "url_plain c = (let n = (of_char c :: nat) in
     (48 \<le> n \<and> n \<le> 57) \<or> (65 \<le> n \<and> n \<le> 90) \<or> (97 \<le> n \<and> n \<le> 122) \<or> n \<in> {42, 45, 46, 95})"

definition url_char :: "char \<Rightarrow> string" where
  "url_char c = (if c = CHR '' '' then ''+'' else if url_plain c then [c]
     else let n = (of_char c :: nat) in [CHR ''%'', hex_char (n div 16), hex_char (n mod 16)])"

definition url_encode :: "string \<Rightarrow> string" where
  "url_encode s = concat (map url_char s)"

fun form_text :: "(string \<times> string) list \<Rightarrow> string" where
  "form_text [] = ''''"
| "form_text [(k, v)] = url_encode k @ ''='' @ url_encode v"
| "form_text ((k, v) # kvs) = url_encode k @ ''='' @ url_encode v @ ''&'' @ form_text kvs"

section \<open>State and handlers\<close>

record login_state =
  lg_email :: string
  lg_password :: string
  lg_showPassword :: bool
  lg_loading :: bool
  lg_error :: string

definition login_init :: login_state where
  "login_init = \<lparr>lg_email = ''manager@example.com'', lg_password = ''manager123'',
     lg_showPassword = False, lg_loading = False, lg_error = ''''\<rparr>"

datatype login_action = SubmitLogin | TogglePassword
datatype login_field = EmailField | PasswordField
datatype login_call = LoginCall | GoDashboard

text \<open>\<open>handleLogin\<close> up to its \<open>await\<close>.\<close>

definition handleLogin :: "login_state \<Rightarrow> (login_state, login_call) reaction" where
  "handleLogin s =
     (s\<lparr>lg_loading := True, lg_error := ''''\<rparr>,
      [Call LoginCall POST ''login/access-token''
         (FormBody (form_text [(''username'', lg_email s), (''password'', lg_password s)]))])"

definition login_click :: "js_env \<Rightarrow> login_action \<Rightarrow> login_state \<Rightarrow> (login_state, login_call) reaction" where
  "login_click e c s = (case c of
     SubmitLogin \<Rightarrow> handleLogin s
   | TogglePassword \<Rightarrow> (s\<lparr>lg_showPassword := \<not> lg_showPassword s\<rparr>, []))"

definition login_change :: "login_field \<Rightarrow> string \<Rightarrow> login_state \<Rightarrow> (login_state, login_call) reaction" where
  "login_change f v s = (case f of
     EmailField \<Rightarrow> (s\<lparr>lg_email := v\<rparr>, [])
   | PasswordField \<Rightarrow> (s\<lparr>lg_password := v\<rparr>, []))"

text \<open>The rest of the \<open>try\<close> block, with \<open>finally\<close>: the payload is the access token.\<close>

definition login_ok :: "js_env \<Rightarrow> login_call \<Rightarrow> string \<Rightarrow> login_state \<Rightarrow> (login_state, login_call) reaction" where
  "login_ok e k token s = (s\<lparr>lg_loading := False\<rparr>, [SetToken token, Timer GoDashboard])"

text \<open>\<open>err.response?.data?.detail || err.message || \<dots>\<close>; the last alternative names the base
  URL without its \<open>/api/v1\<close> suffix.\<close>

definition login_error_text :: "api_failure \<Rightarrow> string" where
  "login_error_text x =
     (case fl_detail x of Some d \<Rightarrow> d | None \<Rightarrow> '''')"

definition connection_failed :: string where
  "connection_failed = ''Connection failed to '' @ take (length API_BASE_URL - 7) API_BASE_URL @
     ''. Please verify your Backend service is active.''"

definition login_fail :: "js_env \<Rightarrow> login_call \<Rightarrow> api_failure \<Rightarrow> login_state \<Rightarrow> (login_state, login_call) reaction" where
  "login_fail e k x s =
     (s\<lparr>lg_error := (if login_error_text x \<noteq> '''' then login_error_text x
                     else if fl_message x \<noteq> '''' then fl_message x else connection_failed),
        lg_loading := False\<rparr>, [])"

definition login_timer :: "login_call \<Rightarrow> login_state \<Rightarrow> (login_state, login_call) reaction" where
  "login_timer k s = (s, [Push ''/dashboard''])"

section \<open>View\<close>

text \<open>Both inputs are \<open>required\<close>, so the browser submits the form only when they are not empty,
  and the first has \<open>type="email"\<close>, so only when the browser takes its text for an address.\<close>

definition login_view :: "js_env \<Rightarrow> login_state \<Rightarrow> (login_action, login_field) node" where
  "login_view e s = Box [
     Box [Ico ''Shield'', Txt ''NexusFlow'', Txt ''Enterprise Orchestration Nexus''],
     Txt ''Initialize Session'', Txt ''Secure Protocol v4.1 - Access Restricted'',
     Frm SubmitLogin (lg_email s \<noteq> '''' \<and> env_email e (lg_email s) \<and> lg_password s \<noteq> '''') (
       [Txt ''Identity Matrix'', Ico ''Mail'', Inp EmailField (lg_email s),
        Txt ''Access Key'', Ico ''Lock'',
        Sty (if lg_showPassword s then ''text'' else ''password'') [Inp PasswordField (lg_password s)],
        Btn TogglePassword False [Ico (if lg_showPassword s then ''EyeOff'' else ''Eye'')]] @
       show_if (lg_error s \<noteq> '''') [Ico ''AlertCircle'', Txt (lg_error s)] @
       [Sub (lg_loading s) (if lg_loading s then [Spin] else [Txt ''Establish Connection'', Ico ''ArrowRight''])]),
     Ico ''Shield'', Txt ''Secured by NexusFlow Post-Quantum Protocols'']"

definition login_page :: "(login_state, login_action, login_field, login_call, string) page" where
  "login_page = \<lparr>on_mount = (login_init, []), on_click = login_click, on_change = login_change,
     on_ok = login_ok, on_fail = login_fail, on_timer = login_timer,
     on_deps = (\<lambda>_ _. []), view = login_view\<rparr>"

lemmas login_defs = login_click_def login_change_def login_ok_def login_fail_def login_timer_def
  handleLogin_def

lemma login_page_simps [simp]:
  "on_mount login_page = (login_init, [])" "on_click login_page = login_click"
  "on_change login_page = login_change" "on_ok login_page = login_ok"
  "on_fail login_page = login_fail" "on_timer login_page = login_timer"
  "on_deps login_page = (\<lambda>_ _. [])" "view login_page = login_view"
  by (simp_all add: login_page_def)

lemma login_clicks:
  "set (clicks (login_view e s)) =
     (if lg_email s \<noteq> '''' \<and> env_email e (lg_email s) \<and> lg_password s \<noteq> '''' \<and> \<not> lg_loading s then {SubmitLogin} else {}) \<union> {TogglePassword}"
  by (auto simp: login_view_def show_if_def)

section \<open>One login at a time\<close>

text \<open>The page is loading exactly while its call is pending, and then the form is closed.\<close>

definition login_inv :: "login_state \<Rightarrow> login_call list \<Rightarrow> bool" where
  "login_inv s ks \<longleftrightarrow> ks = (if lg_loading s then [LoginCall] else [])"

interpretation login: page_invariant login_page login_inv
proof
  show "login_inv (fst (on_mount login_page)) (calls (snd (on_mount login_page)))"
    by (simp add: login_inv_def login_init_def)
qed (auto simp: login_inv_def login_defs login_clicks split: if_splits login_action.splits login_field.splits)

text \<open>
  C24. In every session of the login page at most one login call is pending. The form can be submitted
  exactly when none is, both fields are filled and the browser takes the first for an address; submitting
  then sends exactly one request, a POST to the login endpoint of the form-encoded credentials, after which
  it is the one pending call and the form is closed until it is answered.
\<close>

theorem login_single_call:
  assumes "reaches login_page s"
  shows "length (inflight s) \<le> 1 \<and>
    (SubmitLogin \<in> set (clicks (login_view e (st s))) \<longleftrightarrow>
      inflight s = [] \<and> lg_email (st s) \<noteq> '''' \<and> lg_password (st s) \<noteq> '''' \<and> env_email e (lg_email (st s))) \<and>
    (SubmitLogin \<in> set (clicks (login_view e (st s))) \<longrightarrow>
      (\<exists>s'. perform login_page e (Click SubmitLogin) s = Some s' \<and> inflight s' = [LoginCall] \<and>
        br_sent (br s') = br_sent (br s) @ [intercept_request (br s) (make_request POST ''login/access-token''
          (FormBody (''username='' @ url_encode (lg_email (st s)) @ ''&password='' @ url_encode (lg_password (st s)))))] \<and>
        SubmitLogin \<notin> set (clicks (login_view e' (st s')))))"
proof -
  have u: "url_encode ''username'' = ''username''" "url_encode ''password'' = ''password''"
    by code_simp+
  have "login_inv (st s) (inflight s)" by (rule login.reaches_inv [OF assms])
  then show ?thesis
    by (auto simp: login_inv_def login_clicks login_defs react_def send_def u split: if_splits)
qed

text \<open>A visitor who types another address and password over the prefilled ones.\<close>

definition visitor :: browser where
  "visitor = \<lparr>br_token = None, br_location = ''/'', br_sent = [], br_alerts = []\<rparr>"

definition login_env :: js_env where
  "login_env = \<lparr>env_now = 0, env_rand = 0, env_randid = ''a'', env_errmsg = (\<lambda>_. ''''),
     env_email = (\<lambda>s. List.member s (CHR ''@''))\<rparr>"

definition typed_login :: "(login_state, login_call) session" where
  "typed_login = \<lparr>st = login_init\<lparr>lg_email := ''ann+x@example.com'', lg_password := ''p&w 1''\<rparr>, inflight = [], timers = [], br = visitor\<rparr>"

lemma typed_login_reached: "reaches login_page typed_login"
proof -
  let ?s0 = "mounted login_page visitor"
  have m: "?s0 = \<lparr>st = login_init, inflight = [], timers = [], br = visitor\<rparr>" by (simp add: mounted_def)
  have "perform login_page login_env (Change EmailField ''ann+x@example.com'') ?s0 =
      Some (?s0\<lparr>st := login_init\<lparr>lg_email := ''ann+x@example.com''\<rparr>\<rparr>)"
    by (simp add: m login_view_def show_if_def login_change_def react_def)
  moreover have "perform login_page login_env (Change PasswordField ''p&w 1'') (?s0\<lparr>st := login_init\<lparr>lg_email := ''ann+x@example.com''\<rparr>\<rparr>) =
      Some typed_login"
    by (simp add: m login_view_def show_if_def login_change_def react_def typed_login_def)
  ultimately show ?thesis by (blast intro: reaches.intros)
qed

theorem login_single_call_witness:
  "SubmitLogin \<in> set (clicks (login_view login_env (st typed_login))) \<and>
   SubmitLogin \<notin> set (clicks (login_view login_env ((st typed_login)\<lparr>lg_email := ''ann''\<rparr>))) \<and>
   (\<exists>s'. perform login_page login_env (Click SubmitLogin) typed_login = Some s' \<and> inflight s' = [LoginCall] \<and>
     map rq_body (br_sent (br s')) = [FormBody ''username=ann%2Bx%40example.com&password=p%26w+1''] \<and>
     SubmitLogin \<notin> set (clicks (login_view login_env (st s'))))"
proof -
  have u: "url_encode ''ann+x@example.com'' = ''ann%2Bx%40example.com''" "url_encode ''p&w 1'' = ''p%26w+1''"
    by code_simp+
  note w = login_single_call [OF typed_login_reached, of login_env login_env]
  then have "SubmitLogin \<in> set (clicks (login_view login_env (st typed_login)))"
    by (simp add: typed_login_def login_env_def)
  with w show ?thesis
    by (auto simp: typed_login_def login_clicks login_env_def u visitor_def make_request_def)
qed

text \<open>
  C25. A successful login stores the token the server returned and schedules the move to the
  dashboard, after which every API call of the session carries \<open>Bearer\<close> and that token; a login
  answered with a 401 leaves the browser without a token, on the login page, with an error shown.
\<close>

theorem login_outcome:
  assumes "LoginCall \<in> set (inflight s)" and "tok \<noteq> ''''"
  shows "(\<exists>s'. perform login_page e (Ok LoginCall tok) s = Some s' \<and> br_token (br s') = Some tok \<and>
      GoDashboard \<in> set (timers s') \<and> \<not> lg_loading (st s') \<and>
      authorization (last (br_sent (send m u b (br s')))) = Some (''Bearer '' @ tok)) \<and>
    (\<exists>s'. perform login_page e (Fail LoginCall x) s = Some s' \<and> lg_error (st s') \<noteq> '''' \<and>
      \<not> lg_loading (st s') \<and>
      (fl_status x = Some 401 \<longrightarrow> br_token (br s') = None \<and> br_location (br s') = ''/''))"
  using assms
  by (auto simp: login_defs react_def authorization_sent intercept_error_def connection_failed_def)

theorem login_outcome_witness:
  "\<exists>s'. perform login_page login_env (Ok LoginCall ''tok'')
     \<lparr>st = login_init\<lparr>lg_loading := True\<rparr>, inflight = [LoginCall], timers = [], br = visitor\<rparr> = Some s' \<and>
     br_token (br s') = Some ''tok''"
  using login_outcome [of "\<lparr>st = login_init\<lparr>lg_loading := True\<rparr>, inflight = [LoginCall], timers = [], br = visitor\<rparr>" "''tok''"]
  by (auto simp: login_init_def)

end
