(* ===== verification/DashboardLayout.thy ===== *)
theory DashboardLayout
  imports Runtime Schemas
begin

text \<open>
  The frame around every page but the login page,
  \<open>frontend/src/components/layout/DashboardLayout.tsx\<close>: it loads the current user, shows the
  navigation that the user's roles allow, the title of the current path, the profile box and the
  logout button. A page is its child: \<open>layout_view\<close> takes the page's rendered content.
\<close>

section \<open>State and handlers\<close>

record layout_state =
  ly_user :: "user_out option"
  ly_showProfile :: bool

definition layout_init :: layout_state where
  "layout_init = \<lparr>ly_user = None, ly_showProfile = False\<rparr>"

datatype layout_action = GoHome | ToggleProfile | Logout | GoNotifications
datatype layout_call = FetchUser

definition layout_mount :: "(layout_state, layout_call) reaction" where
  "layout_mount = (layout_init, [Call FetchUser GET ''users/me'' NoBody])"

definition handleLogout :: "layout_state \<Rightarrow> (layout_state, layout_call) reaction" where
  "handleLogout s = (s, [RemoveToken, Push ''/''])"

definition layout_click :: "js_env \<Rightarrow> 'c + layout_action \<Rightarrow> layout_state \<Rightarrow> (layout_state, layout_call) reaction" where
  "layout_click e c s = (case c of
     Inl _ \<Rightarrow> (s, [])
   | Inr GoHome \<Rightarrow> (s, [Push ''/dashboard''])
   | Inr ToggleProfile \<Rightarrow> (s\<lparr>ly_showProfile := \<not> ly_showProfile s\<rparr>, [])
   | Inr Logout \<Rightarrow> handleLogout s
   | Inr GoNotifications \<Rightarrow> (s, [Push ''/notifications'']))"

text \<open>\<open>fetchUser\<close> after its \<open>await\<close>; an error is only written to the console.\<close>

definition layout_ok :: "js_env \<Rightarrow> layout_call \<Rightarrow> user_out \<Rightarrow> layout_state \<Rightarrow> (layout_state, layout_call) reaction" where
  "layout_ok e k u s = (s\<lparr>ly_user := Some u\<rparr>, [])"

definition layout_fail :: "js_env \<Rightarrow> layout_call \<Rightarrow> api_failure \<Rightarrow> layout_state \<Rightarrow> (layout_state, layout_call) reaction" where
  "layout_fail e k x s = (s, [])"

section \<open>Role-based navigation\<close>

record nav_item =
  nav_name :: string
  nav_icon :: string
  nav_path :: string

definition navItems :: "nav_item list" where
  "navItems = [
     \<lparr>nav_name = ''Overview'', nav_icon = ''LayoutDashboard'', nav_path = ''/dashboard''\<rparr>,
     \<lparr>nav_name = ''My Tasks'', nav_icon = ''GitBranch'', nav_path = ''/tasks''\<rparr>,
     \<lparr>nav_name = ''Ledger'', nav_icon = ''Cpu'', nav_path = ''/requests''\<rparr>,
     \<lparr>nav_name = ''Inventory'', nav_icon = ''Shield'', nav_path = ''/workflows''\<rparr>,
     \<lparr>nav_name = ''Alerts'', nav_icon = ''Bell'', nav_path = ''/notifications''\<rparr>]"

definition adminItem :: nav_item where
  "adminItem = \<lparr>nav_name = ''Admin Console'', nav_icon = ''Lock'', nav_path = ''/admin''\<rparr>"

definition userRoles :: "layout_state \<Rightarrow> string list" where
  "userRoles s = (case ly_user s of None \<Rightarrow> [] | Some u \<Rightarrow> map (\<lambda>r. to_lower (role_name r)) (usr_roles u))"

definition isAdmin :: "layout_state \<Rightarrow> bool" where
  "isAdmin s = List.member (userRoles s) ''admin''"

definition isManager :: "layout_state \<Rightarrow> bool" where
  "isManager s = (List.member (userRoles s) ''manager'' \<or> List.member (userRoles s) ''strategic_node'')"

definition allowed_item :: "layout_state \<Rightarrow> nav_item \<Rightarrow> bool" where
  "allowed_item s i =
     (if isAdmin s then True
      else if isManager s then List.member [''/dashboard'', ''/tasks'', ''/notifications''] (nav_path i)
      else List.member [''/dashboard'', ''/notifications''] (nav_path i))"

definition filteredNavItems :: "layout_state \<Rightarrow> nav_item list" where
  "filteredNavItems s =
     (let fs = filter (allowed_item s) navItems
      in if isAdmin s \<and> \<not> list_ex (\<lambda>i. nav_path i = ''/admin'') fs then fs @ [adminItem] else fs)"

section \<open>View\<close>

text \<open>\<open>navItems.find(i => i.path === pathname)?.name || "Dashboard"\<close>.\<close>

definition page_title :: "string \<Rightarrow> string" where
  "page_title pathname = (case find (\<lambda>i. nav_path i = pathname) navItems of
     None \<Rightarrow> ''Dashboard'' | Some i \<Rightarrow> nav_name i)"

definition initials :: "user_out \<Rightarrow> string" where
  "initials u = to_upper (take 2 (usr_full_name u))"

definition or_text :: "string \<Rightarrow> string \<Rightarrow> string" where
  "or_text s d = (if s = '''' then d else s)"

definition first_role :: "layout_state \<Rightarrow> string" where
  "first_role s = (case ly_user s of None \<Rightarrow> ''''
     | Some u \<Rightarrow> (case usr_roles u of [] \<Rightarrow> '''' | r # _ \<Rightarrow> role_name r))"

definition full_name :: "layout_state \<Rightarrow> string" where
  "full_name s = (case ly_user s of None \<Rightarrow> '''' | Some u \<Rightarrow> usr_full_name u)"

definition initials_of :: "layout_state \<Rightarrow> string" where
  "initials_of s = (case ly_user s of None \<Rightarrow> '''' | Some u \<Rightarrow> initials u)"

definition nav_view :: "string \<Rightarrow> nav_item \<Rightarrow> ('c + layout_action, 'f) node" where
  "nav_view pathname i = Lnk (nav_path i)
     [Sty (if pathname = nav_path i then ''nav-item-active'' else ''text-slate-400'')
       [Ico (nav_icon i), Txt (nav_name i)]]"

definition profile_view :: "layout_state \<Rightarrow> ('c + layout_action, 'f) node" where
  "profile_view s = Box (
     [Area (Inr ToggleProfile)
       [Txt (or_text (initials_of s) ''SY''), Txt (or_text (full_name s) ''Identity Node''),
        Txt (or_text (first_role s) ''Strategic'' @ '' Access'')]] @
     show_if (ly_showProfile s)
       [Txt (initials_of s), Txt (full_name s), Txt (first_role s),
        Btn (Inr Logout) False [Ico ''LogOut'', Txt ''Terminate Session'']])"

definition layout_view :: "string \<Rightarrow> layout_state \<Rightarrow> ('c, 'f) node \<Rightarrow> ('c + layout_action, 'f) node" where
  "layout_view pathname s children = Box [
     Area (Inr GoHome) [Ico ''Shield'', Txt ''NexusFlow'', Txt ''Control Node''],
     Box (map (nav_view pathname) (filteredNavItems s)),
     profile_view s,
     Box [Ico ''Cpu'', Txt (''System Path: '' @ pathname), Txt (page_title pathname),
          Txt ''System Online'', Btn (Inr GoNotifications) False [Ico ''Bell'']],
     map_node Inl id children]"

definition layout_page :: "string \<Rightarrow> ('c, 'f) node \<Rightarrow> (layout_state, 'c + layout_action, 'f, layout_call, user_out) page" where
  "layout_page pathname children = \<lparr>on_mount = layout_mount, on_click = layout_click,
     on_change = (\<lambda>_ _ s. (s, [])), on_ok = layout_ok, on_fail = layout_fail,
     on_timer = (\<lambda>_ s. (s, [])), on_deps = (\<lambda>_ _. []),
     view = (\<lambda>e s. layout_view pathname s children)\<rparr>"

lemmas layout_defs = layout_click_def layout_ok_def layout_fail_def layout_mount_def layout_init_def
  handleLogout_def
lemmas nav_defs = filteredNavItems_def navItems_def adminItem_def allowed_item_def

lemma layout_page_simps [simp]:
  "on_mount (layout_page p ch) = layout_mount" "on_click (layout_page p ch) = layout_click"
  "on_ok (layout_page p ch) = layout_ok" "on_fail (layout_page p ch) = layout_fail"
  "on_deps (layout_page p ch) = (\<lambda>_ _. [])" "view (layout_page p ch) = (\<lambda>e s. layout_view p s ch)"
  by (simp_all add: layout_page_def)

lemma links_map_node [simp]: "links (map_node f g n) = links n"
  by (induction n) (auto intro!: arg_cong [where f = concat])

lemma clicks_map_node: "clicks (map_node f g n) = map f (clicks n)"
  and can_submit_map_node: "can_submit (map_node f g n) = can_submit n"
proof (induction n)
  case (Frm c v ns)
  { case 1
    have "list_ex (can_submit \<circ> map_node f g) ns = list_ex can_submit ns"
      using Frm by (auto simp: list_ex_iff)
    then show ?case using Frm by (auto simp: map_concat list_ex_iff intro!: arg_cong [where f = concat]) }
  { case 2 show ?case using Frm by (auto simp: list_ex_iff) }
qed (auto simp: map_concat list_ex_iff intro!: arg_cong [where f = concat])

lemma links_layout:
  "links (layout_view p s ch) = map nav_path (filteredNavItems s) @ links ch"
proof -
  have "concat (map links (map (nav_view p) is)) = map nav_path is" for "is"
    by (induction "is") (simp_all add: nav_view_def)
  then show ?thesis by (simp add: layout_view_def profile_view_def show_if_def o_def)
qed

section \<open>Properties\<close>

text \<open>
  The navigation of the layout depends only on the user's roles, compared without case: an
  administrator gets every item and the admin console, a manager (or \<open>strategic_node\<close>) who is not
  an administrator gets the dashboard, tasks and alerts, anyone else (also before the user is
  loaded) the dashboard and alerts; and the frame renders exactly those links before the page's own.
\<close>

lemma navigation_by_role:
  "links (layout_view p s ch) =
     (if isAdmin s then [''/dashboard'', ''/tasks'', ''/requests'', ''/workflows'', ''/notifications'', ''/admin'']
      else if isManager s then [''/dashboard'', ''/tasks'', ''/notifications'']
      else [''/dashboard'', ''/notifications'']) @ links ch \<and>
   (isAdmin s \<longleftrightarrow> (\<exists>u r. ly_user s = Some u \<and> r \<in> set (usr_roles u) \<and> to_lower (role_name r) = ''admin''))"
proof -
  have a: "isAdmin s \<longleftrightarrow> (\<exists>u r. ly_user s = Some u \<and> r \<in> set (usr_roles u) \<and> to_lower (role_name r) = ''admin'')"
    by (cases "ly_user s") (auto simp: isAdmin_def userRoles_def intro!: image_eqI [OF sym])
  have "map nav_path (filteredNavItems s) =
     (if isAdmin s then [''/dashboard'', ''/tasks'', ''/requests'', ''/workflows'', ''/notifications'', ''/admin'']
      else if isManager s then [''/dashboard'', ''/tasks'', ''/notifications'']
      else [''/dashboard'', ''/notifications''])"
    by (simp add: nav_defs)
  with a show ?thesis by (simp add: links_layout)
qed

end
