(* ===== verification/DashboardPage.thy ===== *)
theory DashboardPage
  imports Runtime Schemas
begin

text \<open>
  The dashboard, \<open>frontend/src/app/dashboard/page.tsx\<close>: four statistics, the latest requests and
  audit entries, and the modal that starts a request.
\<close>

section \<open>State and handlers\<close>

record new_request =
  nr_workflow_id :: uuid
  nr_title :: string
  nr_description :: string
  nr_priority :: string

record dash_state =
  da_workflows :: "workflow_out list"
  da_stats :: stats_out
  da_pulsing :: bool
  da_recentRequests :: "request_out list"
  da_auditLogs :: "audit_out list"
  da_loading :: bool
  da_isStartingRequest :: bool
  da_modalOpen :: bool
  da_new :: new_request

definition dash_init :: dash_state where
  "dash_init = \<lparr>da_workflows = [],
     da_stats = \<lparr>sts_active = 0, sts_completed = 0, sts_overdue = 0, sts_pending = 0\<rparr>,
     da_pulsing = False, da_recentRequests = [], da_auditLogs = [], da_loading = True,
     da_isStartingRequest = False, da_modalOpen = False,
     da_new = \<lparr>nr_workflow_id = '''', nr_title = '''', nr_description = '''', nr_priority = ''medium''\<rparr>\<rparr>"

datatype dash_action = OpenModal | CloseRequestModal | Pulse | SetPriority string | StartRequest
datatype dash_field = WorkflowField | TitleField | DescriptionField
datatype dash_call = FetchDashboard | PulseEnd | PostRequest
datatype dash_payload =
    DashData stats_out "request_out list" "audit_out list" "workflow_out list"
  | RequestCreated uuid

type_synonym dash_reaction = "(dash_state, dash_call) reaction"

text \<open>\<open>Promise.all\<close> of four calls: one continuation, run when all four have answered, or with the
  first failure.\<close>

definition dash_mount :: dash_reaction where
  "dash_mount = (dash_init, [CallAll FetchDashboard [''requests/stats'', ''requests/'', ''audit/'', ''workflows/'']])"

definition handlePulse :: "dash_state \<Rightarrow> dash_reaction" where
  "handlePulse s = (s\<lparr>da_pulsing := True\<rparr>, [Timer PulseEnd])"

definition priorities :: "string list" where
  "priorities = [''low'', ''medium'', ''high'']"

definition request_payload :: "new_request \<Rightarrow> json" where
  "request_payload n = JObj [(''title'', JStr (nr_title n)), (''description'', JStr (nr_description n)),
     (''priority'', JStr (nr_priority n))]"

definition handleStartRequest :: "dash_state \<Rightarrow> dash_reaction" where
  "handleStartRequest s =
     (if nr_workflow_id (da_new s) = '''' \<or> nr_title (da_new s) = ''''
      then (s, [Alert ''Please select a workflow and provide a title.''])
      else (s\<lparr>da_isStartingRequest := True\<rparr>,
        [Call PostRequest POST ''/requests/'' (JsonBody (JObj
           [(''workflow_id'', JStr (nr_workflow_id (da_new s))), (''request_data'', request_payload (da_new s))]))]))"

definition dash_click :: "js_env \<Rightarrow> dash_action \<Rightarrow> dash_state \<Rightarrow> dash_reaction" where
  "dash_click e c s = (case c of
     OpenModal \<Rightarrow> (s\<lparr>da_modalOpen := True\<rparr>, [])
   | CloseRequestModal \<Rightarrow> (s\<lparr>da_modalOpen := False\<rparr>, [])
   | Pulse \<Rightarrow> handlePulse s
   | SetPriority p \<Rightarrow> (s\<lparr>da_new := (da_new s)\<lparr>nr_priority := p\<rparr>\<rparr>, [])
   | StartRequest \<Rightarrow> handleStartRequest s)"

definition dash_change :: "dash_field \<Rightarrow> string \<Rightarrow> dash_state \<Rightarrow> dash_reaction" where
  "dash_change f v s = (case f of
     WorkflowField \<Rightarrow> (s\<lparr>da_new := (da_new s)\<lparr>nr_workflow_id := v\<rparr>\<rparr>, [])
   | TitleField \<Rightarrow> (s\<lparr>da_new := (da_new s)\<lparr>nr_title := v\<rparr>\<rparr>, [])
   | DescriptionField \<Rightarrow> (s\<lparr>da_new := (da_new s)\<lparr>nr_description := v\<rparr>\<rparr>, []))"

text \<open>After the calls: the dashboard keeps the first five requests and audit entries. After a
  request was created the page moves on and leaves \<open>isStartingRequest\<close> set.\<close>

definition dash_ok :: "js_env \<Rightarrow> dash_call \<Rightarrow> dash_payload \<Rightarrow> dash_state \<Rightarrow> dash_reaction" where
  "dash_ok e k p s = (case (k, p) of
     (FetchDashboard, DashData sts rs as ws) \<Rightarrow>
       (s\<lparr>da_stats := sts, da_recentRequests := take 5 rs, da_auditLogs := take 5 as,
          da_workflows := ws, da_loading := False\<rparr>, [])
   | (PostRequest, RequestCreated i) \<Rightarrow> (s, [Push (''/instances/'' @ i)])
   | _ \<Rightarrow> (s, []))"

definition dash_fail :: "js_env \<Rightarrow> dash_call \<Rightarrow> api_failure \<Rightarrow> dash_state \<Rightarrow> dash_reaction" where
  "dash_fail e k x s = (case k of
     FetchDashboard \<Rightarrow> (s\<lparr>da_loading := False\<rparr>, [])
   | PostRequest \<Rightarrow> (s\<lparr>da_isStartingRequest := False\<rparr>, [Alert ''Failed to initialize request.''])
   | PulseEnd \<Rightarrow> (s, []))"

definition dash_timer :: "dash_call \<Rightarrow> dash_state \<Rightarrow> dash_reaction" where
  "dash_timer k s = (s\<lparr>da_pulsing := False\<rparr>, [])"

section \<open>View\<close>

definition dash_loading_view :: "(dash_action, dash_field) node" where
  "dash_loading_view = Box [Spin, Txt ''Calibrating NexusFlow Core'']"

definition statCards :: "dash_state \<Rightarrow> (string \<times> nat \<times> string) list" where
  "statCards s = [(''Executive Flows'', sts_active (da_stats s), ''Activity''),
     (''Strategic Tasks'', sts_pending (da_stats s), ''Clock''),
     (''SLA Incidents'', sts_overdue (da_stats s), ''AlertCircle''),
     (''Completed'', sts_completed (da_stats s), ''CheckCircle2'')]"

definition dash_header :: "dash_state \<Rightarrow> (dash_action, dash_field) node" where
  "dash_header s = Box [
     heading ''Operational Nexus'' ''NexusFlow Dashboard''
       ''High-fidelity orchestration monitoring and real-time system telemetry across the operational grid.'',
     Btn OpenModal False [Ico ''Plus'', Txt ''Start New Request''],
     Btn Pulse (da_pulsing s)
       (if da_pulsing s then [Spin, Txt ''Synchronizing Pulse...'']
        else [Ico ''Zap'', Txt ''Initialize Core Pulse''])]"

definition stat_card :: "bool \<Rightarrow> string \<times> nat \<times> string \<Rightarrow> (dash_action, dash_field) node" where
  "stat_card pulsing = (\<lambda>(name, value, icon).
     Box ([Ico icon, Ico ''ArrowUpRight'', Txt name, Txt (show_nat value)] @ show_if pulsing [Txt ''Live'']))"

definition recent_view :: "request_out list \<Rightarrow> (dash_action, dash_field) node" where
  "recent_view rs = (if rs = [] then Box [Ico ''GitBranch'', Txt ''Awaiting telemetry stream initialization...'']
     else Box (map (\<lambda>r. Lnk (''/instances/'' @ ro_id r)
       [Ico ''GitBranch'', Txt ''Request '', Txt (''#'' @ short_id (ro_id r)),
        Sty (if ro_status r = ''COMPLETED'' then ''emerald'' else ''neon'') [Txt (ro_status r)],
        Tim ''distance'' (ro_created_at r), Txt '' ago'', Ico ''ArrowUpRight'']) rs))"

definition audit_line :: "audit_out \<Rightarrow> string" where
  "audit_line l = to_upper (replace_char (CHR ''_'') (CHR '' '') (ao_action l))"

definition audit_view :: "audit_out list \<Rightarrow> (dash_action, dash_field) node" where
  "audit_view ls = (if ls = [] then Box [Txt ''Encrypted Buffer Verified'']
     else Box (map (\<lambda>l. Box [Txt ''LOG'', Txt (audit_line l), Tim ''distance'' (ao_timestamp l), Txt '' ago'']) ls))"

definition dash_modal :: "dash_state \<Rightarrow> (dash_action, dash_field) node" where
  "dash_modal s = Box [
     Area CloseRequestModal [],
     Txt ''Initialize New Request'', Txt ''Submit operational requirements for processing.'',
     Txt ''Select Protocol'',
     Sel WorkflowField (nr_workflow_id (da_new s))
       (('''', ''-- Choose Protocol --'') # map (\<lambda>w. (wo_id w, wo_name w)) (da_workflows s)),
     Txt ''Request Title'', Inp TitleField (nr_title (da_new s)),
     Txt ''Context / Description'', Inp DescriptionField (nr_description (da_new s)),
     Txt ''Priority Level'',
     Box (map (\<lambda>p. Sty (if nr_priority (da_new s) = p then ''selected'' else ''plain'')
       [Btn (SetPriority p) False [Txt p]]) priorities),
     Btn CloseRequestModal False [Txt ''Cancel''],
     Btn StartRequest (da_isStartingRequest s)
       (if da_isStartingRequest s then [Spin] else [Txt ''Initialize Request''])]"

definition stream_section :: "dash_state \<Rightarrow> (dash_action, dash_field) node" where
  "stream_section s = Box [Ico ''Activity'', Txt ''Stream Telemetry'', Lnk ''/requests'' [Txt ''Full Data Base''],
     recent_view (da_recentRequests s)]"

definition security_section :: "dash_state \<Rightarrow> (dash_action, dash_field) node" where
  "security_section s = Box [Ico ''Shield'', Txt ''Security Intel'', audit_view (da_auditLogs s)]"

definition dash_view :: "js_env \<Rightarrow> dash_state \<Rightarrow> (dash_action, dash_field) node" where
  "dash_view e s = (if da_loading s then dash_loading_view else Box (
     [dash_header s,
      Box (map (stat_card (da_pulsing s)) (statCards s)),
      stream_section s, security_section s] @
     show_if (da_modalOpen s) [dash_modal s]))"

definition dash_page :: "(dash_state, dash_action, dash_field, dash_call, dash_payload) page" where
  "dash_page = \<lparr>on_mount = dash_mount, on_click = dash_click, on_change = dash_change,
     on_ok = dash_ok, on_fail = dash_fail, on_timer = dash_timer,
     on_deps = (\<lambda>_ _. []), view = dash_view\<rparr>"

lemma dash_page_simps [simp]:
  "on_mount dash_page = dash_mount" "on_click dash_page = dash_click"
  "on_change dash_page = dash_change" "on_ok dash_page = dash_ok"
  "on_fail dash_page = dash_fail" "on_timer dash_page = dash_timer"
  "on_deps dash_page = (\<lambda>_ _. [])" "view dash_page = dash_view"
  by (simp_all add: dash_page_def)

lemmas dash_defs = dash_click_def dash_change_def dash_ok_def dash_fail_def dash_timer_def
  handlePulse_def handleStartRequest_def

section \<open>What the view offers\<close>

lemma dash_view_parts [simp]:
  "clicks (recent_view rs) = []" "clicks (audit_view ls) = []" "clicks (stat_card b x) = []"
  "accepts (recent_view rs) f v = False" "accepts (audit_view ls) f v = False"
  "accepts (stat_card b x) f v = False"
  by (auto simp: recent_view_def audit_view_def stat_card_def show_if_def list_ex_iff split: prod.splits)

lemma dash_clicks:
  "set (clicks (dash_view e s)) = (if da_loading s then {} else
     {OpenModal} \<union> (if da_pulsing s then {} else {Pulse}) \<union>
     (if da_modalOpen s then {CloseRequestModal} \<union> SetPriority ` set priorities \<union>
        (if da_isStartingRequest s then {} else {StartRequest}) else {}))"
  by (auto simp: dash_view_def stream_section_def security_section_def dash_loading_view_def dash_header_def dash_modal_def show_if_def)

lemma dash_accepts:
  "accepts (dash_view e s) f v \<longleftrightarrow> \<not> da_loading s \<and> da_modalOpen s \<and>
     (f = WorkflowField \<longrightarrow> v = '''' \<or> v \<in> wo_id ` set (da_workflows s))"
  by (cases f) (auto simp: dash_view_def stream_section_def security_section_def dash_loading_view_def dash_header_def dash_modal_def image_image)

section \<open>Properties\<close>

text \<open>The form always holds a workflow of the list, or none, and one of the three priorities;
  a request is being started while its call is pending.\<close>

definition form_ok :: "dash_state \<Rightarrow> bool" where
  "form_ok s \<longleftrightarrow> nr_priority (da_new s) \<in> set priorities \<and>
     (nr_workflow_id (da_new s) = '''' \<or>
      \<not> da_loading s \<and> nr_workflow_id (da_new s) \<in> wo_id ` set (da_workflows s))"

definition dash_inv :: "dash_state \<Rightarrow> dash_call list \<Rightarrow> bool" where
  "dash_inv s ks \<longleftrightarrow> form_ok s \<and> distinct ks \<and> (FetchDashboard \<in> set ks \<longrightarrow> da_loading s) \<and>
     (PostRequest \<in> set ks \<longrightarrow> da_isStartingRequest s)"

lemma form_ok_init: "form_ok dash_init"
  by (simp add: form_ok_def dash_init_def priorities_def)

lemma form_ok_click:
  "form_ok s \<Longrightarrow> c \<in> set (clicks (dash_view e s)) \<Longrightarrow> form_ok (fst (dash_click e c s))"
  by (cases c) (auto simp: form_ok_def dash_clicks dash_click_def handlePulse_def handleStartRequest_def
      split: if_splits)

lemma form_ok_change:
  "form_ok s \<Longrightarrow> accepts (dash_view e s) f v \<Longrightarrow> form_ok (fst (dash_change f v s))"
  by (cases f) (auto simp: form_ok_def dash_accepts dash_change_def)

lemma dash_ok_cases:
  "dash_ok e k p s = (s', es) \<Longrightarrow> calls es = [] \<and> da_isStartingRequest s' = da_isStartingRequest s \<and>
     (k \<noteq> FetchDashboard \<longrightarrow> s' = s) \<and> (da_loading s' \<longrightarrow> da_loading s) \<and>
     (da_loading s \<longrightarrow> form_ok s \<longrightarrow> form_ok s')"
  by (cases k; cases p) (auto simp: dash_ok_def form_ok_def)

interpretation dash: page_invariant dash_page dash_inv
proof
  show "dash_inv (fst (on_mount dash_page)) (calls (snd (on_mount dash_page)))"
    using form_ok_init by (simp add: dash_inv_def dash_mount_def) (simp add: dash_init_def)
next
  fix s ks c e s' es
  assume i: "dash_inv s ks" and c: "c \<in> set (clicks (view dash_page e s))"
    and r: "on_click dash_page e c s = (s', es)"
  from i c r have "form_ok s'"
    using form_ok_click [of s c e] by (simp add: dash_inv_def)
  with i c r show "dash_inv s' (ks @ calls es @ calls (on_deps dash_page s s'))"
    by (cases c) (auto simp: dash_inv_def dash_clicks dash_click_def handlePulse_def
        handleStartRequest_def split: if_splits)
next
  fix s ks f v s' es e
  assume i: "dash_inv s ks" and a: "accepts (view dash_page e s) f v"
    and r: "on_change dash_page f v s = (s', es)"
  from i a r have "form_ok s'"
    using form_ok_change [of s e f v] by (simp add: dash_inv_def)
  with i r show "dash_inv s' (ks @ calls es @ calls (on_deps dash_page s s'))"
    by (cases f) (auto simp: dash_inv_def dash_change_def)
next
  fix s ks k e p s' es
  assume i: "dash_inv s ks" and k: "k \<in> set ks" and r: "on_ok dash_page e k p s = (s', es)"
  then have d: "dash_ok e k p s = (s', es)" by simp
  show "dash_inv s' (remove1 k ks @ calls es @ calls (on_deps dash_page s s'))"
    using i k dash_ok_cases [OF d] by (cases "k = FetchDashboard") (auto simp: dash_inv_def)
next
  fix s ks k e x s' es
  assume "dash_inv s ks" "k \<in> set ks" "on_fail dash_page e k x s = (s', es)"
  then show "dash_inv s' (remove1 k ks @ calls es @ calls (on_deps dash_page s s'))"
    by (cases k) (auto simp: dash_inv_def dash_fail_def form_ok_def)
next
  fix s ks k s' es
  assume "dash_inv s ks" "on_timer dash_page k s = (s', es)"
  then show "dash_inv s' (ks @ calls es @ calls (on_deps dash_page s s'))"
    by (auto simp: dash_inv_def dash_timer_def form_ok_def)
qed

text \<open>The POST that a start sends.\<close>

definition start_body :: "dash_state \<Rightarrow> http_body" where
  "start_body s = JsonBody (JObj [(''workflow_id'', JStr (nr_workflow_id (da_new s))),
     (''request_data'', JObj [(''title'', JStr (nr_title (da_new s))),
        (''description'', JStr (nr_description (da_new s))), (''priority'', JStr (nr_priority (da_new s)))])])"

lemma start_sends:
  assumes "nr_workflow_id (da_new (st s)) \<noteq> ''''" and "nr_title (da_new (st s)) \<noteq> ''''"
    and "perform dash_page e (Click StartRequest) s = Some s'"
  shows "br_sent (br s') = br_sent (br s) @
      [intercept_request (br s) (make_request POST ''/requests/'' (start_body (st s)))] \<and>
    inflight s' = inflight s @ [PostRequest] \<and> da_isStartingRequest (st s')"
  using assms
  by (auto simp: dash_click_def handleStartRequest_def react_def send_def request_payload_def
      start_body_def split: if_splits)

lemma start_refused:
  assumes "nr_workflow_id (da_new (st s)) = '''' \<or> nr_title (da_new (st s)) = ''''"
    and "perform dash_page e (Click StartRequest) s = Some s'"
  shows "br_sent (br s') = br_sent (br s) \<and> st s' = st s \<and> inflight s' = inflight s \<and>
    length (br_alerts (br s')) = length (br_alerts (br s)) + 1"
  using assms by (auto simp: dash_click_def handleStartRequest_def react_def split: if_splits)

text \<open>
  C34. Starting a request from the dashboard: in every session in which the start button is enabled
  no other start is pending. A click with no workflow or no title shows an alert and sends nothing;
  any other click sends one POST, whose workflow is one of those the server listed and whose
  priority is one of the three offered, and closes the button while it is pending.
\<close>

theorem dashboard_start_request:
  assumes "reaches dash_page s" and "StartRequest \<in> set (clicks (dash_view e (st s)))"
    and "perform dash_page e (Click StartRequest) s = Some s'"
  shows "PostRequest \<notin> set (inflight s) \<and>
    (if nr_workflow_id (da_new (st s)) = '''' \<or> nr_title (da_new (st s)) = ''''
     then br_sent (br s') = br_sent (br s) \<and> length (br_alerts (br s')) = length (br_alerts (br s)) + 1
     else br_sent (br s') = br_sent (br s) @
           [intercept_request (br s) (make_request POST ''/requests/'' (start_body (st s)))] \<and>
       nr_workflow_id (da_new (st s)) \<in> wo_id ` set (da_workflows (st s)) \<and>
       nr_priority (da_new (st s)) \<in> {''low'', ''medium'', ''high''} \<and>
       StartRequest \<notin> set (clicks (dash_view e' (st s'))))"
proof -
  have inv: "dash_inv (st s) (inflight s)" by (rule dash.reaches_inv [OF assms(1)])
  with assms(2) have np: "PostRequest \<notin> set (inflight s)"
    by (auto simp: dash_inv_def dash_clicks split: if_splits)
  from inv have w: "nr_workflow_id (da_new (st s)) = '''' \<or>
      nr_workflow_id (da_new (st s)) \<in> wo_id ` set (da_workflows (st s))"
    and p: "nr_priority (da_new (st s)) \<in> {''low'', ''medium'', ''high''}"
    by (auto simp add: dash_inv_def form_ok_def priorities_def)
  show ?thesis
  proof (cases "nr_workflow_id (da_new (st s)) = '''' \<or> nr_title (da_new (st s)) = ''''")
    case True
    with np start_refused [OF True assms(3)] show ?thesis by simp
  next
    case False
    then have s: "br_sent (br s') = br_sent (br s) @
          [intercept_request (br s) (make_request POST ''/requests/'' (start_body (st s)))]"
      and b: "da_isStartingRequest (st s')"
      using start_sends [OF _ _ assms(3)] by blast+
    from b have "StartRequest \<notin> set (clicks (dash_view e' (st s')))" by (auto simp: dash_clicks)
    with False np w p s show ?thesis by (simp only: if_False) blast
  qed
qed

definition sample_dash :: dash_state where
  "sample_dash = dash_init\<lparr>da_loading := False, da_modalOpen := True,
     da_workflows := [\<lparr>wo_id = ''w'', wo_name = ''Leave'', wo_description = None, wo_is_active = True,
        wo_created_at = 0, wo_steps = []\<rparr>],
     da_new := \<lparr>nr_workflow_id = ''w'', nr_title = ''Trip'', nr_description = '''', nr_priority = ''medium''\<rparr>\<rparr>"

definition sample_dash_env :: js_env where
  "sample_dash_env = \<lparr>env_now = 0, env_rand = 0, env_randid = ''x'', env_errmsg = (\<lambda>_. ''''),
     env_email = (\<lambda>s. List.member s (CHR ''@''))\<rparr>"

definition sample_dash_events :: "(js_env \<times> (dash_action, dash_field, dash_call, dash_payload) event) list" where
  "sample_dash_events = [
     (sample_dash_env, Ok FetchDashboard (DashData (da_stats dash_init) [] [] (da_workflows sample_dash))),
     (sample_dash_env, Click OpenModal),
     (sample_dash_env, Change WorkflowField ''w''),
     (sample_dash_env, Change TitleField ''Trip'')]"

lemma sample_dash_run:
  "\<exists>s. perform_all dash_page sample_dash_events (mounted dash_page new_browser) = Some s \<and>
     st s = sample_dash"
  by (simp add: sample_dash_events_def dash_mount_def dash_ok_def dash_clicks dash_click_def
      dash_accepts dash_change_def sample_dash_def dash_init_def)

theorem dashboard_start_request_witness:
  "\<exists>s s'. reaches dash_page s \<and> perform dash_page sample_dash_env (Click StartRequest) s = Some s' \<and>
     StartRequest \<notin> set (clicks (dash_view sample_dash_env (st s')))"
proof -
  obtain s where s: "perform_all dash_page sample_dash_events (mounted dash_page new_browser) = Some s"
    and st: "st s = sample_dash"
    using sample_dash_run by blast
  have r: "reaches dash_page s" by (rule reaches_perform_all [OF reaches.mount s])
  have c: "StartRequest \<in> set (clicks (dash_view sample_dash_env (st s)))"
    by (simp add: st dash_clicks sample_dash_def dash_init_def)
  then obtain s' where p: "perform dash_page sample_dash_env (Click StartRequest) s = Some s'" by simp
  have "nr_workflow_id (da_new (st s)) \<noteq> ''''" "nr_title (da_new (st s)) \<noteq> ''''"
    by (simp_all add: st sample_dash_def)
  with dashboard_start_request [OF r c p, of sample_dash_env] r p show ?thesis
    by (simp del: perform.simps) blast
qed

end
