(* ===== verification/AdminPages.thy ===== *)
theory AdminPages
  imports Runtime Schemas
begin

text \<open>
  The administration pages: the console with its four metrics, \<open>frontend/src/app/admin/page.tsx\<close>, and
  the list of workflow protocols with their deletion, \<open>frontend/src/app/admin/workflows/page.tsx\<close>;
  and the static alerts page, \<open>frontend/src/app/notifications/page.tsx\<close>.
\<close>

section \<open>The console\<close>

record console_state =
  ac_stats :: "admin_stats_out option"
  ac_loading :: bool

datatype console_action = DefineProtocol
datatype console_call = FetchStats

definition console_mount :: "(console_state, console_call) reaction" where
  "console_mount = (\<lparr>ac_stats = None, ac_loading = True\<rparr>, [Call FetchStats GET ''admin/'' NoBody])"

definition console_click :: "js_env \<Rightarrow> console_action \<Rightarrow> console_state \<Rightarrow> (console_state, console_call) reaction" where
  "console_click e c s = (s, [Push ''/admin/workflows/create''])"

definition console_ok :: "js_env \<Rightarrow> console_call \<Rightarrow> admin_stats_out \<Rightarrow> console_state \<Rightarrow> (console_state, console_call) reaction" where
  "console_ok e k p s = (s\<lparr>ac_stats := Some p, ac_loading := False\<rparr>, [])"

definition console_fail :: "js_env \<Rightarrow> console_call \<Rightarrow> api_failure \<Rightarrow> console_state \<Rightarrow> (console_state, console_call) reaction" where
  "console_fail e k x s = (s\<lparr>ac_loading := False\<rparr>, [])"

text \<open>\<open>stats?.users || 0\<close>.\<close>

definition stat_or_zero :: "(admin_stats_out \<Rightarrow> nat) \<Rightarrow> console_state \<Rightarrow> nat" where
  "stat_or_zero f s = (case ac_stats s of None \<Rightarrow> 0 | Some t \<Rightarrow> f t)"

definition metrics :: "console_state \<Rightarrow> (string \<times> nat \<times> string) list" where
  "metrics s = [(''Active Identities'', stat_or_zero as_users s, ''Users''),
     (''Execution Protocols'', stat_or_zero as_workflows s, ''GitBranch''),
     (''Live Instances'', stat_or_zero as_requests s, ''Activity''),
     (''SLA Divergences'', stat_or_zero as_sla_breaches s, ''AlertTriangle'')]"

definition metric_view :: "string \<times> nat \<times> string \<Rightarrow> (console_action, unit) node" where
  "metric_view = (\<lambda>(label, value, icon). Box [Ico icon, Txt ''Live Telemetry'', Txt (show_nat value), Txt label])"

definition console_panels :: "(console_action, unit) node" where
  "console_panels = Box [
     Box [Ico ''ShieldCheck'', Txt ''Security & Governance'', Txt ''Node Authority & Access Controls'', Ico ''ArrowRight'',
       Box [Ico ''Database'', Txt ''Schema Management'', Txt ''Update and refine core workflow data structures.''],
       Box [Ico ''Activity'', Txt ''System Audit'', Txt ''Review historical execution logs and diverging tasks.'']],
     Box [Ico ''Play'', Txt ''Initialization Sequence'',
       Txt ''Admins can override standard protocol constraints. Define custom execution pathways for emergency infrastructure adjustments.'',
       Btn DefineProtocol False [Txt ''Access Constructor'']]]"

definition console_view :: "js_env \<Rightarrow> console_state \<Rightarrow> (console_action, unit) node" where
  "console_view e s = Box [
     heading ''Command Center'' ''Admin Console''
       ''System-wide orchestration metrics and protocol definition terminal.'',
     Btn DefineProtocol False [Ico ''Plus'', Txt ''Define New Protocol''],
     Box (map metric_view (metrics s)),
     console_panels]"

definition console_page :: "(console_state, console_action, unit, console_call, admin_stats_out) page" where
  "console_page = \<lparr>on_mount = console_mount, on_click = console_click, on_change = (\<lambda>_ _ s. (s, [])),
     on_ok = console_ok, on_fail = console_fail, on_timer = (\<lambda>_ s. (s, [])),
     on_deps = (\<lambda>_ _. []), view = console_view\<rparr>"

section \<open>Workflow protocols\<close>

record protocols_state =
  pr_workflows :: "workflow_out list"
  pr_loading :: bool

definition protocols_init :: protocols_state where
  "protocols_init = \<lparr>pr_workflows = [], pr_loading = True\<rparr>"

text \<open>A deletion is clicked with the answer to its confirmation dialog. The pending call keeps the
  list of the render it was clicked in: the continuation filters that list, not the current one.\<close>

datatype protocols_action = CreateProtocol | DeleteProtocol uuid bool
datatype protocols_call = FetchWorkflows | DeleteCall uuid "workflow_out list"
datatype protocols_payload = Workflows "workflow_out list" | Deleted

definition protocols_mount :: "(protocols_state, protocols_call) reaction" where
  "protocols_mount = (protocols_init, [Call FetchWorkflows GET ''/workflows/'' NoBody])"

definition handleDelete :: "uuid \<Rightarrow> bool \<Rightarrow> protocols_state \<Rightarrow> (protocols_state, protocols_call) reaction" where
  "handleDelete i confirmed s =
     (if \<not> confirmed then (s, [])
      else (s, [Call (DeleteCall i (pr_workflows s)) DELETE (''/workflows/'' @ i) NoBody]))"

definition protocols_click :: "js_env \<Rightarrow> protocols_action \<Rightarrow> protocols_state \<Rightarrow> (protocols_state, protocols_call) reaction" where
  "protocols_click e c s = (case c of
     CreateProtocol \<Rightarrow> (s, [Push ''/admin/workflows/create''])
   | DeleteProtocol i confirmed \<Rightarrow> handleDelete i confirmed s)"

definition protocols_ok :: "js_env \<Rightarrow> protocols_call \<Rightarrow> protocols_payload \<Rightarrow> protocols_state \<Rightarrow> (protocols_state, protocols_call) reaction" where
  "protocols_ok e k p s = (case (k, p) of
     (FetchWorkflows, Workflows ws) \<Rightarrow> (s\<lparr>pr_workflows := ws, pr_loading := False\<rparr>, [])
   | (FetchWorkflows, _) \<Rightarrow> (s\<lparr>pr_loading := False\<rparr>, [])
   | (DeleteCall i seen, _) \<Rightarrow> (s\<lparr>pr_workflows := filter (\<lambda>w. wo_id w \<noteq> i) seen\<rparr>, []))"

definition delete_alert :: string where
  "delete_alert = ''Failed to delete workflow. Ensure it has no active requests.''"

definition protocols_fail :: "js_env \<Rightarrow> protocols_call \<Rightarrow> api_failure \<Rightarrow> protocols_state \<Rightarrow> (protocols_state, protocols_call) reaction" where
  "protocols_fail e k x s = (case k of
     FetchWorkflows \<Rightarrow> (s\<lparr>pr_loading := False\<rparr>, [])
   | DeleteCall i seen \<Rightarrow> (s, [Alert delete_alert]))"

definition protocol_entry :: "workflow_out \<Rightarrow> (protocols_action, unit) node" where
  "protocol_entry w = Box [Ico ''GitBranch'', Txt (wo_name w),
     Txt (case wo_description w of None \<Rightarrow> '''' | Some d \<Rightarrow> d),
     Txt ''Complexity'', Txt (show_nat (length (wo_steps w)) @ '' Nodes''),
     Txt ''Created'', Tim ''distance'' (wo_created_at w), Txt '' ago'',
     Btn (DeleteProtocol (wo_id w) True) False [Ico ''Trash2''],
     Btn (DeleteProtocol (wo_id w) False) False []]"

definition protocols_view :: "js_env \<Rightarrow> protocols_state \<Rightarrow> (protocols_action, unit) node" where
  "protocols_view e s = (if pr_loading s then Spin else Box [
     heading ''System Administration'' ''Workflow Protocols''
       ''Define and manage the operational logic matrices for the platform.'',
     Btn CreateProtocol False [Ico ''Plus'', Txt ''Create New Protocol''],
     (if pr_workflows s = [] then Box [Ico ''GitBranch'', Txt ''No protocols defined.'']
      else Box (map protocol_entry (pr_workflows s)))])"

definition protocols_page :: "(protocols_state, protocols_action, unit, protocols_call, protocols_payload) page" where
  "protocols_page = \<lparr>on_mount = protocols_mount, on_click = protocols_click, on_change = (\<lambda>_ _ s. (s, [])),
     on_ok = protocols_ok, on_fail = protocols_fail, on_timer = (\<lambda>_ s. (s, [])),
     on_deps = (\<lambda>_ _. []), view = protocols_view\<rparr>"

lemma protocols_page_simps [simp]:
  "on_mount protocols_page = protocols_mount" "on_click protocols_page = protocols_click"
  "on_change protocols_page = (\<lambda>_ _ s. (s, []))"
  "on_ok protocols_page = protocols_ok" "on_fail protocols_page = protocols_fail"
  "on_timer protocols_page = (\<lambda>_ s. (s, []))"
  "on_deps protocols_page = (\<lambda>_ _. [])" "view protocols_page = protocols_view"
  by (simp_all add: protocols_page_def)

lemma protocols_clicks:
  "set (clicks (protocols_view e s)) = (if pr_loading s then {} else
     {CreateProtocol} \<union> (\<Union>w \<in> set (pr_workflows s). {DeleteProtocol (wo_id w) True, DeleteProtocol (wo_id w) False}))"
  by (auto simp: protocols_view_def protocol_entry_def)

text \<open>A deletion that is alone removes its workflow and no other.\<close>

lemma single_delete:
  "pr_workflows (fst (protocols_ok e (DeleteCall i (pr_workflows s)) Deleted s)) =
   filter (\<lambda>w. wo_id w \<noteq> i) (pr_workflows s)"
  by (simp add: protocols_ok_def)

text \<open>
  C40. Deletions that overlap undo each other on the screen: when two workflows are deleted one after
  the other before the first answer, both calls succeed and the page shows the first one again, which
  the server has deleted; the list it shows is that of the second closure alone.
\<close>

theorem overlapping_deletes_resurrect:
  assumes "\<not> pr_loading (st s)" and "{v, w} \<subseteq> set (pr_workflows (st s))" and "wo_id v \<noteq> wo_id w"
  shows "\<exists>s'. perform_all protocols_page
      [(e, Click (DeleteProtocol (wo_id v) True)), (e, Click (DeleteProtocol (wo_id w) True)),
       (e, Ok (DeleteCall (wo_id v) (pr_workflows (st s))) Deleted),
       (e, Ok (DeleteCall (wo_id w) (pr_workflows (st s))) Deleted)] s = Some s' \<and>
    v \<in> set (pr_workflows (st s')) \<and> w \<notin> set (pr_workflows (st s')) \<and>
    map rq_url (drop (length (br_sent (br s))) (br_sent (br s'))) = [''/workflows/'' @ wo_id v, ''/workflows/'' @ wo_id w]"
  using assms
  by (auto simp: protocols_clicks protocols_click_def handleDelete_def protocols_ok_def react_def send_def make_request_def)

definition sample_workflow :: "uuid \<Rightarrow> workflow_out" where
  "sample_workflow i = \<lparr>wo_id = i, wo_name = i, wo_description = None, wo_is_active = True, wo_created_at = 0, wo_steps = []\<rparr>"

definition sample_admin_env :: js_env where
  "sample_admin_env = \<lparr>env_now = 0, env_rand = 0, env_randid = ''x'', env_errmsg = (\<lambda>_. ''''),
     env_email = (\<lambda>s. List.member s (CHR ''@''))\<rparr>"

theorem overlapping_deletes_resurrect_witness:
  "\<exists>s'. perform_all protocols_page
      [(sample_admin_env, Click (DeleteProtocol ''a'' True)), (sample_admin_env, Click (DeleteProtocol ''b'' True)),
       (sample_admin_env, Ok (DeleteCall ''a'' [sample_workflow ''a'', sample_workflow ''b'']) Deleted),
       (sample_admin_env, Ok (DeleteCall ''b'' [sample_workflow ''a'', sample_workflow ''b'']) Deleted)]
      \<lparr>st = \<lparr>pr_workflows = [sample_workflow ''a'', sample_workflow ''b''], pr_loading = False\<rparr>,
       inflight = [], timers = [], br = new_browser\<rparr> = Some s' \<and>
    sample_workflow ''a'' \<in> set (pr_workflows (st s'))"
  using overlapping_deletes_resurrect [of "\<lparr>st = \<lparr>pr_workflows = [sample_workflow ''a'', sample_workflow ''b''], pr_loading = False\<rparr>,
       inflight = [], timers = [], br = new_browser\<rparr>" "sample_workflow ''a''" "sample_workflow ''b''" sample_admin_env]
  by (auto simp: sample_workflow_def simp del: perform_all.simps)

section \<open>Alerts\<close>

record alert_entry =
  al_title :: string
  al_desc :: string
  al_time :: string
  al_type :: string

definition alert_entries :: "alert_entry list" where
  "alert_entries = [
     \<lparr>al_title = ''System Calibration Complete'', al_desc = ''Operational core synchronized with post-quantum encryption protocols.'', al_time = ''2m ago'', al_type = ''success''\<rparr>,
     \<lparr>al_title = ''SLA Optimization Required'', al_desc = ''Instance #A92B3C is approaching critical timeline boundary.'', al_time = ''15m ago'', al_type = ''warning''\<rparr>,
     \<lparr>al_title = ''Strategic Deployment Initialized'', al_desc = ''New workflow blueprint '' @ [CHR 0x27] @ ''Cross-Dep Audit'' @ [CHR 0x27] @ '' active in production cluster 4.'', al_time = ''1h ago'', al_type = ''info''\<rparr>,
     \<lparr>al_title = ''Intrusion Deterrence Active'', al_desc = ''Security matrices successfully mitigated 12 unauthorized access attempts.'', al_time = ''4h ago'', al_type = ''security''\<rparr>]"

definition alert_style :: "string \<Rightarrow> string" where
  "alert_style t = (if t = ''warning'' then ''amber'' else if t = ''success'' then ''emerald''
     else if t = ''security'' then ''rose'' else ''indigo'')"

definition alert_view :: "alert_entry \<Rightarrow> ('c, 'f) node" where
  "alert_view a = Box [Sty (alert_style (al_type a)) [Ico ''Bell''], Txt (al_title a), Txt (al_desc a), Txt (al_time a)]"

definition notifications_view :: "('c, 'f) node" where
  "notifications_view = Box [
     heading ''Signal Stream'' ''Intelligence Center''
       ''Real-time alerts, system optimizations, and security telemetry streams.'',
     Box (map alert_view alert_entries)]"

end
