(* ===== verification/Accounts.thy ===== *)
theory Accounts
  imports Endpoints Uuids "HOL-Library.Word"
begin

text \<open>
  The accounts of the platform: the tables of \<open>app/db/models/user.py\<close>, passwords and tokens
  (\<open>app/core/security.py\<close>), the login (\<open>api/v1/endpoints/login.py\<close>), the authentication of a call
  (\<open>app/api/deps.py\<close>), and the endpoints of users, roles and permissions. bcrypt, the JWT library, the
  check of e-mail addresses and FastAPI's reading of the \<open>Authorization\<close> header are parameters
  (\<open>security\<close>). Text is ASCII, so that its length counts characters and bytes alike.
\<close>

section \<open>Tables and parameters\<close>

record account_row = user_row +
  user_username :: string
  user_password_hash :: string
  user_created_at :: int
  user_updated_at :: int

record accounts =
  ac_users :: "account_row list"
  ac_roles :: "role_row list"
  ac_permissions :: "permission_row list"

text \<open>\<open>EmailStr\<close> returns the normalised address. \<open>None\<close> stands for an exception of the library; a token
  may lack its subject. The lifetime of a token is a setting, in minutes.\<close>

record security =
  sec_bearer :: "string \<Rightarrow> string option"
  sec_email :: "string \<Rightarrow> string option"
  sec_hashpw :: "string \<Rightarrow> string \<Rightarrow> string option"
  sec_checkpw :: "string \<Rightarrow> string \<Rightarrow> bool option"
  sec_encode :: "string \<Rightarrow> int \<Rightarrow> string"
  sec_decode :: "int \<Rightarrow> string \<Rightarrow> string option option"
  sec_minutes :: int

text \<open>What a call draws at random: \<open>uuid.uuid4()\<close> and \<open>bcrypt.gensalt()\<close>.\<close>

record random_source =
  rnd_uuid :: "128 word"
  rnd_salt :: string

definition as_user :: "'a user_row_scheme \<Rightarrow> user_row" where
  "as_user u = user_row.truncate u"

section \<open>Passwords and tokens\<close>

definition verify_password :: "security \<Rightarrow> string \<Rightarrow> string \<Rightarrow> bool" where
  "verify_password sec plain hashed = (case sec_checkpw sec plain hashed of None \<Rightarrow> False | Some b \<Rightarrow> b)"

definition get_password_hash :: "security \<Rightarrow> random_source \<Rightarrow> string \<Rightarrow> string option" where
  "get_password_hash sec rnd password = sec_hashpw sec (take 72 password) (rnd_salt rnd)"

text \<open>A \<open>timedelta\<close> of zero is falsy. Instants are in seconds.\<close>

definition create_access_token :: "security \<Rightarrow> int \<Rightarrow> uuid \<Rightarrow> int option \<Rightarrow> string" where
  "create_access_token sec now subject expires_minutes =
     (let expire = (case expires_minutes of
          Some m \<Rightarrow> if m \<noteq> 0 then now + 60 * m else now + 60 * sec_minutes sec
        | None \<Rightarrow> now + 60 * sec_minutes sec)
      in sec_encode sec subject expire)"

section \<open>Authentication\<close>

text \<open>\<open>uuid.UUID(None)\<close> is a \<open>TypeError\<close>, which the endpoint does not catch.\<close>

definition get_current_user :: "security \<Rightarrow> int \<Rightarrow> string option \<Rightarrow> 'a user_row_scheme list \<Rightarrow> failure + 'a user_row_scheme" where
  "get_current_user sec now header users = (case Option.bind header (sec_bearer sec) of
     None \<Rightarrow> Inl (HttpException 401)
   | Some token \<Rightarrow> (case sec_decode sec now token of
       None \<Rightarrow> Inl (HttpException 401)
     | Some None \<Rightarrow> Inl TypeError
     | Some (Some sub) \<Rightarrow> (case parse_uuid sub of
         None \<Rightarrow> Inl (HttpException 401)
       | Some i \<Rightarrow> (case get_row user_id i users of
           None \<Rightarrow> Inl (HttpException 404)
         | Some u \<Rightarrow> if \<not> user_active u then Inl (HttpException 400) else Inr u))))"

text \<open>An endpoint that depends on the current user; FastAPI resolves the dependency before the body.\<close>

definition authenticated :: "security \<Rightarrow> server \<Rightarrow> string option \<Rightarrow> accounts \<Rightarrow> (account_row \<Rightarrow> 'b response \<times> accounts) \<Rightarrow>
    'b response \<times> accounts" where
  "authenticated sec e header ac endpoint = (case get_current_user sec (srv_now e) header (ac_users ac) of
     Inl f \<Rightarrow> (Failed (http_status f), ac)
   | Inr u \<Rightarrow> endpoint u)"

section \<open>Login\<close>

record token_out =
  tok_access_token :: string
  tok_token_type :: string
  tok_role :: "string option"

text \<open>\<open>user.roles[0].name.lower()\<close>, in the order in which the relationship was loaded.\<close>

definition primary_role :: "'a user_row_scheme \<Rightarrow> string" where
  "primary_role u = (case user_roles u of [] \<Rightarrow> ''user'' | r # _ \<Rightarrow> to_lower (role_row_name r))"

definition login_access_token :: "security \<Rightarrow> server \<Rightarrow> string \<Rightarrow> string \<Rightarrow> accounts \<Rightarrow> token_out response" where
  "login_access_token sec e username password ac =
     (case query_first e user_id (\<lambda>u. user_email u = username) (ac_users ac) of
        None \<Rightarrow> Failed 400
      | Some u \<Rightarrow>
          if \<not> verify_password sec password (user_password_hash u) then Failed 400
          else if \<not> user_active u then Failed 400
          else Success \<lparr>tok_access_token = create_access_token sec (srv_now e) (user_id u) (Some (sec_minutes sec)),
                 tok_token_type = ''bearer'', tok_role = Some (primary_role u)\<rparr>)"

section \<open>Schemas\<close>

record account_in =
  ui_email :: string
  ui_username :: string
  ui_full_name :: string
  ui_active :: bool
  ui_password :: string

definition read_email :: "security \<Rightarrow> json \<Rightarrow> string option" where
  "read_email sec v = (case v of JStr s \<Rightarrow> sec_email sec s | _ \<Rightarrow> None)"

definition min_text :: "nat \<Rightarrow> json \<Rightarrow> string option" where
  "min_text a v = (case v of JStr s \<Rightarrow> if a \<le> length s then Some s else None | _ \<Rightarrow> None)"

definition UserCreate :: "security \<Rightarrow> codec \<Rightarrow> json \<Rightarrow> account_in option" where
  "UserCreate sec cd v = (case v of JObj kvs \<Rightarrow>
     Option.bind (required (read_email sec) ''email'' kvs) (\<lambda>email.
     Option.bind (required (bounded_text 3 100) ''username'' kvs) (\<lambda>username.
     Option.bind (required (bounded_text 1 255) ''full_name'' kvs) (\<lambda>full_name.
     Option.bind (defaulted True (cd_bool cd) ''is_active'' kvs) (\<lambda>active.
     Option.bind (required (min_text 8) ''password'' kvs) (\<lambda>password.
     Some \<lparr>ui_email = email, ui_username = username, ui_full_name = full_name, ui_active = active, ui_password = password\<rparr>)))))
   | _ \<Rightarrow> None)"

text \<open>The response models are checked too; a value that they refuse is a server error.\<close>

record account_out =
  uo_id :: uuid
  uo_email :: string
  uo_username :: string
  uo_full_name :: string
  uo_active :: bool
  uo_created_at :: int
  uo_updated_at :: int

definition UserSchema :: "security \<Rightarrow> account_row \<Rightarrow> account_out option" where
  "UserSchema sec u = (case sec_email sec (user_email u) of
     None \<Rightarrow> None
   | Some email \<Rightarrow>
       if 3 \<le> length (user_username u) \<and> length (user_username u) \<le> 100 \<and> 1 \<le> length (user_full_name u) \<and> length (user_full_name u) \<le> 255
       then Some \<lparr>uo_id = user_id u, uo_email = email, uo_username = user_username u, uo_full_name = user_full_name u,
         uo_active = user_active u, uo_created_at = user_created_at u, uo_updated_at = user_updated_at u\<rparr>
       else None)"

definition RoleSchema :: "role_row \<Rightarrow> role_out" where
  "RoleSchema r = \<lparr>role_id = role_row_id r, role_name = role_row_name r\<rparr>"

definition PermissionSchema :: "permission_row \<Rightarrow> permission_out" where
  "PermissionSchema p = \<lparr>perm_id = perm_row_id p, perm_name = perm_row_name p\<rparr>"

definition UserWithRolesSchema :: "security \<Rightarrow> account_row \<Rightarrow> user_out option" where
  "UserWithRolesSchema sec u = map_option (\<lambda>v.
     \<lparr>usr_id = uo_id v, usr_full_name = uo_full_name v, usr_roles = map RoleSchema (user_roles u)\<rparr>) (UserSchema sec u)"

definition model_response :: "'b option \<Rightarrow> 'b response" where
  "model_response x = (case x of None \<Rightarrow> Failed 500 | Some y \<Rightarrow> Success y)"

section \<open>Writing accounts\<close>

text \<open>What a flush checks: the primary key and the two unique columns; PostgreSQL also the lengths.\<close>

definition account_fits :: "account_row \<Rightarrow> bool" where
  "account_fits u \<longleftrightarrow> length (user_email u) \<le> 255 \<and> length (user_username u) \<le> 100 \<and>
     length (user_password_hash u) \<le> 255 \<and> length (user_full_name u) \<le> 255"

definition users_ok :: "server \<Rightarrow> account_row list \<Rightarrow> bool" where
  "users_ok e us \<longleftrightarrow> distinct (map user_id us) \<and> distinct (map user_email us) \<and> distinct (map user_username us) \<and>
     (srv_strict e \<longrightarrow> list_all account_fits us)"

definition commit_users :: "server \<Rightarrow> (accounts, unit) session_op" where
  "commit_users e = (\<lambda>ac. if users_ok e (ac_users ac) then (Inr (), ac) else (Inl DatabaseError, ac))"

definition transact_users :: "(accounts, 'a) session_op \<Rightarrow> (accounts, 'a) session_op" where
  "transact_users m = (\<lambda>ac. case m ac of (Inl f, ac') \<Rightarrow> (Inl f, ac) | (Inr x, ac') \<Rightarrow> (Inr x, ac'))"

definition respond_users :: "(accounts, 'a) session_op \<Rightarrow> (accounts \<Rightarrow> 'a \<Rightarrow> 'b option) \<Rightarrow> accounts \<Rightarrow> 'b response \<times> accounts" where
  "respond_users m out ac = (case transact_users m ac of
     (Inl f, ac') \<Rightarrow> (Failed (http_status f), ac')
   | (Inr x, ac') \<Rightarrow> (model_response (out ac' x), ac'))"

definition hash_or_raise :: "security \<Rightarrow> random_source \<Rightarrow> string \<Rightarrow> (accounts, string) session_op" where
  "hash_or_raise sec rnd password =
     (case get_password_hash sec rnd password of None \<Rightarrow> raise_op ValueError | Some h \<Rightarrow> return_op h)"

definition new_account :: "server \<Rightarrow> random_source \<Rightarrow> account_in \<Rightarrow> string \<Rightarrow> account_row" where
  "new_account e rnd ui h = \<lparr>user_id = uuid_text (unat (rnd_uuid rnd)), user_email = ui_email ui, user_full_name = ui_full_name ui,
     user_active = ui_active ui, user_roles = [], user_username = ui_username ui, user_password_hash = h,
     user_created_at = srv_now e, user_updated_at = srv_now e\<rparr>"

definition email_taken :: "string \<Rightarrow> accounts \<Rightarrow> bool" where
  "email_taken m ac = list_ex (\<lambda>u. user_email u = m) (ac_users ac)"

definition create_user :: "security \<Rightarrow> server \<Rightarrow> random_source \<Rightarrow> account_row \<Rightarrow> account_in \<Rightarrow> (accounts, uuid) session_op" where
  "create_user sec e rnd current_user ui =
     and_do (check_role (as_user current_user) ''admin'') (\<lambda>_ ac.
     and_do (check_op (\<not> email_taken (ui_email ui) ac) (HttpException 400)) (\<lambda>_.
     and_do (hash_or_raise sec rnd (ui_password ui)) (\<lambda>h.
     and_do (change_op (\<lambda>ac. ac\<lparr>ac_users := ac_users ac @ [new_account e rnd ui h]\<rparr>)) (\<lambda>_.
     and_do (commit_users e) (\<lambda>_.
     return_op (user_id (new_account e rnd ui h)))))) ac)"

text \<open>\<open>UserUpdate(**jsonable_encoder(current_user))\<close> checks the stored address again, and the update writes
  it back in normal form when the body has no other. An address is taken when it is another account's;
  \<open>updated_at\<close> changes when a column does.\<close>

record profile_in =
  pi_password :: "string option"
  pi_full_name :: "string option"
  pi_email :: "string option"

definition no_profile :: profile_in where
  "no_profile = \<lparr>pi_password = None, pi_full_name = None, pi_email = None\<rparr>"

definition profile_body :: "security \<Rightarrow> json \<Rightarrow> profile_in option" where
  "profile_body sec v = (case v of
     JObj kvs \<Rightarrow>
       Option.bind (optional read_text ''password'' kvs) (\<lambda>password.
       Option.bind (optional read_text ''full_name'' kvs) (\<lambda>full_name.
       Option.bind (optional (read_email sec) ''email'' kvs) (\<lambda>email.
       Some \<lparr>pi_password = password, pi_full_name = full_name, pi_email = email\<rparr>)))
   | JNull \<Rightarrow> Some no_profile
   | _ \<Rightarrow> None)"

definition email_of_other :: "server \<Rightarrow> uuid \<Rightarrow> string \<Rightarrow> accounts \<Rightarrow> bool" where
  "email_of_other e i m ac = (case query_first e user_id (\<lambda>u. user_email u = m) (ac_users ac) of
     None \<Rightarrow> False | Some u \<Rightarrow> user_id u \<noteq> i)"

definition edit_account :: "int \<Rightarrow> string \<Rightarrow> string option \<Rightarrow> string option \<Rightarrow> account_row \<Rightarrow> account_row" where
  "edit_account now email h full_name u =
     (let v = u\<lparr>user_email := email, user_password_hash := (case h of None \<Rightarrow> user_password_hash u | Some h' \<Rightarrow> h'),
            user_full_name := (case full_name of None \<Rightarrow> user_full_name u | Some n \<Rightarrow> n)\<rparr>
      in if v = u then u else v\<lparr>user_updated_at := now\<rparr>)"

definition update_user_me :: "security \<Rightarrow> server \<Rightarrow> random_source \<Rightarrow> account_row \<Rightarrow> profile_in \<Rightarrow> (accounts, uuid) session_op" where
  "update_user_me sec e rnd current_user p = (\<lambda>ac.
     case sec_email sec (user_email current_user) of
       None \<Rightarrow> (Inl ValueError, ac)
     | Some own \<Rightarrow>
         (let email = (case pi_email p of None \<Rightarrow> own | Some m \<Rightarrow> m)
          in and_do (check_op (\<not> email_of_other e (user_id current_user) email ac) (HttpException 409)) (\<lambda>_.
             and_do (case pi_password p of None \<Rightarrow> return_op None
                     | Some password \<Rightarrow> and_do (hash_or_raise sec rnd password) (\<lambda>h. return_op (Some h))) (\<lambda>h.
             and_do (change_op (\<lambda>ac. ac\<lparr>ac_users := update_row user_id (user_id current_user)
                 (edit_account (srv_now e) email h (pi_full_name p)) (ac_users ac)\<rparr>)) (\<lambda>_.
             and_do (commit_users e) (\<lambda>_.
             return_op (user_id current_user))))) ac))"

section \<open>The endpoints\<close>

definition account_response :: "(account_row \<Rightarrow> 'b option) \<Rightarrow> accounts \<Rightarrow> uuid \<Rightarrow> 'b option" where
  "account_response schema ac i = Option.bind (get_row user_id i (ac_users ac)) schema"

definition read_users :: "security \<Rightarrow> server \<Rightarrow> nat \<Rightarrow> nat \<Rightarrow> string option \<Rightarrow> accounts \<Rightarrow> account_out list response \<times> accounts" where
  "read_users sec e skip limit header ac = authenticated sec e header ac (\<lambda>u.
     respond_users (check_role (as_user u) ''admin'')
       (\<lambda>ac _. those (map (UserSchema sec) (take limit (drop skip (query e user_id (\<lambda>_. True) (ac_users ac)))))) ac)"

definition post_user :: "security \<Rightarrow> codec \<Rightarrow> server \<Rightarrow> random_source \<Rightarrow> string option \<Rightarrow> json \<Rightarrow> accounts \<Rightarrow> account_out response \<times> accounts" where
  "post_user sec cd e rnd header body ac = authenticated sec e header ac (\<lambda>u.
     case UserCreate sec cd body of
       None \<Rightarrow> (Failed 422, ac)
     | Some ui \<Rightarrow> respond_users (create_user sec e rnd u ui) (account_response (UserSchema sec)) ac)"

definition read_user_me :: "security \<Rightarrow> server \<Rightarrow> string option \<Rightarrow> accounts \<Rightarrow> user_out response \<times> accounts" where
  "read_user_me sec e header ac = authenticated sec e header ac (\<lambda>u. (model_response (UserWithRolesSchema sec u), ac))"

definition put_user_me :: "security \<Rightarrow> server \<Rightarrow> random_source \<Rightarrow> string option \<Rightarrow> json \<Rightarrow> accounts \<Rightarrow> account_out response \<times> accounts" where
  "put_user_me sec e rnd header body ac = authenticated sec e header ac (\<lambda>u.
     case profile_body sec body of
       None \<Rightarrow> (Failed 422, ac)
     | Some p \<Rightarrow> respond_users (update_user_me sec e rnd u p) (account_response (UserSchema sec)) ac)"

definition read_user_by_id :: "security \<Rightarrow> server \<Rightarrow> string option \<Rightarrow> string \<Rightarrow> accounts \<Rightarrow> user_out response \<times> accounts" where
  "read_user_by_id sec e header i ac = authenticated sec e header ac (\<lambda>_.
     (case parse_uuid i of
        None \<Rightarrow> Failed 400
      | Some j \<Rightarrow> (case get_row user_id j (ac_users ac) of
          None \<Rightarrow> Failed 404
        | Some u \<Rightarrow> model_response (UserWithRolesSchema sec u)), ac))"

text \<open>Roles and permissions are returned without authentication.\<close>

definition get_roles :: "server \<Rightarrow> nat \<Rightarrow> nat \<Rightarrow> accounts \<Rightarrow> role_out list" where
  "get_roles e skip limit ac = map RoleSchema (take limit (drop skip (query e role_row_id (\<lambda>_. True) (ac_roles ac))))"

definition get_permissions :: "server \<Rightarrow> nat \<Rightarrow> nat \<Rightarrow> accounts \<Rightarrow> permission_out list" where
  "get_permissions e skip limit ac = map PermissionSchema (take limit (drop skip (query e perm_row_id (\<lambda>_. True) (ac_permissions ac))))"

end
