(* ===== verification/AccountProperties.thy ===== *)
theory AccountProperties
  imports Accounts EndpointProperties
begin

text \<open>
  What the account endpoints guarantee over whole runs of calls: accounts stay distinct and keep their
  roles, a token stands for its account until it expires, a created account can log in, and what a profile
  update does on every branch. The laws of the libraries are named hypotheses.
\<close>

section \<open>The laws of the libraries\<close>

text \<open>FastAPI hands over the token of a \<open>Bearer\<close> header; a JWT is accepted with its subject until it
  expires; bcrypt accepts the password that was hashed.\<close>

definition bearer_ok :: "security \<Rightarrow> bool" where
  "bearer_ok sec \<longleftrightarrow> (\<forall>t. sec_bearer sec (''Bearer '' @ t) = Some t)"

definition token_ok :: "security \<Rightarrow> bool" where
  "token_ok sec \<longleftrightarrow> (\<forall>now sub expiry. sec_decode sec now (sec_encode sec sub expiry) = (if now \<le> expiry then Some (Some sub) else None))"

definition password_ok :: "security \<Rightarrow> bool" where
  "password_ok sec \<longleftrightarrow> (\<forall>p salt h. sec_hashpw sec p salt = Some h \<longrightarrow> sec_checkpw sec p h = Some True)"

section \<open>Users as the role checks see them\<close>

lemma as_user_simps [simp]:
  "user_id (as_user u) = user_id u" "user_email (as_user u) = user_email u" "user_active (as_user u) = user_active u"
  "user_roles (as_user u) = user_roles u"
  by (simp_all add: as_user_def user_row.defs)

definition holds_role :: "string \<Rightarrow> account_row \<Rightarrow> bool" where
  "holds_role n u = has_role (as_user u) n"

lemma holds_role_roles: "user_roles u = user_roles v \<Longrightarrow> holds_role n u = holds_role n v"
  by (simp add: holds_role_def has_role_def)

lemma holds_role_none: "user_roles u = [] \<Longrightarrow> \<not> holds_role n u"
  by (simp add: holds_role_def has_role_def)

section \<open>The writing calls\<close>

definition accounts_ok :: "account_row list \<Rightarrow> bool" where
  "accounts_ok us \<longleftrightarrow> distinct (map user_id us) \<and> distinct (map user_email us) \<and> distinct (map user_username us) \<and>
     list_all (\<lambda>u. canonical_uuid (user_id u)) us"

lemma accounts_ok_row: "accounts_ok us \<Longrightarrow> u \<in> set us \<Longrightarrow> get_row user_id (user_id u) us = Some u"
  by (rule get_row_unique) (simp_all add: accounts_ok_def)

text \<open>An account keeps everything but its address, name, password and time stamp.\<close>

definition same_account :: "account_row \<Rightarrow> account_row \<Rightarrow> bool" where
  "same_account u v \<longleftrightarrow> user_id v = user_id u \<and> user_username v = user_username u \<and> user_active v = user_active u \<and>
     user_roles v = user_roles u \<and> user_created_at v = user_created_at u"

lemma same_account_refl [simp]: "same_account u u"
  by (simp add: same_account_def)

lemma same_account_trans: "same_account u v \<Longrightarrow> same_account v w \<Longrightarrow> same_account u w"
  by (simp add: same_account_def)

lemma edit_account_same [simp]: "same_account u (edit_account now m h n u)" "user_id (edit_account now m h n u) = user_id u"
  by (simp_all add: same_account_def edit_account_def Let_def)

definition editing :: "server \<Rightarrow> uuid \<Rightarrow> string \<Rightarrow> string option \<Rightarrow> string option \<Rightarrow> accounts \<Rightarrow> accounts" where
  "editing e i m h n ac = ac\<lparr>ac_users := update_row user_id i (edit_account (srv_now e) m h n) (ac_users ac)\<rparr>"

definition adding :: "server \<Rightarrow> random_source \<Rightarrow> account_in \<Rightarrow> string \<Rightarrow> accounts \<Rightarrow> accounts" where
  "adding e rnd ui h ac = ac\<lparr>ac_users := ac_users ac @ [new_account e rnd ui h]\<rparr>"

lemma commit_users_run: "commit_users e ac = (if users_ok e (ac_users ac) then Inr () else Inl DatabaseError, ac)"
  by (simp add: commit_users_def)

lemma hash_or_raise_run: "hash_or_raise sec rnd p ac =
    (case get_password_hash sec rnd p of None \<Rightarrow> Inl ValueError | Some h \<Rightarrow> Inr h, ac)"
  by (simp add: hash_or_raise_def split: option.split)

lemma check_op_run: "check_op b f ac = (if b then Inr () else Inl f, ac)"
  by simp

lemma check_role_run: "check_role u n ac = (if has_role u n \<or> (to_lower n = ''admin'' \<and> has_role u ''superadmin'') then Inr () else Inl PermissionDenied, ac)"
proof -
  have "has_role u ''ADMIN'' = has_role u ''admin''" by (rule has_role_case) simp
  moreover have "to_lower n = ''admin'' \<Longrightarrow> has_role u n = has_role u ''admin''" by (rule has_role_case) simp
  ultimately show ?thesis by (auto simp: check_role_def op_defs)
qed

definition is_administrator :: "account_row \<Rightarrow> bool" where
  "is_administrator u \<longleftrightarrow> holds_role ''admin'' u \<or> holds_role ''superadmin'' u"

lemma is_administrator_roles: "user_roles u = user_roles v \<Longrightarrow> is_administrator u = is_administrator v"
  by (simp add: is_administrator_def holds_role_def has_role_def)

text \<open>Creating, on every branch.\<close>

lemma create_user_run:
  "transact_users (create_user sec e rnd u ui) ac =
     (if \<not> is_administrator u then (Inl PermissionDenied, ac)
      else if email_taken (ui_email ui) ac then (Inl (HttpException 400), ac)
      else case get_password_hash sec rnd (ui_password ui) of
        None \<Rightarrow> (Inl ValueError, ac)
      | Some h \<Rightarrow> if users_ok e (ac_users (adding e rnd ui h ac))
          then (Inr (user_id (new_account e rnd ui h)), adding e rnd ui h ac) else (Inl DatabaseError, ac))"
  by (auto simp: transact_users_def create_user_def and_do_def check_role_run check_op_run hash_or_raise_run commit_users_run
      is_administrator_def holds_role_def adding_def split: option.splits)

definition updated_email :: "string \<Rightarrow> profile_in \<Rightarrow> string" where
  "updated_email own p = (case pi_email p of None \<Rightarrow> own | Some m \<Rightarrow> m)"

definition updated_hash :: "security \<Rightarrow> random_source \<Rightarrow> profile_in \<Rightarrow> failure + string option" where
  "updated_hash sec rnd p = (case pi_password p of None \<Rightarrow> Inr None
     | Some q \<Rightarrow> (case get_password_hash sec rnd q of None \<Rightarrow> Inl ValueError | Some h \<Rightarrow> Inr (Some h)))"

lemma update_user_run:
  "transact_users (update_user_me sec e rnd u p) ac =
     (case sec_email sec (user_email u) of
        None \<Rightarrow> (Inl ValueError, ac)
      | Some own \<Rightarrow>
          if email_of_other e (user_id u) (updated_email own p) ac then (Inl (HttpException 409), ac)
          else (case updated_hash sec rnd p of
            Inl f \<Rightarrow> (Inl f, ac)
          | Inr h \<Rightarrow>
              (let ac' = editing e (user_id u) (updated_email own p) h (pi_full_name p) ac
               in if users_ok e (ac_users ac') then (Inr (user_id u), ac') else (Inl DatabaseError, ac))))"
  by (auto simp: transact_users_def update_user_me_def and_do_def check_op_run hash_or_raise_run commit_users_run updated_hash_def
      updated_email_def editing_def Let_def split: option.splits)

section \<open>Runs of calls\<close>

datatype account_call = PostUser "string option" json | PutUserMe "string option" json

fun run_account_call :: "security \<Rightarrow> codec \<Rightarrow> server \<Rightarrow> random_source \<Rightarrow> account_call \<Rightarrow> accounts \<Rightarrow> accounts" where
  "run_account_call sec cd e rnd (PostUser header body) ac = snd (post_user sec cd e rnd header body ac)"
| "run_account_call sec cd e rnd (PutUserMe header body) ac = snd (put_user_me sec e rnd header body ac)"

inductive accounts_later :: "security \<Rightarrow> codec \<Rightarrow> accounts \<Rightarrow> accounts \<Rightarrow> bool" for sec cd ac where
  start: "accounts_later sec cd ac ac"
| call: "accounts_later sec cd ac ac' \<Longrightarrow> accounts_later sec cd ac (run_account_call sec cd e rnd c ac')"

inductive account_write :: "accounts \<Rightarrow> accounts \<Rightarrow> bool" for ac where
  nothing: "account_write ac ac"
| added: "users_ok e (ac_users (adding e rnd ui h ac)) \<Longrightarrow> account_write ac (adding e rnd ui h ac)"
| edited: "users_ok e (ac_users (editing e i m h n ac)) \<Longrightarrow> account_write ac (editing e i m h n ac)"

lemma respond_users_snd: "snd (respond_users m out ac) = snd (transact_users m ac)"
  by (simp add: respond_users_def split: prod.split sum.split)

lemma authenticated_snd: "(\<And>u. account_write ac (snd (f u))) \<Longrightarrow> account_write ac (snd (authenticated sec e header ac f))"
  by (simp add: authenticated_def account_write.nothing split: sum.split)

lemma run_account_call_write: "account_write ac (run_account_call sec cd e rnd c ac)"
proof (cases c)
  case (PostUser header body)
  have "account_write ac (snd (transact_users (create_user sec e rnd u ui) ac))" for u ui
    by (auto simp: create_user_run account_write.nothing intro: account_write.added split: option.split)
  then show ?thesis
    unfolding PostUser run_account_call.simps post_user_def
    by (intro authenticated_snd) (auto simp: respond_users_snd account_write.nothing split: option.split)
next
  case (PutUserMe header body)
  have "account_write ac (snd (transact_users (update_user_me sec e rnd u p) ac))" for u p
    by (auto simp: update_user_run Let_def account_write.nothing intro: account_write.edited split: option.split sum.split)
  then show ?thesis
    unfolding PutUserMe run_account_call.simps put_user_me_def
    by (intro authenticated_snd) (auto simp: respond_users_snd account_write.nothing split: option.split)
qed

text \<open>The accounts of a later table: the earlier ones, in order, and new ones without roles.\<close>

definition account_history :: "account_row list \<Rightarrow> account_row list \<Rightarrow> bool" where
  "account_history us us' \<longleftrightarrow> (\<exists>xs ys. us' = xs @ ys \<and> list_all2 same_account us xs \<and> list_all (\<lambda>u. user_roles u = []) ys)"

lemma account_history_refl: "account_history us us"
  unfolding account_history_def by (intro exI [of _ us] exI [of _ "[]"]) (simp add: list.rel_refl)

lemma account_history_trans:
  assumes "account_history us vs" and "account_history vs ws"
  shows "account_history us ws"
proof -
  obtain xs ys where v: "vs = xs @ ys" "list_all2 same_account us xs" "list_all (\<lambda>u. user_roles u = []) ys"
    using assms(1) by (auto simp: account_history_def)
  obtain xs' ys' where w: "ws = xs' @ ys'" "list_all2 same_account vs xs'" "list_all (\<lambda>u. user_roles u = []) ys'"
    using assms(2) by (auto simp: account_history_def)
  obtain as bs where x: "xs' = as @ bs" "list_all2 same_account xs as" "list_all2 same_account ys bs"
    using w(2) by (auto simp: v(1) list_all2_append1)
  have "list_all2 same_account us as" using list_all2_trans [OF same_account_trans v(2) x(2)] .
  moreover have "list_all (\<lambda>u. user_roles u = []) bs"
    using x(3) v(3) by (induction rule: list_all2_induct) (auto simp: same_account_def)
  ultimately show ?thesis using w(1,3) x(1) unfolding account_history_def by (intro exI [of _ as] exI [of _ "bs @ ys'"]) simp
qed

lemma account_write_history: "account_write ac ac' \<Longrightarrow> account_history (ac_users ac) (ac_users ac')"
proof (induction rule: account_write.induct)
  case (added e rnd ui h)
  show ?case
    unfolding account_history_def adding_def
    by (intro exI [of _ "ac_users ac"] exI [of _ "[new_account e rnd ui h]"]) (simp add: list.rel_refl new_account_def)
next
  case (edited e i m h n)
  show ?case
    unfolding account_history_def editing_def update_row_def
    by (intro exI [of _ "ac_users (editing e i m h n ac)"] exI [of _ "[]"])
      (simp add: editing_def update_row_def list_all2_conv_all_nth)
qed (rule account_history_refl)

lemma account_write_ok: "account_write ac ac' \<Longrightarrow> accounts_ok (ac_users ac) \<Longrightarrow> accounts_ok (ac_users ac')"
proof (induction rule: account_write.induct)
  case (added e rnd ui h)
  have "unat (rnd_uuid rnd) < 2 ^ 128" using unsigned_less [of "rnd_uuid rnd"] by simp
  then have "canonical_uuid (user_id (new_account e rnd ui h))" by (simp add: new_account_def uuid_text_canonical)
  with added show ?case by (simp add: accounts_ok_def users_ok_def adding_def)
next
  case (edited e i m h n)
  then show ?case by (auto simp: accounts_ok_def users_ok_def editing_def list_all_iff set_update_row)
qed

lemma account_write_tables: "account_write ac ac' \<Longrightarrow> ac_roles ac' = ac_roles ac \<and> ac_permissions ac' = ac_permissions ac"
  by (induction rule: account_write.induct) (simp_all add: adding_def editing_def)

lemma accounts_later_facts:
  assumes "accounts_later sec cd ac ac'" and "accounts_ok (ac_users ac)"
  shows "accounts_ok (ac_users ac') \<and> account_history (ac_users ac) (ac_users ac') \<and> ac_roles ac' = ac_roles ac \<and>
    ac_permissions ac' = ac_permissions ac"
  using assms
proof (induction rule: accounts_later.induct)
  case (call ac' e rnd c)
  note w = run_account_call_write [of ac' sec cd e rnd c]
  show ?case
    using call.IH [OF call.prems] account_write_ok [OF w] account_write_tables [OF w]
      account_history_trans [OF _ account_write_history [OF w], of "ac_users ac"] by auto
qed (simp add: account_history_refl)

lemma account_history_roles:
  "account_history us us' \<Longrightarrow> map user_id (filter (holds_role n) us') = map user_id (filter (holds_role n) us)"
proof -
  assume "account_history us us'"
  then obtain xs ys where u: "us' = xs @ ys" "list_all2 same_account us xs" "list_all (\<lambda>u. user_roles u = []) ys"
    by (auto simp: account_history_def)
  have "filter (holds_role n) ys = []" using u(3) by (auto simp: list_all_iff filter_empty_conv holds_role_none)
  moreover have "map user_id (filter (holds_role n) xs) = map user_id (filter (holds_role n) us)"
    using u(2)
  proof (induction rule: list_all2_induct)
    case (Cons u us v vs)
    then have "user_id v = user_id u" "holds_role n v = holds_role n u" by (simp_all add: same_account_def holds_role_def has_role_def)
    with Cons show ?case by simp
  qed simp
  ultimately show ?thesis using u(1) by simp
qed

section \<open>Login and sessions\<close>

lemma query_first_email:
  "accounts_ok us \<Longrightarrow> u \<in> set us \<Longrightarrow> query_first e user_id (\<lambda>v. user_email v = user_email u) us = Some u"
  by (rule query_first_unique) (auto simp: accounts_ok_def distinct_map dest: inj_onD)

lemma login_Success:
  assumes "login_access_token sec e username password ac = Success t"
  obtains u where "u \<in> set (ac_users ac)" "user_email u = username" "user_active u" "verify_password sec password (user_password_hash u)"
    "tok_access_token t = sec_encode sec (user_id u) (srv_now e + 60 * sec_minutes sec)" "tok_role t = Some (primary_role u)"
  using assms query_first_Some [of e user_id "\<lambda>u. user_email u = username" "ac_users ac"]
  by (auto simp: login_access_token_def create_access_token_def split: option.splits if_splits)

text \<open>A token of an active account authenticates exactly until it expires.\<close>

lemma token_user:
  assumes "bearer_ok sec" "token_ok sec" "accounts_ok us" "u \<in> set us" "user_active u"
  shows "get_current_user sec now (Some (''Bearer '' @ sec_encode sec (user_id u) expiry)) us =
    (if now \<le> expiry then Inr u else Inl (HttpException 401))"
proof -
  have "parse_uuid (user_id u) = Some (user_id u)" using assms(3,4) by (simp add: accounts_ok_def list_all_iff canonical_uuid_def)
  with assms show ?thesis by (simp add: get_current_user_def bearer_ok_def token_ok_def accounts_ok_row)
qed

lemma account_history_row:
  assumes "account_history us us'" and "u \<in> set us"
  shows "\<exists>v \<in> set us'. same_account u v"
proof -
  obtain xs ys where u: "us' = xs @ ys" "list_all2 same_account us xs" using assms(1) by (auto simp: account_history_def)
  obtain i where "i < length us" "us ! i = u" using assms(2) by (auto simp: in_set_conv_nth)
  with u show ?thesis by (intro bexI [of _ "xs ! i"]) (auto simp: list_all2_conv_all_nth)
qed

text \<open>
  C15. The accounts over every run of calls to the API: identifiers, addresses and user names stay
  distinct; accounts are only added, and an account keeps its identifier, user name, activity and roles;
  and for every role the accounts that hold it are the same as before, so no call makes anyone an
  administrator.
\<close>

theorem accounts_invariant:
  assumes "accounts_ok (ac_users ac)" and "accounts_later sec cd ac ac'"
  shows "distinct (map user_id (ac_users ac')) \<and> distinct (map user_email (ac_users ac')) \<and> distinct (map user_username (ac_users ac')) \<and>
    prefix (map user_id (ac_users ac)) (map user_id (ac_users ac')) \<and>
    (\<forall>u \<in> set (ac_users ac). \<exists>v \<in> set (ac_users ac'). same_account u v) \<and>
    (\<forall>n. map user_id (filter (holds_role n) (ac_users ac')) = map user_id (filter (holds_role n) (ac_users ac)))"
proof -
  have ok: "accounts_ok (ac_users ac')" and h: "account_history (ac_users ac) (ac_users ac')"
    using accounts_later_facts [OF assms(2,1)] by simp_all
  obtain xs ys where "ac_users ac' = xs @ ys" "list_all2 same_account (ac_users ac) xs" using h by (auto simp: account_history_def)
  moreover from this have "map user_id xs = map user_id (ac_users ac)"
    by (auto simp: list_all2_conv_all_nth same_account_def intro: nth_equalityI)
  ultimately have "prefix (map user_id (ac_users ac)) (map user_id (ac_users ac'))" by simp
  then show ?thesis using ok account_history_roles [OF h] account_history_row [OF h] by (auto simp: accounts_ok_def)
qed

lemma session_of_login:
  assumes "accounts_ok (ac_users ac)" and "bearer_ok sec" and "token_ok sec"
    and "login_access_token sec e username password ac = Success t" and "accounts_later sec cd ac ac'"
  obtains u v where "u \<in> set (ac_users ac)" "user_email u = username" "verify_password sec password (user_password_hash u)"
    "tok_role t = Some (primary_role u)" "v \<in> set (ac_users ac')" "same_account u v"
    "\<And>now. get_current_user sec now (Some (''Bearer '' @ tok_access_token t)) (ac_users ac') =
      (if now \<le> srv_now e + 60 * sec_minutes sec then Inr v else Inl (HttpException 401))"
proof -
  obtain u where u: "u \<in> set (ac_users ac)" "user_email u = username" "user_active u" "verify_password sec password (user_password_hash u)"
    "tok_access_token t = sec_encode sec (user_id u) (srv_now e + 60 * sec_minutes sec)" "tok_role t = Some (primary_role u)"
    using login_Success [OF assms(4)] .
  have ok: "accounts_ok (ac_users ac')" and h: "account_history (ac_users ac) (ac_users ac')"
    using accounts_later_facts [OF assms(5,1)] by simp_all
  obtain v where v: "v \<in> set (ac_users ac')" "same_account u v" using account_history_row [OF h u(1)] by blast
  have "user_active v" "user_id u = user_id v" using v(2) u(3) by (simp_all add: same_account_def)
  with token_user [OF assms(2,3) ok v(1)] u v that show thesis by metis
qed

text \<open>
  C16. A successful login is one of an active account with that address and a password that its hash
  accepts, and the token names the first role. Whatever is called afterwards, the token authenticates its
  account, with the same roles, exactly until it expires; then every call is answered with a 401.
\<close>

theorem login_session:
  assumes "accounts_ok (ac_users ac)" and "bearer_ok sec" and "token_ok sec"
    and "login_access_token sec e username password ac = Success t" and "accounts_later sec cd ac ac'"
  shows "\<exists>u v. u \<in> set (ac_users ac) \<and> user_email u = username \<and> verify_password sec password (user_password_hash u) \<and>
    tok_role t = Some (primary_role u) \<and> v \<in> set (ac_users ac') \<and> same_account u v \<and>
    (\<forall>now. get_current_user sec now (Some (''Bearer '' @ tok_access_token t)) (ac_users ac') =
      (if now \<le> srv_now e + 60 * sec_minutes sec then Inr v else Inl (HttpException 401)))"
  using session_of_login [OF assms] by metis

text \<open>
  C17. An account that an administrator creates: its password, up to the 72 bytes that bcrypt reads,
  logs in under the normalised address, as a user without roles; another spelling of the address that no
  account has does not log in; and with a bcrypt that refuses longer passwords, one of more than 72 bytes
  never does, although the creation hashed its first 72.
\<close>

theorem created_account_login:
  assumes "accounts_ok (ac_users ac)" and "password_ok sec" and "UserCreate sec cd body = Some ui"
    and "post_user sec cd e rnd header body ac = (Success out, ac')"
  shows "email_taken (ui_email ui) ac' \<and> \<not> email_taken (ui_email ui) ac \<and>
    (length (ui_password ui) \<le> 72 \<and> ui_active ui \<longrightarrow>
      (\<exists>t. login_access_token sec e' (ui_email ui) (ui_password ui) ac' = Success t \<and> tok_role t = Some ''user'')) \<and>
    (m \<noteq> ui_email ui \<and> \<not> email_taken m ac \<longrightarrow> login_access_token sec e' m password ac' = Failed 400) \<and>
    ((\<forall>h. sec_checkpw sec (ui_password ui) h = None) \<longrightarrow> login_access_token sec e' (ui_email ui) (ui_password ui) ac' = Failed 400)"
proof -
  obtain u where "respond_users (create_user sec e rnd u ui) (account_response (UserSchema sec)) ac = (Success out, ac')"
    using assms(3,4) by (auto simp: post_user_def authenticated_def split: sum.splits)
  then obtain h where h: "\<not> email_taken (ui_email ui) ac" "get_password_hash sec rnd (ui_password ui) = Some h"
    "users_ok e (ac_users (adding e rnd ui h ac))" "ac' = adding e rnd ui h ac"
    by (auto simp: respond_users_def create_user_run split: option.splits if_splits)
  have ok: "accounts_ok (ac_users ac')" using account_write_ok [OF account_write.added [OF h(3)] assms(1)] h(4) by simp
  let ?n = "new_account e rnd ui h"
  have n: "?n \<in> set (ac_users ac')" "user_email ?n = ui_email ui" "user_active ?n = ui_active ui" "user_password_hash ?n = h" "user_roles ?n = []"
    by (simp_all add: h(4) adding_def new_account_def)
  have q: "query_first e' user_id (\<lambda>v. user_email v = ui_email ui) (ac_users ac') = Some ?n"
    using query_first_email [OF ok n(1)] by (simp add: n(2))
  have v: "verify_password sec (ui_password ui) h" if "length (ui_password ui) \<le> 72"
    using assms(2) h(2) that by (auto simp: get_password_hash_def password_ok_def verify_password_def)
  have l: "login_access_token sec e' (ui_email ui) (ui_password ui) ac' =
      (if \<not> verify_password sec (ui_password ui) h then Failed 400 else if \<not> ui_active ui then Failed 400
       else Success \<lparr>tok_access_token = create_access_token sec (srv_now e') (user_id ?n) (Some (sec_minutes sec)),
         tok_token_type = ''bearer'', tok_role = Some ''user''\<rparr>)"
    by (simp add: login_access_token_def q n primary_role_def)
  have m: "login_access_token sec e' m password ac' = Failed 400" if "m \<noteq> ui_email ui" "\<not> email_taken m ac"
  proof -
    have "query_first e' user_id (\<lambda>v. user_email v = m) (ac_users ac') = None"
      using that n(2) by (auto simp: query_first_None h(4) adding_def email_taken_def list_ex_iff)
    then show ?thesis by (simp add: login_access_token_def)
  qed
  have "email_taken (ui_email ui) ac'" using n(1,2) by (auto simp: email_taken_def list_ex_iff)
  with h(1) v m show ?thesis by (auto simp: l verify_password_def)
qed

section \<open>Profile updates\<close>

lemma email_of_other_iff:
  assumes "distinct (map user_email (ac_users ac))"
  shows "email_of_other e i m ac \<longleftrightarrow> (\<exists>v \<in> set (ac_users ac). user_id v \<noteq> i \<and> user_email v = m)"
proof (cases "query_first e user_id (\<lambda>u. user_email u = m) (ac_users ac)")
  case None
  moreover from this have "\<forall>r \<in> set (ac_users ac). user_email r \<noteq> m" by (simp add: query_first_None)
  ultimately show ?thesis by (simp add: email_of_other_def)
next
  case (Some u)
  have "v = u" if "v \<in> set (ac_users ac)" "user_email v = m" for v
    using assms that query_first_Some [OF Some] by (auto simp: distinct_map dest: inj_onD)
  then show ?thesis using Some query_first_Some [OF Some] by (auto simp: email_of_other_def)
qed

lemma update_row_const:
  "distinct (map key rows) \<Longrightarrow> r \<in> set rows \<Longrightarrow> update_row key (key r) f rows = update_row key (key r) (\<lambda>_. f r) rows"
  unfolding update_row_def by (rule map_cong) (auto simp: distinct_map dest: inj_onD)

lemma same_fieldI: "v = (u :: account_row) \<Longrightarrow> user_email v = user_email u \<and> user_full_name v = user_full_name u \<and>
    user_password_hash v = user_password_hash u"
  by simp

lemma edit_account_fields [simp]:
  "user_email (edit_account now m h n u) = m"
  "user_username (edit_account now m h n u) = user_username u"
  "user_full_name (edit_account now m h n u) = (case n of None \<Rightarrow> user_full_name u | Some x \<Rightarrow> x)"
  "user_password_hash (edit_account now m h n u) = (case h of None \<Rightarrow> user_password_hash u | Some x \<Rightarrow> x)"
  "user_active (edit_account now m h n u) = user_active u"
  "user_roles (edit_account now m h n u) = user_roles u"
  by (auto simp: edit_account_def Let_def dest: same_fieldI)

lemma distinct_emails_edit:
  assumes "distinct (map user_id us)" "distinct (map user_email us)" "\<forall>v \<in> set us. user_id v \<noteq> i \<longrightarrow> user_email v \<noteq> m"
  shows "distinct (map user_email (update_row user_id i (edit_account now m h n) us))"
  using assms
proof (induction us)
  case (Cons u us)
  have "m \<noteq> user_email x" if "user_id u = i" "x \<in> set us" for x
  proof -
    have "user_id x \<noteq> i" using Cons.prems(1) that by (auto simp: image_iff)
    then show ?thesis using Cons.prems(3) that(2) by (metis list.set_intros(2))
  qed
  moreover have "user_email u \<noteq> m" if "user_id u \<noteq> i" using Cons.prems(3) that by simp
  ultimately show ?case using Cons by (auto simp: update_row_def image_iff)
qed (simp add: update_row_def)

lemma users_ok_edit:
  assumes "users_ok e us" "u \<in> set us" "\<forall>v \<in> set us. user_id v \<noteq> user_id u \<longrightarrow> user_email v \<noteq> m"
  shows "users_ok e (update_row user_id (user_id u) (edit_account now m h n) us) \<longleftrightarrow>
    (srv_strict e \<longrightarrow> account_fits (edit_account now m h n u))"
proof -
  have d: "distinct (map user_id us)" "distinct (map user_email us)" using assms(1) by (simp_all add: users_ok_def)
  have "v = u" if "v \<in> set us" "user_id v = user_id u" for v
    using d(1) assms(2) that by (auto simp: distinct_map dest: inj_onD)
  then have "list_all account_fits (update_row user_id (user_id u) (edit_account now m h n) us) \<longleftrightarrow> account_fits (edit_account now m h n u)"
    if "srv_strict e"
    using assms(1,2) that by (auto simp: users_ok_def list_all_iff set_update_row)
  then show ?thesis
    using assms(1) distinct_emails_edit [OF d assms(3)] by (auto simp: users_ok_def)
qed

lemma profile_update_run:
  assumes "users_ok e (ac_users ac)" and "get_current_user sec (srv_now e) header (ac_users ac) = Inr u"
    and "profile_body sec body = Some p" and "sec_email sec (user_email u) = Some own"
  shows "put_user_me sec e rnd header body ac =
    (if \<exists>v \<in> set (ac_users ac). user_id v \<noteq> user_id u \<and> user_email v = updated_email own p then (Failed 409, ac)
     else case updated_hash sec rnd p of
       Inl f \<Rightarrow> (Failed 500, ac)
     | Inr h \<Rightarrow> let v = edit_account (srv_now e) (updated_email own p) h (pi_full_name p) u
         in if srv_strict e \<and> \<not> account_fits v then (Failed 500, ac)
            else (model_response (UserSchema sec v), ac\<lparr>ac_users := update_row user_id (user_id u) (\<lambda>_. v) (ac_users ac)\<rparr>))"
proof -
  let ?m = "updated_email own p"
  have u: "u \<in> set (ac_users ac)" using assms(2) by (auto simp: get_current_user_def split: option.splits if_splits dest!: get_row_Some)
  have d: "distinct (map user_id (ac_users ac))" "distinct (map user_email (ac_users ac))" using assms(1) by (simp_all add: users_ok_def)
  have put: "put_user_me sec e rnd header body ac =
      respond_users (update_user_me sec e rnd u p) (account_response (UserSchema sec)) ac"
    using assms(2,3) by (simp add: put_user_me_def authenticated_def)
  show ?thesis
  proof (cases "\<exists>v \<in> set (ac_users ac). user_id v \<noteq> user_id u \<and> user_email v = ?m")
    case True
    then show ?thesis using email_of_other_iff [OF d(2)] by (simp add: put respond_users_def update_user_run assms(4) http_status_def)
  next
    case False
    have f: "f = ValueError" if "updated_hash sec rnd p = Inl f" for f
      using that by (auto simp: updated_hash_def split: option.splits)
    have e: "editing e (user_id u) ?m h n ac = ac\<lparr>ac_users := update_row user_id (user_id u) (\<lambda>_. edit_account (srv_now e) ?m h n u) (ac_users ac)\<rparr>" for h n
      unfolding editing_def by (subst update_row_const [OF d(1) u]) simp
    have ok: "users_ok e (ac_users (editing e (user_id u) ?m h n ac)) \<longleftrightarrow> (srv_strict e \<longrightarrow> account_fits (edit_account (srv_now e) ?m h n u))" for h n
      using users_ok_edit [OF assms(1) u, of ?m] False by (auto simp: editing_def)
    have r: "account_response g (editing e (user_id u) ?m h n ac) (user_id u) = g (edit_account (srv_now e) ?m h n u)" for h n g
      using get_row_unique [OF d(1) u] by (simp add: account_response_def editing_def get_row_update)
    show ?thesis
      using False email_of_other_iff [OF d(2)] f
      by (auto simp: put respond_users_def update_user_run assms(4) http_status_def ok r Let_def e [symmetric] split: sum.split)
  qed
qed

lemma get_current_user_edit:
  assumes "distinct (map user_id us)" and "get_current_user sec now header us = Inr a"
  shows "get_current_user sec now header (update_row user_id i (edit_account t m h n) us) =
    Inr (if user_id a = i then edit_account t m h n a else a)"
proof -
  obtain tok sub j where j: "Option.bind header (sec_bearer sec) = Some tok" "sec_decode sec now tok = Some (Some sub)"
      "parse_uuid sub = Some j" "get_row user_id j us = Some a" "user_active a"
    using assms(2) by (auto simp: get_current_user_def split: option.splits if_splits)
  then have "get_row user_id j (update_row user_id i (edit_account t m h n) us) =
      Some (if user_id a = i then edit_account t m h n a else a)" by (simp add: get_row_update)
  with j show ?thesis by (simp add: get_current_user_def)
qed

lemma current_user_row: "get_current_user sec now header us = Inr u \<Longrightarrow> u \<in> set us"
  by (auto simp: get_current_user_def split: option.splits if_splits dest!: get_row_Some)

lemma those_None: "None \<in> set xs \<Longrightarrow> those xs = None"
  by (induction xs) (auto split: option.split)

definition empty_name :: json where
  "empty_name = JObj [(''full_name'', JStr '''')]"

text \<open>
  C18. Updating the own profile, on every branch: a body that fails validation aside, it is refused with a
  409 exactly when another account has the new address, fails without a change when the password cannot be
  hashed or PostgreSQL finds a text too long, and otherwise replaces this one account's address, name and
  password hash by those of the body, each where the body has it and whatever its length, and its time
  stamp when one of them changes, before it answers with the account; nothing else of it changes.
\<close>

theorem profile_update:
  assumes "users_ok e (ac_users ac)" and "get_current_user sec (srv_now e) header (ac_users ac) = Inr u"
    and "profile_body sec body = Some p" and "sec_email sec (user_email u) = Some own"
  shows "put_user_me sec e rnd header body ac =
    (let address = (case pi_email p of None \<Rightarrow> own | Some m \<Rightarrow> m) in
     if \<exists>v \<in> set (ac_users ac). user_id v \<noteq> user_id u \<and> user_email v = address then (Failed 409, ac)
     else case (case pi_password p of None \<Rightarrow> Some (user_password_hash u) | Some q \<Rightarrow> get_password_hash sec rnd q) of
       None \<Rightarrow> (Failed 500, ac)
     | Some h \<Rightarrow>
         let v = u\<lparr>user_email := address, user_password_hash := h,
               user_full_name := (case pi_full_name p of None \<Rightarrow> user_full_name u | Some n \<Rightarrow> n)\<rparr>;
             w = (if v = u then u else v\<lparr>user_updated_at := srv_now e\<rparr>)
         in if srv_strict e \<and> \<not> account_fits w then (Failed 500, ac)
            else (model_response (UserSchema sec w), ac\<lparr>ac_users := update_row user_id (user_id u) (\<lambda>_. w) (ac_users ac)\<rparr>))"
  unfolding profile_update_run [OF assms] updated_email_def updated_hash_def edit_account_def Let_def
  by (intro if_cong refl; cases "pi_password p") (auto split: option.split)

text \<open>
  C20. An empty name in a profile update, which the endpoint accepts, is stored before the response model
  refuses it: afterwards the account's own profile and, for every administrator, every page of the user
  list with this account on it are answered with a server error.
\<close>

theorem empty_name_breaks_listing:
  assumes "users_ok e (ac_users ac)" and "get_current_user sec (srv_now e) header (ac_users ac) = Inr u"
    and "sec_email sec (user_email u) = Some (user_email u)"
    and "get_current_user sec (srv_now e') header' (ac_users ac) = Inr a" and "is_administrator a"
  shows "\<exists>ac' v. put_user_me sec e rnd header empty_name ac = (Failed 500, ac') \<and>
    map user_id (ac_users ac') = map user_id (ac_users ac) \<and>
    v \<in> set (ac_users ac') \<and> user_id v = user_id u \<and> user_full_name v = '''' \<and>
    read_user_me sec e header ac' = (Failed 500, ac') \<and>
    (\<forall>skip limit. v \<in> set (take limit (drop skip (query e' user_id (\<lambda>_. True) (ac_users ac')))) \<longrightarrow>
      read_users sec e' skip limit header' ac' = (Failed 500, ac'))"
proof -
  let ?v = "edit_account (srv_now e) (user_email u) None (Some '''') u"
  let ?us = "update_row user_id (user_id u) (edit_account (srv_now e) (user_email u) None (Some '''')) (ac_users ac)"
  let ?ac' = "ac\<lparr>ac_users := ?us\<rparr>"
  note u = current_user_row [OF assms(2)]
  have d: "distinct (map user_id (ac_users ac))" "distinct (map user_email (ac_users ac))" using assms(1) by (simp_all add: users_ok_def)
  have p: "profile_body sec empty_name = Some (no_profile\<lparr>pi_full_name := Some ''''\<rparr>)"
    by (simp add: profile_body_def empty_name_def optional_def read_text_def no_profile_def)
  have own: "\<not> (\<exists>v \<in> set (ac_users ac). user_id v \<noteq> user_id u \<and> user_email v = user_email u)"
    using d(2) u by (auto simp: distinct_map dest: inj_onD)
  have fits: "\<not> (srv_strict e \<and> \<not> account_fits ?v)" using assms(1) u by (auto simp: users_ok_def account_fits_def list_all_iff)
  have s: "UserSchema sec ?v = None" by (simp add: UserSchema_def split: option.split)
  have put: "put_user_me sec e rnd header empty_name ac = (Failed 500, ?ac')"
    using own fits by (auto simp: profile_update_run [OF assms(1,2) p assms(3)] updated_email_def updated_hash_def no_profile_def Let_def
        model_response_def s update_row_const [OF d(1) u, of "edit_account (srv_now e) (user_email u) None (Some '''')"])
  have me: "read_user_me sec e header ?ac' = (Failed 500, ?ac')"
    by (simp add: read_user_me_def authenticated_def get_current_user_edit [OF d(1) assms(2)] UserWithRolesSchema_def s model_response_def)
  let ?b = "if user_id a = user_id u then edit_account (srv_now e) (user_email u) None (Some '''') a else a"
  have "is_administrator ?b" using assms(5) is_administrator_roles [of ?b a] by simp
  then have r: "check_role (as_user ?b) ''admin'' = return_op ()"
    by (auto simp: check_role_run is_administrator_def holds_role_def return_op_def fun_eq_iff)
  have list: "read_users sec e' skip limit header' ?ac' = (Failed 500, ?ac')"
    if "?v \<in> set (take limit (drop skip (query e' user_id (\<lambda>_. True) ?us)))" for skip limit
  proof -
    have "those (map (UserSchema sec) (take limit (drop skip (query e' user_id (\<lambda>_. True) ?us)))) = None"
      using that by (intro those_None) (auto simp: s [symmetric] image_iff intro: bexI [of _ ?v])
    then show ?thesis
      by (simp add: read_users_def authenticated_def get_current_user_edit [OF d(1) assms(4)] r respond_users_def transact_users_def model_response_def)
  qed
  have "?v \<in> set ?us" using u by (auto simp: set_update_row)
  then have v: "?v \<in> set (ac_users ?ac')" by simp
  have n: "user_full_name ?v = ''''" "user_id ?v = user_id u" "map user_id (ac_users ?ac') = map user_id (ac_users ac)"
    by (simp_all add: update_row_def)
  show ?thesis
    using put me list v n by (intro exI [of _ ?ac'] exI [of _ ?v]) simp
qed

section \<open>An instance\<close>

text \<open>A concrete authenticator with the laws: hashes and tokens in the clear.\<close>

definition sample_security :: security where
  "sample_security = \<lparr>
     sec_bearer = (\<lambda>h. if take 7 h = ''Bearer '' then Some (drop 7 h) else None),
     sec_email = (\<lambda>s. if List.member s (CHR ''@'')
       then Some (takeWhile (\<lambda>c. c \<noteq> CHR ''@'') s @ to_lower (dropWhile (\<lambda>c. c \<noteq> CHR ''@'') s)) else None),
     sec_hashpw = (\<lambda>p salt. Some (p @ CHR ''$'' # salt)),
     sec_checkpw = (\<lambda>p h. Some (take (Suc (length p)) h = p @ ''$'')),
     sec_encode = (\<lambda>sub t. (if t < 0 then ''-'' else ''+'') @ replicate (nat \<bar>t\<bar>) (CHR ''1'') @ CHR ''.'' # sub),
     sec_decode = (\<lambda>now token.
       let k = length (takeWhile (\<lambda>c. c = CHR ''1'') (tl token)); t = (if hd token = CHR ''-'' then - int k else int k)
       in if now \<le> t then Some (Some (drop (k + 2) token)) else None),
     sec_minutes = 30\<rparr>"

lemma sample_laws: "bearer_ok sample_security" "token_ok sample_security" "password_ok sample_security"
proof -
  have t: "takeWhile (\<lambda>c. c = CHR ''1'') (replicate k (CHR ''1'') @ CHR ''.'' # sub) = replicate k (CHR ''1'')" for k sub
    by (subst takeWhile_append2) auto
  have d: "drop (Suc k) (replicate k (CHR ''1'') @ CHR ''.'' # sub) = sub" for k sub by simp
  show "token_ok sample_security" by (auto simp: token_ok_def sample_security_def Let_def t d)
qed (auto simp: bearer_ok_def password_ok_def sample_security_def)

definition admin_account :: account_row where
  "admin_account = \<lparr>user_id = uuid_text 1, user_email = ''admin@example.com'', user_full_name = ''Default Admin'', user_active = True,
     user_roles = [\<lparr>role_row_id = uuid_text 7, role_row_name = ''Admin'', role_permissions = []\<rparr>], user_username = ''admin'',
     user_password_hash = ''admin123$s'', user_created_at = 0, user_updated_at = 0\<rparr>"

definition clerk_account :: account_row where
  "clerk_account = \<lparr>user_id = uuid_text 2, user_email = ''clerk@example.com'', user_full_name = ''Clerk'', user_active = True,
     user_roles = [], user_username = ''clerk'', user_password_hash = ''clerk123$s'', user_created_at = 0, user_updated_at = 0\<rparr>"

definition sample_accounts :: accounts where
  "sample_accounts = \<lparr>ac_users = [admin_account, clerk_account], ac_roles = user_roles admin_account, ac_permissions = []\<rparr>"

definition header_of :: "account_row \<Rightarrow> string option" where
  "header_of u = Some (''Bearer '' @ sec_encode sample_security (user_id u) 5000)"

definition plain_codec :: codec where
  "plain_codec = \<lparr>cd_int = (\<lambda>_. None), cd_bool = (\<lambda>_. None), cd_uuid = (\<lambda>_. None)\<rparr>"

definition new_user_body :: json where
  "new_user_body = JObj [(''email'', JStr ''Bob@EXAMPLE.com''), (''username'', JStr ''bob''), (''full_name'', JStr ''Bob''),
     (''password'', JStr ''password123'')]"

definition new_user_in :: account_in where
  "new_user_in = \<lparr>ui_email = ''Bob@example.com'', ui_username = ''bob'', ui_full_name = ''Bob'', ui_active = True, ui_password = ''password123''\<rparr>"

definition sample_random :: random_source where
  "sample_random = \<lparr>rnd_uuid = 3, rnd_salt = ''s''\<rparr>"

lemma new_user_read: "UserCreate sample_security plain_codec new_user_body = Some new_user_in"
  by code_simp

lemma sample_users [simp]: "ac_users sample_accounts = [admin_account, clerk_account]"
  by (simp add: sample_accounts_def)

lemma sample_accounts_ok: "accounts_ok (ac_users sample_accounts)" "users_ok (sample_server (\<lambda>m. True)) (ac_users sample_accounts)"
  by (simp_all add: accounts_ok_def users_ok_def admin_account_def clerk_account_def uuid_text_inject uuid_text_canonical account_fits_def)

lemma sample_signed_in:
  "u \<in> set (ac_users sample_accounts) \<Longrightarrow> get_current_user sample_security (srv_now (sample_server (\<lambda>m. True))) (header_of u) (ac_users sample_accounts) = Inr u"
  unfolding header_of_def
  by (subst token_user [OF sample_laws(1,2) sample_accounts_ok(1)]) (auto simp: admin_account_def clerk_account_def)

lemmas sample_authenticated = sample_signed_in [of admin_account, simplified] sample_signed_in [of clerk_account, simplified]

lemma sample_emails: "sec_email sample_security ''admin@example.com'' = Some ''admin@example.com''"
  "sec_email sample_security ''clerk@example.com'' = Some ''clerk@example.com''" "sec_email sample_security ''Bob@example.com'' = Some ''Bob@example.com''"
  by code_simp+

lemma admin_is_administrator: "is_administrator admin_account"
proof -
  have "to_lower ''Admin'' = ''admin''" by code_simp
  then show ?thesis by (simp add: is_administrator_def holds_role_def has_role_def admin_account_def)
qed

definition with_bob :: accounts where
  "with_bob = adding (sample_server (\<lambda>m. True)) sample_random new_user_in ''password123$s'' sample_accounts"

lemma sample_post_user: "\<exists>out. post_user sample_security plain_codec (sample_server (\<lambda>m. True)) sample_random (header_of admin_account) new_user_body
    sample_accounts = (Success out, with_bob)"
proof -
  let ?e = "sample_server (\<lambda>m. True)"
  let ?n = "new_account ?e sample_random new_user_in ''password123$s''"
  have h: "get_password_hash sample_security sample_random ''password123'' = Some ''password123$s''" by code_simp
  have t: "\<not> email_taken ''Bob@example.com'' sample_accounts" by (simp add: email_taken_def admin_account_def clerk_account_def)
  have ok: "users_ok ?e [admin_account, clerk_account, ?n]"
    by (simp add: users_ok_def admin_account_def clerk_account_def new_account_def new_user_in_def sample_random_def uuid_text_inject account_fits_def)
  have r: "transact_users (create_user sample_security ?e sample_random admin_account new_user_in) sample_accounts = (Inr (user_id ?n), with_bob)"
    using ok by (simp add: create_user_run admin_is_administrator t [folded new_user_in_def] h with_bob_def adding_def new_user_in_def t)
  have g: "get_row user_id (user_id ?n) (ac_users with_bob) = Some ?n"
    using ok by (intro get_row_unique) (auto simp: users_ok_def with_bob_def adding_def)
  have s: "\<exists>out. UserSchema sample_security ?n = Some out"
    by (simp add: UserSchema_def new_account_def new_user_in_def sample_emails)
  show ?thesis
    using s by (auto simp: post_user_def authenticated_def sample_authenticated new_user_read respond_users_def r account_response_def g model_response_def)
qed

section \<open>Witnesses\<close>

lemma later_bob: "accounts_later sample_security plain_codec sample_accounts with_bob"
proof -
  obtain out where "post_user sample_security plain_codec (sample_server (\<lambda>m. True)) sample_random (header_of admin_account) new_user_body
      sample_accounts = (Success out, with_bob)" using sample_post_user by blast
  then show ?thesis
    using accounts_later.call [OF accounts_later.start, of sample_security plain_codec sample_accounts "sample_server (\<lambda>m. True)"
      sample_random "PostUser (header_of admin_account) new_user_body"] by simp
qed

lemma accounts_invariant_witness:
  "accounts_later sample_security plain_codec sample_accounts with_bob \<and> length (ac_users with_bob) = 3 \<and>
   map user_id (filter (holds_role ''admin'') (ac_users with_bob)) = [uuid_text 1]"
proof -
  have "to_lower ''Admin'' = ''admin''" by code_simp
  then have "map user_id (filter (holds_role ''admin'') [admin_account, clerk_account]) = [uuid_text 1]"
    by (simp add: holds_role_def has_role_def admin_account_def clerk_account_def)
  then show ?thesis
    using accounts_invariant [OF sample_accounts_ok(1) later_bob] later_bob by (simp add: with_bob_def adding_def)
qed

lemma sample_login: "\<exists>t. login_access_token sample_security (sample_server (\<lambda>m. True)) ''admin@example.com'' ''admin123'' sample_accounts = Success t"
proof -
  have "query_first (sample_server (\<lambda>m. True)) user_id (\<lambda>v. user_email v = ''admin@example.com'') [admin_account, clerk_account] = Some admin_account"
    using query_first_email [OF sample_accounts_ok(1), of admin_account] by (simp add: admin_account_def)
  moreover have "verify_password sample_security ''admin123'' (user_password_hash admin_account)" by code_simp
  ultimately show ?thesis by (simp add: login_access_token_def) (simp add: admin_account_def)
qed

lemma login_session_witness:
  "\<exists>t v. login_access_token sample_security (sample_server (\<lambda>m. True)) ''admin@example.com'' ''admin123'' sample_accounts = Success t \<and>
     get_current_user sample_security 2800 (Some (''Bearer '' @ tok_access_token t)) (ac_users with_bob) = Inr v \<and>
     get_current_user sample_security 2801 (Some (''Bearer '' @ tok_access_token t)) (ac_users with_bob) = Inl (HttpException 401)"
proof -
  obtain t where t: "login_access_token sample_security (sample_server (\<lambda>m. True)) ''admin@example.com'' ''admin123'' sample_accounts = Success t"
    using sample_login by blast
  have "sec_minutes sample_security = 30" by (simp add: sample_security_def)
  with login_session [OF sample_accounts_ok(1) sample_laws(1,2) t later_bob] t show ?thesis by auto
qed

lemma created_account_login_witness:
  "(\<exists>t. login_access_token sample_security (sample_server (\<lambda>m. True)) ''Bob@example.com'' ''password123'' with_bob = Success t) \<and>
   login_access_token sample_security (sample_server (\<lambda>m. True)) ''Bob@EXAMPLE.com'' ''password123'' with_bob = Failed 400"
proof -
  obtain out where p: "post_user sample_security plain_codec (sample_server (\<lambda>m. True)) sample_random (header_of admin_account) new_user_body
      sample_accounts = (Success out, with_bob)" using sample_post_user by blast
  have "\<not> email_taken ''Bob@EXAMPLE.com'' sample_accounts" by (simp add: email_taken_def admin_account_def clerk_account_def)
  with created_account_login [OF sample_accounts_ok(1) sample_laws(3) new_user_read p, of "sample_server (\<lambda>m. True)" "''Bob@EXAMPLE.com''" "''password123''"]
  show ?thesis by (auto simp: new_user_in_def)
qed

lemma clerk_signed_in:
  "get_current_user sample_security (srv_now (sample_server (\<lambda>m. True))) (header_of clerk_account) (ac_users sample_accounts) = Inr clerk_account"
  "sec_email sample_security (user_email clerk_account) = Some ''clerk@example.com''"
  by (rule sample_signed_in, simp) (simp add: clerk_account_def sample_emails)

definition new_name_and_password :: json where
  "new_name_and_password = JObj [(''full_name'', JStr ''Cleo''), (''password'', JStr ''new'')]"

lemma profile_update_witness:
  "put_user_me sample_security (sample_server (\<lambda>m. True)) sample_random (header_of clerk_account)
     (JObj [(''email'', JStr ''admin@EXAMPLE.com'')]) sample_accounts = (Failed 409, sample_accounts) \<and>
   (\<exists>out ac'. put_user_me sample_security (sample_server (\<lambda>m. True)) sample_random (header_of clerk_account)
      new_name_and_password sample_accounts = (Success out, ac') \<and>
     map user_full_name (ac_users ac') = [''Default Admin'', ''Cleo''] \<and>
     map user_password_hash (ac_users ac') = [''admin123$s'', ''new$s''] \<and>
     map user_email (ac_users ac') = [''admin@example.com'', ''clerk@example.com''])"
proof -
  have p: "profile_body sample_security (JObj [(''email'', JStr ''admin@EXAMPLE.com'')]) = Some (no_profile\<lparr>pi_email := Some ''admin@example.com''\<rparr>)"
    "profile_body sample_security new_name_and_password = Some (no_profile\<lparr>pi_full_name := Some ''Cleo'', pi_password := Some ''new''\<rparr>)"
    by code_simp+
  have h: "get_password_hash sample_security sample_random ''new'' = Some ''new$s''" by code_simp
  have i: "user_id admin_account \<noteq> user_id clerk_account" by (simp add: admin_account_def clerk_account_def uuid_text_inject)
  note f = profile_update [OF sample_accounts_ok(2) clerk_signed_in(1) _ clerk_signed_in(2)]
  have "put_user_me sample_security (sample_server (\<lambda>m. True)) sample_random (header_of clerk_account)
      (JObj [(''email'', JStr ''admin@EXAMPLE.com'')]) sample_accounts = (Failed 409, sample_accounts)"
    using i by (subst f [OF p(1)]) (simp add: admin_account_def)
  moreover have "\<exists>out ac'. put_user_me sample_security (sample_server (\<lambda>m. True)) sample_random (header_of clerk_account)
      new_name_and_password sample_accounts = (Success out, ac') \<and>
     map user_full_name (ac_users ac') = [''Default Admin'', ''Cleo''] \<and>
     map user_password_hash (ac_users ac') = [''admin123$s'', ''new$s''] \<and>
     map user_email (ac_users ac') = [''admin@example.com'', ''clerk@example.com'']"
    using i by (subst f [OF p(2)]) (simp add: h no_profile_def Let_def, simp add: admin_account_def clerk_account_def account_fits_def
        model_response_def UserSchema_def sample_emails update_row_def)
  ultimately show ?thesis by blast
qed

lemma empty_name_breaks_listing_witness:
  "\<exists>ac'. put_user_me sample_security (sample_server (\<lambda>m. True)) sample_random (header_of clerk_account) empty_name sample_accounts =
      (Failed 500, ac') \<and>
    read_users sample_security (sample_server (\<lambda>m. True)) 0 2 (header_of admin_account) ac' = (Failed 500, ac')"
proof -
  let ?e = "sample_server (\<lambda>m. True)"
  have e: "sec_email sample_security (user_email clerk_account) = Some (user_email clerk_account)"
    by (simp add: clerk_account_def sample_emails)
  have a: "get_current_user sample_security (srv_now ?e) (header_of admin_account) (ac_users sample_accounts) = Inr admin_account"
    by (rule sample_signed_in) simp
  obtain ac' v where v: "put_user_me sample_security ?e sample_random (header_of clerk_account) empty_name sample_accounts = (Failed 500, ac')"
    "map user_id (ac_users ac') = map user_id (ac_users sample_accounts)" "v \<in> set (ac_users ac')"
    "\<And>skip limit. v \<in> set (take limit (drop skip (query ?e user_id (\<lambda>_. True) (ac_users ac')))) \<Longrightarrow>
      read_users sample_security ?e skip limit (header_of admin_account) ac' = (Failed 500, ac')"
    using empty_name_breaks_listing [OF sample_accounts_ok(2) clerk_signed_in(1) e a admin_is_administrator, of sample_random] by blast
  have l: "length (query ?e user_id (\<lambda>_. True) (ac_users ac')) = 2"
    using arg_cong [OF v(2), of length] by (simp add: query_def)
  have "v \<in> set (take 2 (drop 0 (query ?e user_id (\<lambda>_. True) (ac_users ac'))))"
    using v(3) l by simp
  with v(1,4) show ?thesis by blast
qed

end
