(* ===== verification/Notifications.thy ===== *)
theory Notifications
  imports AccountProperties
begin

text \<open>
  The mail side of the platform: the worker's tasks for the messages of the broker,
  \<open>app/tasks/notifications.py\<close>, and the notification service, \<open>app/services/notification.py\<close>. A mail is
  what the template receives; rendering and SMTP are a parameter that accepts or refuses it. A refusal
  is raised again, so it ends the task; the mails before it are sent.
\<close>

section \<open>The notification service\<close>

record mail =
  ml_to :: string
  ml_subject :: string
  ml_template :: string
  ml_workflow_name :: string
  ml_step_name :: string
  ml_request_id :: string
  ml_deadline :: int
  ml_action_url :: "string option"

record mailer =
  mlr_configured :: bool
  mlr_accepts :: "mail \<Rightarrow> bool"
  mlr_frontend_url :: string
  mlr_admin_emails :: "string list"

definition send_email :: "mailer \<Rightarrow> mail \<Rightarrow> (mail list, unit) session_op" where
  "send_email ml m = (\<lambda>sent.
     if \<not> mlr_configured ml then (Inr (), sent)
     else if mlr_accepts ml m then (Inr (), sent @ [m]) else (Inl SmtpError, sent))"

definition assigned_mail :: "mailer \<Rightarrow> string \<Rightarrow> string \<Rightarrow> string \<Rightarrow> int \<Rightarrow> string \<Rightarrow> mail" where
  "assigned_mail ml workflow_name step_name request_id deadline email =
     \<lparr>ml_to = email, ml_subject = ''Task Assignment: '' @ workflow_name, ml_template = ''task_assigned.html'',
      ml_workflow_name = workflow_name, ml_step_name = step_name, ml_request_id = request_id, ml_deadline = deadline,
      ml_action_url = Some (mlr_frontend_url ml @ ''/requests/'' @ request_id)\<rparr>"

definition breach_mail :: "string \<Rightarrow> string \<Rightarrow> string \<Rightarrow> int \<Rightarrow> string \<Rightarrow> mail" where
  "breach_mail workflow_name step_name request_id deadline email =
     \<lparr>ml_to = email, ml_subject = ''URGENT: SLA Breach - '' @ workflow_name, ml_template = ''sla_breach.html'',
      ml_workflow_name = workflow_name, ml_step_name = step_name, ml_request_id = request_id, ml_deadline = deadline,
      ml_action_url = None\<rparr>"

fun send_all :: "mailer \<Rightarrow> mail list \<Rightarrow> (mail list, unit) session_op" where
  "send_all ml [] = return_op ()"
| "send_all ml (m # ms) = and_do (send_email ml m) (\<lambda>_. send_all ml ms)"

definition notify_sla_breach :: "mailer \<Rightarrow> string list \<Rightarrow> string \<Rightarrow> string \<Rightarrow> string \<Rightarrow> int \<Rightarrow> (mail list, unit) session_op" where
  "notify_sla_breach ml emails workflow_name step_name request_id deadline =
     send_all ml (map (breach_mail workflow_name step_name request_id deadline) emails)"

section \<open>The tasks\<close>

text \<open>The users of a role, joined through \<open>user_roles\<close>; the ORM returns each of them once.\<close>

definition role_users :: "server \<Rightarrow> uuid \<Rightarrow> accounts \<Rightarrow> account_row list" where
  "role_users e r ac = query e user_id (\<lambda>u. List.member (map role_row_id (user_roles u)) r) (ac_users ac)"

definition assignee_emails :: "server \<Rightarrow> step_row \<Rightarrow> accounts \<Rightarrow> string list" where
  "assignee_emails e step_def ac = (case sd_required_role_id step_def of
     None \<Rightarrow> [] | Some r \<Rightarrow> map user_email (filter user_active (role_users e r ac)))"

text \<open>The result is the number of mails, nothing when there is nobody to notify.\<close>

definition notify_new_assignment :: "mailer \<Rightarrow> server \<Rightarrow> db \<Rightarrow> accounts \<Rightarrow> uuid \<Rightarrow> uuid \<Rightarrow> string \<Rightarrow> string \<Rightarrow> int \<Rightarrow>
    (mail list, nat option) session_op" where
  "notify_new_assignment ml e d ac step_id request_id workflow_name step_name deadline =
     (case get_row sd_id step_id (db_steps d) of
        None \<Rightarrow> return_op None
      | Some step_def \<Rightarrow>
          (let emails = assignee_emails e step_def ac
           in if emails = [] then return_op None
              else and_do (send_all ml (map (assigned_mail ml workflow_name step_name request_id deadline) emails))
                     (\<lambda>_. return_op (Some (length emails)))))"

definition run_task :: "mailer \<Rightarrow> server \<Rightarrow> db \<Rightarrow> accounts \<Rightarrow> message \<Rightarrow> (mail list, nat option) session_op" where
  "run_task ml e d ac msg = (case msg of
     NewAssignment step_id request_id workflow_name step_name deadline \<Rightarrow>
       notify_new_assignment ml e d ac step_id request_id workflow_name step_name deadline
   | SlaBreach x request_id workflow_name step_name deadline \<Rightarrow>
       and_do (notify_sla_breach ml (mlr_admin_emails ml) workflow_name step_name request_id deadline) (\<lambda>_. return_op None))"

section \<open>What is sent\<close>

text \<open>The mails of a task are sent up to the first that is refused.\<close>

lemma send_all_run:
  "mlr_configured ml \<Longrightarrow> send_all ml ms sent =
     (if list_all (mlr_accepts ml) ms then Inr () else Inl SmtpError, sent @ takeWhile (mlr_accepts ml) ms)"
  by (induction ms arbitrary: sent) (auto simp: and_do_def send_email_def)

lemma send_all_skipped: "\<not> mlr_configured ml \<Longrightarrow> send_all ml ms sent = (Inr (), sent)"
  by (induction ms) (auto simp: and_do_def send_email_def)

definition assignee :: "step_row \<Rightarrow> account_row \<Rightarrow> bool" where
  "assignee s u \<longleftrightarrow> user_active u \<and> (\<exists>r. sd_required_role_id s = Some r \<and> r \<in> set (user_role_ids (as_user u)))"

lemma set_assignees: "set (assignee_emails e s ac) = user_email ` {u \<in> set (ac_users ac). assignee s u}"
  by (cases "sd_required_role_id s") (auto simp: assignee_emails_def role_users_def user_role_ids_def assignee_def)

lemma assignee_allowed: "assignee s u \<Longrightarrow>
    step_allowed (as_user u) s = (is_admin (as_user u) \<or> in_opt (sd_required_permission_id s) (user_permission_ids (as_user u)))"
  by (auto simp: assignee_def step_allowed_def in_opt_def)

lemma distinct_assignees: "accounts_ok (ac_users ac) \<Longrightarrow> distinct (assignee_emails e s ac)"
proof -
  assume "accounts_ok (ac_users ac)"
  then have d: "distinct (ac_users ac)" "inj_on user_email (set (ac_users ac))"
    by (auto simp: accounts_ok_def distinct_map)
  show ?thesis
    unfolding assignee_emails_def role_users_def
    by (auto simp: distinct_map query_def d(1) split: option.split intro: inj_on_subset [OF d(2)])
qed

lemma assigned_mail_to [simp]: "ml_to (assigned_mail ml w s r t m) = m"
  by (simp add: assigned_mail_def)

text \<open>
  C21. Starting a request hands one assignment of its first step to the broker. With a mail server that takes
  every mail, the worker mails each active account that holds the step's role once and nobody else, with
  the link to the request; each of them is allowed to process the step, unless it also requires a
  permission that the account lacks; and for a step without a role it mails nobody, although everyone
  with the permission may process it.
\<close>

theorem assignment_mails:
  assumes "committed e d" and "start_workflow e w u data d = (Inr i, d')" and "accounts_ok (ac_users ac)"
    and "mlr_configured ml" and "\<forall>m. mlr_accepts ml m"
  shows "\<exists>s msg mails. opening_step e d w = Some s \<and> db_outbox d' = db_outbox d @ [msg] \<and> snd (run_task ml e' d' ac msg []) = mails \<and>
    distinct (map ml_to mails) \<and> (\<forall>m \<in> set mails. ml_action_url m = Some (mlr_frontend_url ml @ ''/requests/'' @ i)) \<and>
    set (map ml_to mails) = user_email ` {v \<in> set (ac_users ac). assignee s v} \<and>
    (\<forall>v. assignee s v \<longrightarrow>
      step_allowed (as_user v) s = (is_admin (as_user v) \<or> in_opt (sd_required_permission_id s) (user_permission_ids (as_user v)))) \<and>
    (sd_required_role_id s = None \<longrightarrow> mails = [])"
proof (rule start_workflow_Inr [OF assms(1,2)])
  fix wfl s
  assume s: "opening_step e d w = Some s" and i: "i = db_uuid d (db_drawn d)"
    and d': "d' = (started e d w u data s)\<lparr>db_outbox := db_outbox d @ [NewAssignment (sd_id s) i (wf_name wfl) (sd_name s) (step_deadline e s)]\<rparr>"
  let ?msg = "NewAssignment (sd_id s) i (wf_name wfl) (sd_name s) (step_deadline e s)"
  let ?mails = "map (assigned_mail ml (wf_name wfl) (sd_name s) i (step_deadline e s)) (assignee_emails e' s ac)"
  have m: "s \<in> set (db_steps d)" using query_first_Some [OF s [unfolded opening_step_def]] by simp
  have "distinct (map sd_id (db_steps d))" using assms(1) by (simp add: committed_def engine_ok_ids ids_ok_def [symmetric]) (simp add: committed_def engine_ok_def ids_ok_def)
  then have g: "get_row sd_id (sd_id s) (db_steps d') = Some s" using m by (simp add: d' started_def Let_def get_row_unique)
  have all: "list_all (mlr_accepts ml) ms" "takeWhile (mlr_accepts ml) ms = ms" for ms using assms(5) by (simp_all add: list_all_iff)
  have r: "snd (run_task ml e' d' ac ?msg []) = ?mails"
    by (simp add: run_task_def notify_new_assignment_def g Let_def and_do_def send_all_run [OF assms(4)] all)
  have to: "map ml_to ?mails = assignee_emails e' s ac" by (simp add: comp_def)
  have none: "sd_required_role_id s = None \<Longrightarrow> ?mails = []" by (simp add: assignee_emails_def)
  show ?thesis
  proof (intro exI [of _ s] exI [of _ ?msg] exI [of _ ?mails] conjI)
    show "db_outbox d' = db_outbox d @ [?msg]" by (simp add: d')
    show "\<forall>m \<in> set ?mails. ml_action_url m = Some (mlr_frontend_url ml @ ''/requests/'' @ i)" by (auto simp: assigned_mail_def)
  qed (use s r to set_assignees assignee_allowed none distinct_assignees [OF assms(3)] in simp_all)
qed

definition manager_account :: account_row where
  "manager_account = clerk_account\<lparr>user_roles := [manager_role], user_email := ''manager@example.com''\<rparr>"

definition sample_mailer :: mailer where
  "sample_mailer = \<lparr>mlr_configured = True, mlr_accepts = (\<lambda>_. True), mlr_frontend_url = ''http://localhost:3000'',
     mlr_admin_emails = [''admin@workflow-platform.com'']\<rparr>"

lemma assignment_mails_witness:
  "\<exists>d' msg. start_workflow (sample_server (\<lambda>m. True)) (uid 1) (uid 101) [] sample_db = (Inr (uid 20), d') \<and> db_outbox d' = [msg] \<and>
    ml_to ` set (snd (run_task sample_mailer (sample_server (\<lambda>m. True)) d' (sample_accounts\<lparr>ac_users := [admin_account, manager_account]\<rparr>) msg [])) =
      {''manager@example.com''}"
proof -
  let ?e = "sample_server (\<lambda>m. True)" and ?ac = "sample_accounts\<lparr>ac_users := [admin_account, manager_account]\<rparr>"
  obtain d' where d': "start_workflow ?e (uid 1) (uid 101) [] sample_db = (Inr (uid 20), d')"
    using start_fst [OF sample_committed, of "\<lambda>m. True" "uid 1" "uid 101" "[]"] sample_start(1)
    by (cases "start_workflow ?e (uid 1) (uid 101) [] sample_db") auto
  have ok: "accounts_ok (ac_users ?ac)"
    by (simp add: accounts_ok_def manager_account_def admin_account_def clerk_account_def uuid_text_inject uuid_text_canonical)
  have ml: "mlr_configured sample_mailer" "\<forall>m. mlr_accepts sample_mailer m" by (simp_all add: sample_mailer_def)
  have "uid 100 \<noteq> uuid_text 7" using length_uuid_text [of 7] by (auto simp: uid_def dest: arg_cong [of _ _ length])
  then have a: "\<not> assignee review_step admin_account" "assignee review_step manager_account"
    by (simp_all add: assignee_def review_step_def sample_step_def user_role_ids_def admin_account_def manager_account_def
        clerk_account_def manager_role_def)
  have "{v \<in> set (ac_users ?ac). assignee review_step v} = {manager_account}" using a by auto
  with assignment_mails [OF sample_committed d' ok ml, of ?e] d' sample_start(2)
  show ?thesis by (auto simp: manager_account_def)
qed

end
