(* ===== verification/LoginFlow.thy ===== *)
theory LoginFlow
  imports LoginPage AccountProperties
begin

text \<open>
  The login page on the login endpoint: the form-encoded body as the server reads it, and the session that
  a successful login opens in the browser. The reading of form bodies is a library's; it is a parameter
  with the law that it inverts the browser's encoding, and a decoder with that law is given.
\<close>

section \<open>The form body\<close>

definition form_reader_ok :: "(string \<Rightarrow> (string \<times> string) list) \<Rightarrow> bool" where
  "form_reader_ok form \<longleftrightarrow> (\<forall>kvs. form (form_text kvs) = kvs)"

text \<open>The two form fields are required, and FastAPI takes an empty one for a missing one.\<close>

definition post_login :: "(string \<Rightarrow> (string \<times> string) list) \<Rightarrow> security \<Rightarrow> server \<Rightarrow> string \<Rightarrow> accounts \<Rightarrow> token_out response" where
  "post_login form sec e body ac =
     (case (map_of (form body) ''username'', map_of (form body) ''password'') of
        (Some username, Some password) \<Rightarrow>
          if username = '''' \<or> password = '''' then Failed 422 else login_access_token sec e username password ac
      | _ \<Rightarrow> Failed 422)"

section \<open>The page's part\<close>

lemma login_submitted:
  assumes "perform login_page env (Click SubmitLogin) s = Some s'"
  shows "rq_body (last (br_sent (br s'))) = FormBody (form_text [(''username'', lg_email (st s)), (''password'', lg_password (st s))])"
    and "lg_email (st s) \<noteq> ''''" "lg_password (st s) \<noteq> ''''" "LoginCall \<in> set (inflight s')"
  using assms by (auto simp: login_clicks login_defs react_def send_def make_request_def split: if_splits)

lemma login_answered:
  assumes "LoginCall \<in> set (inflight s)"
  obtains s' where "perform login_page env (Ok LoginCall tok) s = Some s'" "br_token (br s') = Some tok"
  using assms by (simp add: login_defs react_def)

section \<open>A form decoder\<close>

definition hex_digit_value :: "char \<Rightarrow> nat" where
  "hex_digit_value c = (let n = (of_char c :: nat) in if n < 58 then n - 48 else n - 55)"

fun url_decode :: "string \<Rightarrow> string" where
  "url_decode [] = []"
| "url_decode (c # s) =
     (if c = CHR ''+'' then CHR '' '' # url_decode s
      else if c = CHR ''%'' then (case s of a # b # s' \<Rightarrow> char_of (16 * hex_digit_value a + hex_digit_value b) # url_decode s' | _ \<Rightarrow> [])
      else c # url_decode s)"

definition form_entry :: "string \<Rightarrow> string \<times> string" where
  "form_entry p = (url_decode (takeWhile (\<lambda>c. c \<noteq> CHR ''='') p), url_decode (tl (dropWhile (\<lambda>c. c \<noteq> CHR ''='') p)))"

definition form_decode :: "string \<Rightarrow> (string \<times> string) list" where
  "form_decode s = (if s = '''' then [] else map form_entry (split_at (CHR ''&'') s))"

definition hex_round :: "nat \<Rightarrow> bool" where
  "hex_round d = (hex_digit_value (hex_char d) = d \<and> hex_char d \<noteq> CHR ''&'' \<and> hex_char d \<noteq> CHR ''='')"

lemma hex_rounds: "list_all hex_round [0..<16]"
  by code_simp

lemma hex_char_round: "d < 16 \<Longrightarrow> hex_digit_value (hex_char d) = d \<and> hex_char d \<noteq> CHR ''&'' \<and> hex_char d \<noteq> CHR ''=''"
  using hex_rounds by (simp add: list_all_iff hex_round_def)

lemma byte_nibbles: "(of_char c :: nat) div 16 < 16"
  by (rule less_mult_imp_div_less) simp

lemma plain_chars: "url_plain c \<Longrightarrow> c \<noteq> CHR ''+'' \<and> c \<noteq> CHR ''%'' \<and> c \<noteq> CHR ''&'' \<and> c \<noteq> CHR ''=''"
  by (auto simp: url_plain_def)

lemma url_decode_char: "url_decode (url_char c @ s) = c # url_decode s"
  using plain_chars [of c] hex_char_round [OF byte_nibbles, of c] hex_char_round [of "of_char c mod 16"]
  by (auto simp: url_char_def Let_def)

lemma url_char_safe: "x \<in> set (url_char c) \<Longrightarrow> x \<noteq> CHR ''&'' \<and> x \<noteq> CHR ''=''"
  using plain_chars [of c] hex_char_round [OF byte_nibbles, of c] hex_char_round [of "of_char c mod 16"]
  by (auto simp: url_char_def Let_def split: if_splits)

lemma url_encode_safe: "x \<in> set (url_encode s) \<Longrightarrow> x \<noteq> CHR ''&'' \<and> x \<noteq> CHR ''=''"
  by (auto simp: url_encode_def dest: url_char_safe)

lemma url_decode_encode: "url_decode (url_encode s) = s"
  by (induction s) (simp_all add: url_encode_def url_decode_char)

lemma form_entry_pair: "form_entry (url_encode k @ ''='' @ url_encode v) = (k, v)"
proof -
  have "takeWhile (\<lambda>c. c \<noteq> CHR ''='') (url_encode k @ CHR ''='' # w) = url_encode k"
    "dropWhile (\<lambda>c. c \<noteq> CHR ''='') (url_encode k @ CHR ''='' # w) = CHR ''='' # w" for w
    using url_encode_safe [of _ k] by (simp_all add: takeWhile_append2 dropWhile_append2)
  then show ?thesis by (simp add: form_entry_def url_decode_encode)
qed

lemma split_at_absent: "c \<notin> set s \<Longrightarrow> split_at c s = [s]"
  by (induction s) auto

lemma split_at_append: "c \<notin> set s \<Longrightarrow> split_at c (s @ c # t) = s # split_at c t"
  by (induction s) auto

theorem form_decode_ok: "form_reader_ok form_decode"
proof -
  have safe: "CHR ''&'' \<notin> set (url_encode k @ ''='' @ url_encode v)" for k v
    using url_encode_safe [of "CHR ''&''"] by auto
  have f: "form_text kvs \<noteq> [] \<and> map form_entry (split_at (CHR ''&'') (form_text kvs)) = kvs" if "kvs \<noteq> []" for kvs
    using that
  proof (induction kvs rule: form_text.induct)
    case (2 k v)
    then show ?case using split_at_absent [OF safe] form_entry_pair by simp
  next
    case (3 k v w kvs)
    have "form_text ((k, v) # w # kvs) = (url_encode k @ ''='' @ url_encode v) @ CHR ''&'' # form_text (w # kvs)" by simp
    with 3 show ?case by (simp only: split_at_append [OF safe]) (simp add: form_entry_pair [simplified])
  qed simp
  have "form_decode (form_text kvs) = kvs" for kvs
    using f [of kvs] by (cases "kvs = []") (simp_all add: form_decode_def)
  then show ?thesis by (simp add: form_reader_ok_def)
qed

section \<open>The prefilled login\<close>

text \<open>The account whose credentials the page's form starts with.\<close>

definition prefilled_account :: account_row where
  "prefilled_account = clerk_account\<lparr>user_email := ''manager@example.com'', user_password_hash := ''manager123$s''\<rparr>"

definition prefilled_accounts :: accounts where
  "prefilled_accounts = sample_accounts\<lparr>ac_users := [admin_account, prefilled_account]\<rparr>"

lemma prefilled_users [simp]: "ac_users prefilled_accounts = [admin_account, prefilled_account]"
  by (simp add: prefilled_accounts_def)

lemma prefilled_ok: "accounts_ok (ac_users prefilled_accounts)"
  by (simp add: accounts_ok_def prefilled_account_def admin_account_def clerk_account_def uuid_text_inject uuid_text_canonical)

lemma prefilled_login: "\<exists>t. tok_access_token t \<noteq> '''' \<and>
    login_access_token sample_security (sample_server (\<lambda>m. True)) ''manager@example.com'' ''manager123'' prefilled_accounts = Success t"
proof -
  have "query_first (sample_server (\<lambda>m. True)) user_id (\<lambda>v. user_email v = ''manager@example.com'') [admin_account, prefilled_account] = Some prefilled_account"
    using query_first_email [OF prefilled_ok, of prefilled_account] by (simp add: prefilled_account_def)
  moreover have "verify_password sample_security ''manager123'' (user_password_hash prefilled_account)" by code_simp
  moreover have "user_active prefilled_account" by (simp add: prefilled_account_def clerk_account_def)
  ultimately show ?thesis
    by (simp add: login_access_token_def create_access_token_def) (simp add: sample_security_def)
qed

end
