(* ===== verification/Primitives.thy ===== *)
theory Primitives
  imports View
begin

text \<open>
  The components that wrap the pages' content: \<open>frontend/src/components/ui/Card.tsx\<close>, whose class list
  depends on its properties, \<open>frontend/src/components/ui/Portal.tsx\<close>, which renders its children after its
  first effect has run, and the document of \<open>frontend/src/app/layout.tsx\<close>. The pages' views leave these
  wrappers out; the lemmas say that a wrapper offers the controls, fields, links and texts of its children
  and nothing else, so that nothing the user can do or read is lost. \<open>clsx\<close> and \<open>tailwind-merge\<close> are parameters.
\<close>

section \<open>Cards\<close>

text \<open>The arguments of \<open>clsx\<close> that the code uses: a class list, or a value that is left out
  (\<open>false\<close>, \<open>undefined\<close>).\<close>

datatype class_value = Classes string | NoClass

record css =
  css_clsx :: "class_value list \<Rightarrow> string"
  css_merge :: "string \<Rightarrow> string"

definition cn :: "css \<Rightarrow> class_value list \<Rightarrow> string" where
  "cn c inputs = css_merge c (css_clsx c inputs)"

definition given_class :: "string option \<Rightarrow> class_value" where
  "given_class className = (case className of None \<Rightarrow> NoClass | Some s \<Rightarrow> Classes s)"

text \<open>\<open>glass = true\<close> is the default of a missing property.\<close>

definition Card :: "css \<Rightarrow> string option \<Rightarrow> bool option \<Rightarrow> ('c, 'f) node list \<Rightarrow> ('c, 'f) node" where
  "Card c className glass children =
     (let glass' = (case glass of None \<Rightarrow> True | Some b \<Rightarrow> b)
      in Sty (cn c [Classes ''rounded-[2rem] border border-white/5 bg-slate-900/40 transition-all duration-500'',
           if glass' then Classes ''glass-dark'' else NoClass, given_class className]) children)"

definition CardHeader :: "css \<Rightarrow> string option \<Rightarrow> ('c, 'f) node list \<Rightarrow> ('c, 'f) node" where
  "CardHeader c className children = Sty (cn c [Classes ''p-8 pb-4'', given_class className]) children"

definition CardTitle :: "css \<Rightarrow> string option \<Rightarrow> ('c, 'f) node list \<Rightarrow> ('c, 'f) node" where
  "CardTitle c className children =
     Sty (cn c [Classes ''text-xl font-black italic uppercase tracking-tighter text-white/90'', given_class className]) children"

definition CardContent :: "css \<Rightarrow> string option \<Rightarrow> ('c, 'f) node list \<Rightarrow> ('c, 'f) node" where
  "CardContent c className children = Sty (cn c [Classes ''p-8 pt-0'', given_class className]) children"

section \<open>The portal\<close>

record portal_state =
  po_mounted :: bool

definition portal_init :: portal_state where
  "portal_init = \<lparr>po_mounted = False\<rparr>"

text \<open>The effect with no dependencies and its clean-up.\<close>

definition portal_effect :: "portal_state \<Rightarrow> portal_state" where
  "portal_effect s = s\<lparr>po_mounted := True\<rparr>"

definition portal_cleanup :: "portal_state \<Rightarrow> portal_state" where
  "portal_cleanup s = s\<lparr>po_mounted := False\<rparr>"

definition Portal :: "portal_state \<Rightarrow> ('c, 'f) node list \<Rightarrow> ('c, 'f) node" where
  "Portal s children = (if po_mounted s then Box children else Box [])"

section \<open>The document\<close>

definition metadata_title :: string where
  "metadata_title = ''NexusFlow | Strategic Workflow Orchestration''"

text \<open>\<open>html\<close> > \<open>body\<close> > \<open>main\<close>, with two decorations before the page.\<close>

definition RootLayout :: "('c, 'f) node list \<Rightarrow> ('c, 'f) node" where
  "RootLayout children = Box [Box [Box [Box [], Box [], Box children]]]"

section \<open>Wrappers are transparent\<close>

definition offers_same :: "('c, 'f) node \<Rightarrow> ('c, 'f) node list \<Rightarrow> bool" where
  "offers_same n ns \<longleftrightarrow> clicks n = concat (map clicks ns) \<and> edits n = concat (map edits ns) \<and> links n = concat (map links ns) \<and>
     texts n = concat (map texts ns) \<and> can_submit n = list_ex can_submit ns"

lemma wrappers_transparent:
  "offers_same (Card c k g ns) ns" "offers_same (CardHeader c k ns) ns" "offers_same (CardTitle c k ns) ns"
  "offers_same (CardContent c k ns) ns" "offers_same (RootLayout ns) ns" "offers_same (Portal (portal_effect s) ns) ns"
  by (simp_all add: offers_same_def Card_def CardHeader_def CardTitle_def CardContent_def RootLayout_def Portal_def portal_effect_def)

text \<open>Before its effect and after its clean-up a portal offers nothing.\<close>

lemma portal_closed: "offers_same (Portal portal_init ns) []" "offers_same (Portal (portal_cleanup s) ns) []"
  by (simp_all add: offers_same_def Portal_def portal_init_def portal_cleanup_def)

end
