(* ===== verification/AccountListing.thy ===== *)
theory AccountListing
  imports AccountProperties
begin

text \<open>
  The user list and the response model: as long as profile updates leave the name alone or give a valid one,
  every stored account fits \<open>UserSchema\<close>, over every run of calls, and the list is served to every
  administrator.
\<close>

section \<open>Accounts that fit their schema\<close>

definition schema_valid :: "security \<Rightarrow> account_row \<Rightarrow> bool" where
  "schema_valid sec u \<longleftrightarrow> UserSchema sec u \<noteq> None"

definition name_valid :: "string \<Rightarrow> bool" where
  "name_valid n \<longleftrightarrow> 1 \<le> length n \<and> length n \<le> 255"

text \<open>A normalised address is its own normal form.\<close>

definition email_ok :: "security \<Rightarrow> bool" where
  "email_ok sec \<longleftrightarrow> (\<forall>s m. sec_email sec s = Some m \<longrightarrow> sec_email sec m = Some m)"

definition decent_body :: "security \<Rightarrow> json \<Rightarrow> bool" where
  "decent_body sec body \<longleftrightarrow> (case profile_body sec body of None \<Rightarrow> True
     | Some p \<Rightarrow> (case pi_full_name p of None \<Rightarrow> True | Some n \<Rightarrow> name_valid n))"

fun decent_call :: "security \<Rightarrow> account_call \<Rightarrow> bool" where
  "decent_call sec (PostUser header body) = True"
| "decent_call sec (PutUserMe header body) = decent_body sec body"

inductive decent_run :: "security \<Rightarrow> codec \<Rightarrow> accounts \<Rightarrow> accounts \<Rightarrow> bool" for sec cd ac where
  start: "decent_run sec cd ac ac"
| call: "decent_run sec cd ac ac' \<Longrightarrow> decent_call sec c \<Longrightarrow> decent_run sec cd ac (run_account_call sec cd e rnd c ac')"

lemma schema_valid_iff: "schema_valid sec u \<longleftrightarrow> sec_email sec (user_email u) \<noteq> None \<and>
    3 \<le> length (user_username u) \<and> length (user_username u) \<le> 100 \<and> name_valid (user_full_name u)"
  by (auto simp: schema_valid_def UserSchema_def name_valid_def split: option.splits)

lemma schema_id: "UserSchema sec u = Some v \<Longrightarrow> uo_id v = user_id u"
  by (auto simp: UserSchema_def split: option.splits if_splits)

lemma read_email_valid: "email_ok sec \<Longrightarrow> read_email sec v = Some m \<Longrightarrow> sec_email sec m = Some m"
  by (auto simp: email_ok_def read_email_def split: json.splits)

lemma bounded_text_length: "bounded_text a b v = Some s \<Longrightarrow> a \<le> length s \<and> length s \<le> b"
  by (auto simp: bounded_text_def split: json.splits if_splits)

lemma required_Some: "required f k kvs = Some x \<Longrightarrow> \<exists>v. f v = Some x"
  by (auto simp: required_def split: option.splits)

lemma optional_Some: "optional f k kvs = Some (Some x) \<Longrightarrow> \<exists>v. f v = Some x"
  by (auto simp: optional_def split: option.splits json.splits)

lemma new_account_valid:
  assumes "email_ok sec" and "UserCreate sec cd body = Some ui"
  shows "schema_valid sec (new_account e rnd ui h)"
proof -
  obtain kvs where kvs: "required (read_email sec) ''email'' kvs = Some (ui_email ui)"
      "required (bounded_text 3 100) ''username'' kvs = Some (ui_username ui)"
      "required (bounded_text 1 255) ''full_name'' kvs = Some (ui_full_name ui)"
    using assms(2) by (auto simp: UserCreate_def bind_eq_Some_conv split: json.splits)
  from required_Some [OF kvs(1)] have "sec_email sec (ui_email ui) = Some (ui_email ui)" using read_email_valid [OF assms(1)] by blast
  moreover have "3 \<le> length (ui_username ui) \<and> length (ui_username ui) \<le> 100" using required_Some [OF kvs(2)] bounded_text_length by blast
  moreover have "1 \<le> length (ui_full_name ui) \<and> length (ui_full_name ui) \<le> 255" using required_Some [OF kvs(3)] bounded_text_length by blast
  ultimately show ?thesis by (simp add: schema_valid_iff new_account_def name_valid_def)
qed

lemma updated_email_valid:
  assumes "email_ok sec" and "profile_body sec body = Some p" and "sec_email sec s = Some own"
  shows "sec_email sec (updated_email own p) = Some (updated_email own p)"
proof (cases "pi_email p")
  case None
  then show ?thesis using assms(1,3) by (auto simp: updated_email_def email_ok_def)
next
  case (Some m)
  then obtain kvs where "optional (read_email sec) ''email'' kvs = Some (Some m)"
    using assms(2) by (auto simp: profile_body_def no_profile_def bind_eq_Some_conv split: json.splits)
  with optional_Some read_email_valid [OF assms(1)] Some show ?thesis by (fastforce simp: updated_email_def)
qed

lemma edit_account_valid:
  assumes "schema_valid sec u" and "sec_email sec m = Some m" and "case n of None \<Rightarrow> True | Some x \<Rightarrow> name_valid x"
  shows "schema_valid sec (edit_account now m h n u)"
  using assms by (auto simp: schema_valid_iff split: option.splits)

lemma editing_valid:
  "list_all (schema_valid sec) (ac_users ac) \<Longrightarrow> sec_email sec m = Some m \<Longrightarrow> case n of None \<Rightarrow> True | Some x \<Rightarrow> name_valid x \<Longrightarrow>
    list_all (schema_valid sec) (ac_users (editing e i m h n ac))"
  by (auto simp: list_all_iff editing_def set_update_row intro: edit_account_valid)

lemma decent_call_valid:
  assumes "email_ok sec" and "decent_call sec c" and "list_all (schema_valid sec) (ac_users ac)"
  shows "list_all (schema_valid sec) (ac_users (run_account_call sec cd e rnd c ac))"
proof (cases c)
  case (PostUser header body)
  have "list_all (schema_valid sec) (ac_users (snd (transact_users (create_user sec e rnd u ui) ac)))"
    if "UserCreate sec cd body = Some ui" for u ui
    using assms(3) new_account_valid [OF assms(1) that] by (auto simp: create_user_run adding_def split: option.split)
  then show ?thesis
    using assms(3) by (auto simp: PostUser post_user_def authenticated_def respond_users_snd split: sum.split option.split)
next
  case (PutUserMe header body)
  have "list_all (schema_valid sec) (ac_users (snd (transact_users (update_user_me sec e rnd u p) ac)))"
    if p: "profile_body sec body = Some p" for u p
  proof -
    have n: "case pi_full_name p of None \<Rightarrow> True | Some x \<Rightarrow> name_valid x"
      using assms(2) p by (simp add: PutUserMe decent_body_def)
    show ?thesis
      using assms(3) editing_valid [OF assms(3) updated_email_valid [OF assms(1) p] n]
      by (auto simp: update_user_run Let_def split: option.split sum.split)
  qed
  then show ?thesis
    using assms(3) by (auto simp: PutUserMe put_user_me_def authenticated_def respond_users_snd split: sum.split option.split)
qed

lemma those_map: "(\<And>x. x \<in> set xs \<Longrightarrow> f x = Some (g x)) \<Longrightarrow> those (map f xs) = Some (map g xs)"
  by (induction xs) auto

text \<open>
  C19. The accounts keep fitting their response model: when all of them do, they still do after any run of
  calls in which each profile update leaves the name alone or gives one of 1 to 255 characters; and then
  every page of the user list is served to every administrator, with the identifiers of its accounts.
\<close>

theorem user_list_served:
  assumes "email_ok sec" and "list_all (schema_valid sec) (ac_users ac)" and "decent_run sec cd ac ac'"
    and "get_current_user sec (srv_now e) header (ac_users ac') = Inr a" and "is_administrator a"
  shows "list_all (schema_valid sec) (ac_users ac') \<and>
    (\<exists>us. read_users sec e skip limit header ac' = (Success us, ac') \<and>
      map uo_id us = take limit (drop skip (map user_id (query e user_id (\<lambda>_. True) (ac_users ac')))))"
proof -
  have v: "list_all (schema_valid sec) (ac_users ac')"
    using assms(3,2) by (induction rule: decent_run.induct) (auto intro: decent_call_valid [OF assms(1)])
  let ?page = "take limit (drop skip (query e user_id (\<lambda>_. True) (ac_users ac')))"
  have "u \<in> set (ac_users ac')" if "u \<in> set ?page" for u
    using that by (auto dest!: in_set_takeD in_set_dropD)
  then have s: "UserSchema sec u = Some (the (UserSchema sec u))" if "u \<in> set ?page" for u
    using v that by (auto simp: list_all_iff schema_valid_def)
  have t: "those (map (UserSchema sec) ?page) = Some (map (\<lambda>u. the (UserSchema sec u)) ?page)"
    by (rule those_map) (rule s)
  have i: "map (\<lambda>u. uo_id (the (UserSchema sec u))) ?page = map user_id ?page"
    by (rule map_cong [OF refl]) (rule schema_id [OF s])
  have r: "check_role (as_user a) ''admin'' = return_op ()"
    using assms(5) by (auto simp: check_role_run is_administrator_def holds_role_def return_op_def fun_eq_iff)
  have "read_users sec e skip limit header ac' = (Success (map (\<lambda>u. the (UserSchema sec u)) ?page), ac')"
    using t by (simp add: read_users_def authenticated_def assms(4) r respond_users_def transact_users_def model_response_def)
  then show ?thesis using v i by (auto simp: take_map drop_map comp_def)
qed

lemma sample_email_ok: "email_ok sample_security"
proof -
  have at: "\<exists>x t. s = x @ CHR ''@'' # t \<and> CHR ''@'' \<notin> set x" if "CHR ''@'' \<in> set s" for s
    using split_list_first [OF that] by blast
  have l: "to_lower (CHR ''@'' # t) = CHR ''@'' # to_lower t" for t by (simp add: to_lower_def lower_char_def)
  have n: "sec_email sample_security (x @ CHR ''@'' # t) = Some (x @ CHR ''@'' # to_lower t)" if "CHR ''@'' \<notin> set x" for x t
  proof -
    have "takeWhile (\<lambda>c. c \<noteq> CHR ''@'') (x @ CHR ''@'' # t) = x" "dropWhile (\<lambda>c. c \<noteq> CHR ''@'') (x @ CHR ''@'' # t) = CHR ''@'' # t"
      using that by (subst takeWhile_append2 dropWhile_append2; auto)+
    then show ?thesis by (simp add: sample_security_def l)
  qed
  have "sec_email sample_security m = Some m" if "sec_email sample_security s = Some m" for s m
  proof -
    have "CHR ''@'' \<in> set s" using that by (auto simp: sample_security_def split: if_splits)
    with at obtain x t where "s = x @ CHR ''@'' # t" "CHR ''@'' \<notin> set x" by blast
    with that n show ?thesis by auto
  qed
  then show ?thesis by (simp add: email_ok_def)
qed

lemma user_list_served_witness:
  "decent_run sample_security plain_codec sample_accounts with_bob \<and>
   (\<exists>us. read_users sample_security (sample_server (\<lambda>m. True)) 0 100 (header_of admin_account) with_bob = (Success us, with_bob) \<and> length us = 3)"
proof -
  let ?e = "sample_server (\<lambda>m. True)"
  obtain out where p: "post_user sample_security plain_codec ?e sample_random (header_of admin_account) new_user_body
      sample_accounts = (Success out, with_bob)" using sample_post_user by blast
  have run: "decent_run sample_security plain_codec sample_accounts with_bob"
    using decent_run.call [OF decent_run.start, of sample_security "PostUser (header_of admin_account) new_user_body" plain_codec
      sample_accounts ?e sample_random] p by simp
  have v: "list_all (schema_valid sample_security) (ac_users sample_accounts)"
    by (simp add: schema_valid_iff admin_account_def clerk_account_def sample_emails name_valid_def)
  have ok: "accounts_ok (ac_users with_bob)" using accounts_later_facts [OF later_bob sample_accounts_ok(1)] by simp
  have "admin_account \<in> set (ac_users with_bob)" "user_active admin_account" by (simp_all add: with_bob_def adding_def admin_account_def)
  then have c: "get_current_user sample_security (srv_now ?e) (header_of admin_account) (ac_users with_bob) = Inr admin_account"
    unfolding header_of_def by (subst token_user [OF sample_laws(1,2) ok]) simp_all
  obtain us where us: "read_users sample_security ?e 0 100 (header_of admin_account) with_bob = (Success us, with_bob)"
    "map uo_id us = take 100 (drop 0 (map user_id (query ?e user_id (\<lambda>_. True) (ac_users with_bob))))"
    using user_list_served [OF sample_email_ok v run c admin_is_administrator, of 0 100] by blast
  from us(2) have "length us = 3" by (auto simp: query_def with_bob_def adding_def dest: arg_cong [of _ _ length])
  with us(1) run show ?thesis by blast
qed

end
