(* ===== verification/StartFlow.thy ===== *)
theory StartFlow
  imports Composition DashboardPage
begin

text \<open>
  A request from the dashboard's form to the task lists: what the backend reads of the form's body, the
  request it stores, and who finds it among their tasks.
\<close>

section \<open>The stored request\<close>

lemma started_view_fields [simp]:
  "rq_id (started_request e d w u data s) = db_uuid d (db_drawn d)" "rq_workflow_id (started_request e d w u data s) = w"
  "rq_requester_id (started_request e d w u data s) = u" "rq_status (started_request e d w u data s) = IN_PROGRESS"
  "rq_data (started_request e d w u data s) = JObj data" "rq_current_step_id (started_request e d w u data s) = Some (sd_id s)"
  by (simp_all add: started_request_def new_request_def)

lemma post_request_Success:
  assumes "post_request e cd u body d = (Success out, d')"
  obtains w data i where "WorkflowRequestCreate cd body = Some (w, data)" "start_workflow e w (user_id u) data d = (Inr i, d')"
    "out = request_response d' i"
proof -
  obtain w data where wd: "WorkflowRequestCreate cd body = Some (w, data)"
    using assms by (cases "WorkflowRequestCreate cd body") (auto simp: post_request_def)
  with assms have "respond (start_workflow e w (user_id u) data) request_response d = (Success out, d')" by (simp add: post_request_def)
  then obtain i where "start_workflow e w (user_id u) data d = (Inr i, d')" "out = request_response d' i"
    by (auto simp: respond_def transact_def split: prod.splits sum.splits)
  with wd that show thesis by blast
qed

text \<open>What a started request looks like afterwards, with the step that opens it.\<close>

lemma started_view:
  assumes "committed e d" and "start_workflow e w u data d = (Inr i, d')"
  obtains s r where "opening_step e d w = Some s" "r \<in> set (db_requests d')" "get_row rq_id i (db_requests d') = Some r"
    "r = started_request e d w u data s" "rq_id r = i" "current_step_def d' r = Some s"
proof (rule start_workflow_Inr [OF assms])
  fix wfl s
  assume s: "opening_step e d w = Some s" and i: "i = db_uuid d (db_drawn d)"
    and d': "d' = (started e d w u data s)\<lparr>db_outbox := db_outbox d @ [NewAssignment (sd_id s) i (wf_name wfl) (sd_name s) (step_deadline e s)]\<rparr>"
  let ?r = "started_request e d w u data s"
  have rs: "db_requests d' = db_requests d @ [?r]" "db_steps d' = db_steps d" by (simp_all add: d' started_def Let_def)
  have ids: "ids_ok d" using assms(1) by (simp add: committed_def engine_ok_ids)
  have "get_row rq_id i (db_requests d) = None" using fresh_request [OF ids] by (simp add: get_row_None i)
  then have g: "get_row rq_id i (db_requests d') = Some ?r" by (simp add: rs get_row_append i) (simp add: get_row_def)
  have "s \<in> set (db_steps d)" using query_first_Some [OF s [unfolded opening_step_def]] by simp
  then have "get_row sd_id (sd_id s) (db_steps d') = Some s" using ids by (simp add: rs ids_ok_def get_row_unique)
  then have "current_step_def d' ?r = Some s" by (simp add: current_step_def_def)
  with that [OF s _ g refl] show thesis by (simp add: rs i)
qed

section \<open>The form's body\<close>

definition form_payload :: "new_request \<Rightarrow> (string \<times> json) list" where
  "form_payload n = [(''title'', JStr (nr_title n)), (''description'', JStr (nr_description n)), (''priority'', JStr (nr_priority n))]"

lemma start_body_read:
  assumes "start_body s = JsonBody body" and "cd_uuid cd (JStr (nr_workflow_id (da_new s))) = Some w"
  shows "WorkflowRequestCreate cd body = Some (w, form_payload (da_new s))"
  using assms by (auto simp: start_body_def WorkflowRequestCreate_def required_def optional_def read_dict_def form_payload_def)

lemma request_answered:
  assumes "PostRequest \<in> set (inflight s)"
  obtains s' where "perform dash_page e (Ok PostRequest (RequestCreated i)) s = Some s'" "br_location (br s') = ''/instances/'' @ i"
  using assms by (simp add: dash_ok_def react_def)

text \<open>
  C2. End to end: when the dashboard's form is submitted with a workflow and a title and the backend accepts
  it, the stored request is in progress, belongs to the user, and carries exactly the form's title,
  description and priority; reading it gives the answer that the page gets, the page moves to it, and it is
  among the tasks of exactly the users who are allowed to process the first step.
\<close>

theorem dashboard_start_reaches_tasks:
  assumes "perform dash_page env (Click StartRequest) s = Some s1" and "nr_workflow_id (da_new (st s)) \<noteq> ''''" and "nr_title (da_new (st s)) \<noteq> ''''"
    and "rq_body (last (br_sent (br s1))) = JsonBody body" and "cd_uuid cd (JStr (nr_workflow_id (da_new (st s)))) = Some w"
    and "committed e d" and "post_request e cd u body d = (Success out, d')"
  shows "\<exists>first r s2. opening_step e d w = Some first \<and> out = Some r \<and> read_request (ro_id r) d' = Success r \<and>
    ro_workflow_id r = w \<and> ro_requester_id r = user_id u \<and> ro_status r = ''IN_PROGRESS'' \<and>
    ro_request_data r = Some (JObj (form_payload (da_new (st s)))) \<and>
    perform dash_page env' (Ok PostRequest (RequestCreated (ro_id r))) s1 = Some s2 \<and> br_location (br s2) = ''/instances/'' @ ro_id r \<and>
    (\<forall>e' v. ro_id r \<in> tk_request_id ` set (get_my_tasks e' v d') \<longleftrightarrow> step_allowed v first)"
proof -
  have sent: "start_body (st s) = JsonBody body" "PostRequest \<in> set (inflight s1)"
    using start_sends [OF assms(2,3,1)] assms(4) by (simp_all add: make_request_def)
  note c = assms(6)
  obtain i where i: "start_workflow e w (user_id u) (form_payload (da_new (st s))) d = (Inr i, d')" "out = request_response d' i"
    by (rule post_request_Success [OF assms(7)]) (use start_body_read [OF sent(1) assms(5)] in simp)
  obtain first r where r: "opening_step e d w = Some first" "r \<in> set (db_requests d')" "get_row rq_id i (db_requests d') = Some r"
    "r = started_request e d w (user_id u) (form_payload (da_new (st s))) first" "rq_id r = i" "current_step_def d' r = Some first"
    by (rule started_view [OF c i(1)])
  have ok: "engine_ok d'" using started_committed [OF c i(1)] by (simp add: committed_def)
  let ?out = "WorkflowRequestSchema r"
  have out: "request_response d' i = Some ?out" by (simp add: request_response_def r(3))
  have f: "ro_id ?out = i" "ro_workflow_id ?out = w" "ro_requester_id ?out = user_id u" "ro_status ?out = ''IN_PROGRESS''"
    "ro_request_data ?out = Some (JObj (form_payload (da_new (st s))))"
    using r(5) by (simp_all add: WorkflowRequestSchema_def r(4) json_option_def request_status_name_def)
  obtain s2 where s2: "perform dash_page env' (Ok PostRequest (RequestCreated i)) s1 = Some s2" "br_location (br s2) = ''/instances/'' @ i"
    by (rule request_answered [OF sent(2)])
  have t: "i \<in> tk_request_id ` set (get_my_tasks e' v d') \<longleftrightarrow> step_allowed v first" for e' v
    using task_listed_iff [OF ok r(2), of e' v] by (simp add: r(5,6))
  show ?thesis
    by (rule exI [of _ first], rule exI [of _ ?out], rule exI [of _ s2])
      (use r(1) i(2) out f s2 t in \<open>simp add: read_request_def del: perform.simps\<close>)
qed

definition filled_dash :: dash_state where
  "filled_dash = sample_dash\<lparr>da_new := \<lparr>nr_workflow_id = uid 1, nr_title = ''Trip'', nr_description = '''', nr_priority = ''high''\<rparr>\<rparr>"

lemma dashboard_start_reaches_tasks_witness:
  "\<exists>r d'. post_request (sample_server (\<lambda>m. True)) sample_codec (sample_user []) (JObj [(''workflow_id'', JStr (uid 1)),
      (''request_data'', JObj (form_payload (da_new filled_dash)))]) sample_db = (Success (Some r), d') \<and> ro_status r = ''IN_PROGRESS'' \<and>
    ro_id r \<notin> tk_request_id ` set (get_my_tasks (sample_server (\<lambda>m. True)) (sample_user []) d')"
proof -
  let ?e = "sample_server (\<lambda>m. True)" and ?n = "da_new filled_dash"
  let ?body = "JObj [(''workflow_id'', JStr (uid 1)), (''request_data'', JObj (form_payload ?n))]"
  let ?s = "\<lparr>st = filled_dash, inflight = [], timers = [], br = new_browser\<rparr>"
  have n: "nr_workflow_id ?n \<noteq> ''''" "nr_title ?n \<noteq> ''''" "nr_workflow_id ?n = uid 1"
    by (simp_all add: filled_dash_def uid_def)
  have "StartRequest \<in> set (clicks (dash_view sample_dash_env (st ?s)))"
    by (simp add: dash_clicks filled_dash_def sample_dash_def dash_init_def)
  then obtain s1 where s1: "perform dash_page sample_dash_env (Click StartRequest) ?s = Some s1" by simp
  have b: "rq_body (last (br_sent (br s1))) = JsonBody ?body"
    using start_sends [OF _ _ s1] n by (simp add: make_request_def start_body_def form_payload_def)
  have w: "cd_uuid sample_codec (JStr (nr_workflow_id ?n)) = Some (uid 1)" by (simp add: n(3) sample_codec_def)
  obtain d' where d': "start_workflow ?e (uid 1) (uid 101) (form_payload ?n) sample_db = (Inr (uid 20), d')"
    using start_fst [OF sample_committed, of "\<lambda>m. True" "uid 1" "uid 101" "form_payload ?n"] sample_start(1)
    by (cases "start_workflow ?e (uid 1) (uid 101) (form_payload ?n) sample_db") auto
  have "WorkflowRequestCreate sample_codec ?body = Some (uid 1, form_payload ?n)"
    by (rule start_body_read [of filled_dash]) (use w in \<open>simp_all add: start_body_def form_payload_def n(3)\<close>)
  moreover have "user_id (sample_user []) = uid 101" by (simp add: sample_user_def)
  ultimately have p: "post_request ?e sample_codec (sample_user []) ?body sample_db = (Success (request_response d' (uid 20)), d')"
    using d' by (simp add: post_request_def respond_def transact_Inr)
  have a: "\<not> step_allowed (sample_user []) review_step"
    by (simp add: step_allowed_def is_admin_def sample_user_def review_step_def sample_step_def in_opt_def user_role_ids_def)
  have m: "nr_workflow_id (da_new (st ?s)) \<noteq> ''''" "nr_title (da_new (st ?s)) \<noteq> ''''"
    "cd_uuid sample_codec (JStr (nr_workflow_id (da_new (st ?s)))) = Some (uid 1)" using n w by simp_all
  obtain first r where r: "opening_step ?e sample_db (uid 1) = Some first" "request_response d' (uid 20) = Some r" "ro_status r = ''IN_PROGRESS''"
    "\<forall>e' v. ro_id r \<in> tk_request_id ` set (get_my_tasks e' v d') \<longleftrightarrow> step_allowed v first"
    using dashboard_start_reaches_tasks [OF s1 m(1,2) b m(3) sample_committed p, of sample_dash_env] by blast
  from r(1) sample_start(2) a r(4) have "ro_id r \<notin> tk_request_id ` set (get_my_tasks ?e (sample_user []) d')" by simp
  with p r(2,3) show ?thesis by auto
qed

end
