(* ===== verification/Site.thy ===== *)
theory Site
  imports Platform AccountProperties
begin

text \<open>
  The backend with its accounts: every state that authenticated calls, the periodic task and the account
  endpoints reach together, and who stands behind its rows. Every decision was made by an account that its
  step admits and left an entry in the audit log; every request, history row and workflow names an account.
\<close>

section \<open>Reachable states\<close>

inductive site :: "security \<Rightarrow> server \<Rightarrow> db \<Rightarrow> accounts \<Rightarrow> bool" for sec e where
  start: "inj ids \<Longrightarrow> accounts_ok (ac_users ac) \<Longrightarrow> site sec e (empty_db ids) ac"
| call: "site sec e d ac \<Longrightarrow> same_site e e' \<Longrightarrow> get_current_user sec (srv_now e') header (ac_users ac) = Inr u \<Longrightarrow>
    caller c = Some (as_user u) \<Longrightarrow> site sec e (run_call e' c d) ac"
| scan: "site sec e d ac \<Longrightarrow> same_site e e' \<Longrightarrow> site sec e (run_call e' ScanSlas d) ac"
| account: "site sec e d ac \<Longrightarrow> site sec e d (run_account_call sec cd e' rnd c ac)"

lemma site_platform: "site sec e d ac \<Longrightarrow> platform e d"
  by (induction rule: site.induct) (simp_all add: platform.intros del: run_call.simps)

lemma site_accounts: "site sec e d ac \<Longrightarrow> accounts_ok (ac_users ac)"
  by (induction rule: site.induct) (auto intro: account_write_ok [OF run_account_call_write])

section \<open>Who stands behind a row\<close>

definition account_with :: "(account_row \<Rightarrow> bool) \<Rightarrow> account_row list \<Rightarrow> uuid \<Rightarrow> bool" where
  "account_with P us i \<longleftrightarrow> list_ex (\<lambda>u. user_id u = i \<and> P u) us"

abbreviation known :: "account_row list \<Rightarrow> uuid \<Rightarrow> bool" where
  "known \<equiv> account_with (\<lambda>u. True)"

abbreviation may_decide :: "step_row \<Rightarrow> account_row list \<Rightarrow> uuid \<Rightarrow> bool" where
  "may_decide s \<equiv> account_with (\<lambda>u. step_allowed (as_user u) s)"

lemma account_withI: "u \<in> set us \<Longrightarrow> P u \<Longrightarrow> account_with P us (user_id u)"
  by (auto simp: account_with_def list_ex_iff)

text \<open>What depends on the roles alone survives every account call.\<close>

lemma account_with_history:
  assumes "account_history us us'" and "\<And>u v. user_roles v = user_roles u \<Longrightarrow> P u \<Longrightarrow> P v" and "account_with P us i"
  shows "account_with P us' i"
proof -
  obtain u where u: "u \<in> set us" "user_id u = i" "P u" using assms(3) by (auto simp: account_with_def list_ex_iff)
  obtain v where "v \<in> set us'" "same_account u v" using account_history_row [OF assms(1) u(1)] by blast
  with u assms(2) [of v u] show ?thesis by (auto simp: account_with_def list_ex_iff same_account_def)
qed

lemma step_allowed_roles: "user_roles v = user_roles u \<Longrightarrow> step_allowed (as_user v) s = step_allowed (as_user u) s"
  by (simp add: step_allowed_def is_admin_def user_role_ids_def user_permission_ids_def)

text \<open>The audit entry of the decision that closed an execution.\<close>

definition decision_entry :: "exec_row \<Rightarrow> audit_row \<Rightarrow> bool" where
  "decision_entry x a \<longleftrightarrow> au_action a = ''STEP_COMPLETED'' \<and> au_resource_id a = ex_id x \<and> au_request_id a = ex_request_id x \<and>
     au_actor_id a = ex_assigned_to x"

definition decided_ok :: "account_row list \<Rightarrow> db \<Rightarrow> exec_row \<Rightarrow> bool" where
  "decided_ok us d x \<longleftrightarrow>
     (if ex_completed_at x = None then ex_assigned_to x = None
      else (case (ex_assigned_to x, get_row sd_id (ex_step_id x) (db_steps d)) of
          (Some i, Some s) \<Rightarrow> may_decide s us i
        | _ \<Rightarrow> False) \<and> list_ex (decision_entry x) (db_audit d))"

definition signed :: "account_row list \<Rightarrow> db \<Rightarrow> bool" where
  "signed us d \<longleftrightarrow> list_all (decided_ok us d) (db_execs d) \<and> list_all (\<lambda>r. known us (rq_requester_id r)) (db_requests d) \<and>
     list_all (\<lambda>h. known us (hi_changed_by h)) (db_history d) \<and>
     list_all (\<lambda>a. case au_actor_id a of None \<Rightarrow> True | Some i \<Rightarrow> known us i) (db_audit d) \<and>
     list_all (\<lambda>w. account_with is_administrator us (wf_created_by w)) (db_workflows d)"

text \<open>A change of the database that keeps the steps of decided executions and the log.\<close>

lemma decided_ok_kept:
  assumes "decided_ok us d x" and "set (db_audit d) \<subseteq> set (db_audit d')"
    and "\<And>s. get_row sd_id (ex_step_id x) (db_steps d) = Some s \<Longrightarrow> get_row sd_id (ex_step_id x) (db_steps d') = Some s"
  shows "decided_ok us d' x"
  using assms by (auto simp: decided_ok_def list_ex_iff split: option.splits if_splits)

lemma signed_history:
  assumes "signed us d" and "account_history us us'"
  shows "signed us' d"
proof -
  have k: "known us i \<Longrightarrow> known us' i" for i by (rule account_with_history [OF assms(2)]) simp
  have a: "account_with is_administrator us i \<Longrightarrow> account_with is_administrator us' i" for i
    using account_with_history [OF assms(2)] is_administrator_roles by metis
  have m: "may_decide s us i \<Longrightarrow> may_decide s us' i" for s i
    using account_with_history [OF assms(2), of "\<lambda>u. step_allowed (as_user u) s"] step_allowed_roles by blast
  have "decided_ok us d x \<Longrightarrow> decided_ok us' d x" for x
    by (cases "ex_assigned_to x"; cases "get_row sd_id (ex_step_id x) (db_steps d)"; cases "ex_completed_at x")
      (simp_all add: decided_ok_def m)
  moreover have "(case q of None \<Rightarrow> True | Some i \<Rightarrow> known us i) \<Longrightarrow> (case q of None \<Rightarrow> True | Some i \<Rightarrow> known us' i)" for q
    using k by (cases q) simp_all
  ultimately show ?thesis
    using assms(1) k a unfolding signed_def by (blast intro: list.pred_mono_strong)
qed

lemma signed_same_tables: "same_tables d d' \<Longrightarrow> signed us d' = signed us d"
  by (simp add: signed_def same_tables_def decided_ok_def [abs_def])

lemma signed_transact:
  assumes "signed us d" and "\<And>x d'. m d = (Inr x, d') \<Longrightarrow> signed us d'"
  shows "signed us (snd (transact m d))"
proof (cases "m d")
  case (Pair r d')
  then show ?thesis
    using assms signed_same_tables [OF same_tables_rolled_back, of us d d'] by (cases r) (simp_all add: transact_def)
qed

section \<open>Preservation\<close>

lemma signed_created:
  assumes "signed us d" and "account_with is_administrator us c"
  shows "signed us (created e d wi c)"
proof -
  have "decided_ok us (created e d wi c) x" if "decided_ok us d x" for x
    using that by (rule decided_ok_kept) (simp_all add: get_row_append)
  with assms show ?thesis by (auto simp: signed_def list_all_iff created_workflow_def)
qed

lemma signed_removed:
  assumes "signed us d" and "engine_ok d" and "\<not> list_ex (\<lambda>r. rq_workflow_id r = i) (db_requests d)"
  shows "signed us (remove_workflow i d)"
proof -
  have "decided_ok us (remove_workflow i d) x" if "x \<in> set (db_execs d)" for x
  proof (rule decided_ok_kept)
    show "decided_ok us d x" using assms(1) that by (simp add: signed_def list_all_iff)
  next
    fix s
    assume s: "get_row sd_id (ex_step_id x) (db_steps d) = Some s"
    have "step_workflow d (ex_step_id x) \<noteq> Some i"
      using engine_ok_exec [OF assms(2) that] assms(3) by (auto simp: exec_ok_def list_ex_iff)
    then have "s \<in> set (db_steps (remove_workflow i d))"
      using get_row_Some [OF s] by (simp add: step_workflow_def s remove_workflow_def)
    moreover have "distinct (map sd_id (db_steps (remove_workflow i d)))"
      using engine_ok_ids [OF assms(2)] by (auto simp: ids_ok_def remove_workflow_def intro: distinct_map_filter)
    ultimately show "get_row sd_id (ex_step_id x) (db_steps (remove_workflow i d)) = Some s"
      using get_row_unique get_row_Some [OF s] by metis
  qed (simp add: remove_workflow_def)
  with assms(1) show ?thesis by (auto simp: signed_def list_all_iff remove_workflow_def)
qed

lemma signed_started:
  assumes "signed us d" and "known us u"
  shows "signed us (started e d w u data s)"
proof -
  have a: "db_audit (started e d w u data s) = db_audit d @ [audit_entry e (db_uuid d (db_drawn d + 3)) ''WORKFLOW_STARTED''
      ''workflow_request'' (db_uuid d (db_drawn d)) (Some u) (db_uuid d (db_drawn d)) (JObj [(''workflow_id'', JStr w)])]"
    by (simp add: started_def Let_def)
  have "decided_ok us (started e d w u data s) x" if "decided_ok us d x" for x
    using that by (rule decided_ok_kept) (auto simp: a)
  moreover have "decided_ok us (started e d w u data s) (new_exec i r st t t')" for i r st t t'
    by (simp add: decided_ok_def new_exec_def)
  ultimately show ?thesis
    using assms by (auto simp: signed_def list_all_iff a audit_entry_def started_request_def new_request_def start_history_def)
qed

lemma close_exec_assigned [simp]: "ex_assigned_to (close_exec u out c now x) = Some u"
  by (simp add: close_exec_def Let_def split: option.split)

text \<open>A decision: the closed execution gets its account and its entry, the others keep theirs.\<close>

lemma signed_closed:
  assumes "signed us d" and "pending_exec e d r = Some x" and "get_row sd_id (ex_step_id x) (db_steps d) = Some s"
    and "may_decide s us (user_id u)" and "ids_ok d" and "db_steps d' = db_steps d"
    and "set (db_audit d) \<subseteq> set (db_audit d')" and "completion_entry e i r x u out \<in> set (db_audit d')"
  shows "list_all (decided_ok us d') (closed_execs e d x u out c)"
proof -
  note x = pending_exec_Some [OF assms(2)]
  have "decided_ok us d' (close_exec (user_id u) out c (srv_now e) y)" if "y \<in> set (db_execs d)" "ex_id y = ex_id x" for y
  proof -
    have "y = x" using exec_unique [OF assms(5)] that x by blast
    moreover have "decision_entry (close_exec (user_id u) out c (srv_now e) x) (completion_entry e i r x u out)"
      using x by (simp add: decision_entry_def completion_entry_def audit_entry_def)
    ultimately show ?thesis using assms(3,4,6,8) by (auto simp: decided_ok_def list_ex_iff)
  qed
  moreover have "decided_ok us d' y" if "y \<in> set (db_execs d)" for y
    by (rule decided_ok_kept [of us d]) (use assms(1,6,7) that in \<open>auto simp: signed_def list_all_iff\<close>)
  ultimately show ?thesis by (auto simp: closed_execs_def set_update_row list_all_iff)
qed

lemma may_decide_known: "may_decide s us i \<Longrightarrow> known us i"
  by (auto simp: account_with_def list_ex_iff)

lemma known_requests_update:
  assumes "\<And>q. rq_requester_id (f q) = rq_requester_id q"
  shows "list_all (\<lambda>r. known us (rq_requester_id r)) (update_row rq_id i f rs) = list_all (\<lambda>r. known us (rq_requester_id r)) rs"
  by (induction rs) (simp_all add: update_row_def assms)

lemma signed_processed:
  assumes "signed us d" and "committed e d" and "process_step e i u out c d = (Inr j, d')"
    and "\<And>s. step_allowed u s \<Longrightarrow> may_decide s us (user_id u)"
  shows "signed us d'"
proof (rule process_step_Inr [OF assms(2,3)])
  fix r x s
  assume p: "pending_exec e d r = Some x" and s: "get_row sd_id (ex_step_id x) (db_steps d) = Some s" "step_allowed u s"
    and res: "process_result e d r x u out c = Inr d'"
  have ids: "ids_ok d" using assms(2) by (simp add: committed_def engine_ok_ids)
  note closed = signed_closed [OF assms(1) p s(1) assms(4) [OF s(2)] ids]
  have k: "known us (user_id u)" by (rule may_decide_known [OF assms(4) [OF s(2)]])
  from res consider t where "d' = moved e d r x u out c t" | "d' = finalized e d r x u out c"
    by (auto simp: process_result_def split: option.splits if_splits)
  then show "signed us d'"
  proof cases
    case (1 t)
    have a: "db_audit d' = db_audit d @ [completion_entry e (db_uuid d (db_drawn d + 1)) r x u out]" by (simp add: 1 moved_def)
    have "list_all (decided_ok us d') (closed_execs e d x u out c)"
      by (rule closed [of d' "db_uuid d (db_drawn d + 1)"]) (simp_all add: a, auto simp: 1)
    then have "list_all (decided_ok us d') (db_execs d')" by (simp add: 1 decided_ok_def new_exec_def)
    with assms(1) k show ?thesis
      by (simp add: signed_def a completion_entry_def audit_entry_def) (simp add: 1 known_requests_update)
  next
    case 2
    define ends where "ends = [audit_entry e (db_uuid d (db_drawn d + 2)) ''WORKFLOW_COMPLETED'' ''workflow_request'' (rq_id r)
      (Some (user_id u)) (rq_id r) (JObj [(''final_outcome'', JStr out)]), completion_entry e (db_uuid d (db_drawn d + 3)) r x u out]"
    have a: "db_audit d' = db_audit d @ ends" by (simp add: 2 finalized_def ends_def)
    have "list_all (decided_ok us d') (closed_execs e d x u out c)"
      by (rule closed [of d' "db_uuid d (db_drawn d + 3)"]) (auto simp: a ends_def, auto simp: 2)
    with assms(1) k show ?thesis
      by (simp add: signed_def a ends_def completion_entry_def audit_entry_def) (simp add: 2 known_requests_update final_history_def)
  qed
qed

lemma decided_ok_mark [simp]: "decided_ok us d (mark_breached x) = decided_ok us d x"
proof -
  have "decision_entry (mark_breached x) = decision_entry x" by (simp add: decision_entry_def mark_breached_def fun_eq_iff)
  then show ?thesis by (simp add: decided_ok_def) (simp add: mark_breached_def)
qed

lemma signed_escalated:
  assumes "signed us d"
  shows "signed us (escalated e b x d)"
proof -
  let ?d' = "escalated e b x d"
  have "decided_ok us ?d' y" if "decided_ok us d y" for y
    using that by (rule decided_ok_kept) (auto simp: escalated_def)
  then have "list_all (decided_ok us ?d') (db_execs ?d')"
    using assms by (auto simp: signed_def escalated_def [of e b x d] set_update_row list_all_iff)
  with assms show ?thesis by (simp add: signed_def escalated_def audit_entry_def)
qed

lemma signed_scan:
  assumes "committed e d" and "signed us d"
  shows "signed us (snd (check_all_slas e d))"
proof -
  have "signed us (fold (escalated e d) xs d')" if "signed us d'" for xs d'
    using that by (induction xs arbitrary: d') (simp_all add: signed_escalated)
  with assms signed_same_tables [OF same_tables_rolled_back] show ?thesis by (simp add: check_run Let_def)
qed

text \<open>Every transaction of an authenticated account, or of the periodic task.\<close>

lemma transaction_of_signed:
  assumes "transaction_of e who d d'" and "committed e d" and "signed us d"
    and "\<And>u. who = Some u \<Longrightarrow> \<exists>v \<in> set us. u = as_user v"
  shows "signed us d'"
  using assms
proof (induction rule: transaction_of.induct)
  case (create u wi)
  then obtain v where v: "v \<in> set us" "u = as_user v" by blast
  with create(2) have "is_administrator v" by (simp add: is_administrator_def holds_role_def)
  then have "account_with is_administrator us (user_id u)" using account_withI [OF v(1)] v(2) by simp
  moreover have "rows_ok e d" using create.prems(1) by (simp add: committed_def)
  ultimately show ?case
    using create.prems(2) create_workflow_Inr by (blast intro: signed_transact signed_created)
next
  case (delete i)
  have ok: "rows_ok e d" "engine_ok d" using delete.prems(1) by (simp_all add: committed_def)
  have "signed us d''" if "delete_workflow e i d = (Inr v, d'')" for v d''
    using that delete_workflow_run [OF ok(1), of i] signed_removed [OF delete.prems(2) ok(2), of i] by (auto split: if_splits)
  with delete.prems(2) show ?case by (rule signed_transact)
next
  case (start u w data)
  then obtain v where v: "v \<in> set us" "u = as_user v" by blast
  have k: "known us (user_id u)" using account_withI [OF v(1)] v(2) by simp
  show ?case
  proof (rule signed_transact [OF start.prems(2)])
    fix i d''
    assume "start_workflow e w (user_id u) data d = (Inr i, d'')"
    then obtain l s where "d'' = (started e d w (user_id u) data s)\<lparr>db_outbox := l\<rparr>"
      using start_workflow_Inr [OF start.prems(1)] by metis
    moreover have "same_tables (started e d w (user_id u) data s) ((started e d w (user_id u) data s)\<lparr>db_outbox := l\<rparr>)"
      by (simp add: same_tables_def)
    ultimately show "signed us d''"
      using signed_same_tables signed_started [OF start.prems(2) k] by metis
  qed
next
  case (process u i out c)
  then obtain v where v: "v \<in> set us" "u = as_user v" by blast
  have "may_decide s us (user_id u)" if "step_allowed u s" for s
    using account_withI [OF v(1), of "\<lambda>u. step_allowed (as_user u) s"] that v(2) by simp
  with process.prems show ?case by (intro signed_transact) (auto intro: signed_processed)
qed (simp_all add: signed_scan)

lemma site_signed: "site sec e d ac \<Longrightarrow> signed (ac_users ac) d"
proof (induction rule: site.induct)
  case (start ids ac)
  then show ?case by (simp add: signed_def empty_db_def)
next
  case (call d ac e' header u c)
  have "committed e' d" using platform_committed [OF site_platform [OF call.hyps(1)]] by (simp add: committed_site [OF call.hyps(2)])
  moreover have "transaction_of e' (Some (as_user u)) d (run_call e' c d)" using run_call_transaction [of e' c d] call.hyps(4) by simp
  ultimately show ?case
    using transaction_of_signed call.IH current_user_row [OF call.hyps(3)] by blast
next
  case (scan d ac e')
  have "committed e' d" using platform_committed [OF site_platform [OF scan.hyps(1)]] by (simp add: committed_site [OF scan.hyps(2)])
  with scan.IH signed_scan show ?case by simp
next
  case (account d ac cd e' rnd c)
  then show ?case by (metis signed_history account_write_history run_account_call_write)
qed

section \<open>Every decision has its author\<close>

text \<open>
  C4. In every state that authenticated calls, the periodic task and the account endpoints reach, however
  they interleave: every closed execution was decided by an account that its step still admits, with an
  entry of that account in the audit log, and an open one has no author; and every requester, every author
  of a history row and every actor of the log is an account, every author of a workflow an administrator.
\<close>

theorem site_accountability:
  assumes "site sec e d ac"
  shows "(\<forall>x \<in> set (db_execs d).
      if ex_completed_at x = None then ex_assigned_to x = None
      else \<exists>u \<in> set (ac_users ac). \<exists>s \<in> set (db_steps d). \<exists>a \<in> set (db_audit d).
        ex_assigned_to x = Some (user_id u) \<and> sd_id s = ex_step_id x \<and> step_allowed (as_user u) s \<and>
        au_action a = ''STEP_COMPLETED'' \<and> au_resource_id a = ex_id x \<and> au_request_id a = ex_request_id x \<and>
        au_actor_id a = Some (user_id u)) \<and>
    (\<forall>r \<in> set (db_requests d). rq_requester_id r \<in> user_id ` set (ac_users ac)) \<and>
    (\<forall>h \<in> set (db_history d). hi_changed_by h \<in> user_id ` set (ac_users ac)) \<and>
    (\<forall>a \<in> set (db_audit d). \<forall>i. au_actor_id a = Some i \<longrightarrow> i \<in> user_id ` set (ac_users ac)) \<and>
    (\<forall>w \<in> set (db_workflows d). \<exists>u \<in> set (ac_users ac). user_id u = wf_created_by w \<and> is_administrator u)"
proof -
  have s: "signed (ac_users ac) d" by (rule site_signed [OF assms])
  have k: "known (ac_users ac) i \<longleftrightarrow> i \<in> user_id ` set (ac_users ac)" for i
    by (auto simp: account_with_def list_ex_iff)
  have x: "\<exists>u \<in> set (ac_users ac). \<exists>s \<in> set (db_steps d). \<exists>a \<in> set (db_audit d).
      ex_assigned_to x = Some (user_id u) \<and> sd_id s = ex_step_id x \<and> step_allowed (as_user u) s \<and>
      au_action a = ''STEP_COMPLETED'' \<and> au_resource_id a = ex_id x \<and> au_request_id a = ex_request_id x \<and>
      au_actor_id a = Some (user_id u)" if "decided_ok (ac_users ac) d x" "ex_completed_at x \<noteq> None" for x
    using that get_row_Some [of sd_id "ex_step_id x" "db_steps d"]
    by (fastforce simp: decided_ok_def account_with_def list_ex_iff decision_entry_def split: option.splits)
  have "decided_ok (ac_users ac) d x" if "x \<in> set (db_execs d)" for x using s that by (simp add: signed_def list_all_iff)
  moreover from this have "ex_assigned_to x = None" if "x \<in> set (db_execs d)" "ex_completed_at x = None" for x
    using that by (fastforce simp: decided_ok_def)
  moreover have "\<forall>a \<in> set (db_audit d). \<forall>i. au_actor_id a = Some i \<longrightarrow> i \<in> user_id ` set (ac_users ac)"
    using s unfolding signed_def list_all_iff k by force
  ultimately show ?thesis
    using s x unfolding signed_def list_all_iff k by (auto simp: account_with_def list_ex_iff)
qed

section \<open>A run with a login\<close>

lemma admin_account_admin: "is_admin (as_user admin_account)"
proof -
  have "to_lower ''Admin'' = ''admin''" by code_simp
  then show ?thesis by (simp add: is_admin_def admin_account_def)
qed

abbreviation approving_call :: api_call where
  "approving_call \<equiv> ProcessStep (as_user admin_account) (uid 2) (JObj [(''outcome'', JStr ''APPROVED'')])"

definition site_approved :: db where
  "site_approved = run_call (sample_server (\<lambda>m. True)) approving_call (leave_started (as_user admin_account))"

lemma site_call:
  assumes "site sample_security (sample_server (\<lambda>m. True)) d sample_accounts" and "caller c = Some (as_user admin_account)"
  shows "site sample_security (sample_server (\<lambda>m. True)) (run_call (sample_server (\<lambda>m. True)) c d) sample_accounts"
  by (rule site.call [OF assms(1) _ sample_signed_in assms(2)]) (simp_all add: same_site_def)

lemma site_approved_reached: "site sample_security (sample_server (\<lambda>m. True)) site_approved sample_accounts"
proof -
  let ?u = "as_user admin_account"
  have "site sample_security (sample_server (\<lambda>m. True)) (empty_db uid) sample_accounts"
    by (rule site.start [OF inj_uid sample_accounts_ok(1)])
  from site_call [OF this, of "CreateWorkflow sample_codec ?u sample_body"]
  have "site sample_security (sample_server (\<lambda>m. True)) (leave_db ?u) sample_accounts" by (simp only: leave_created [OF admin_account_admin] caller.simps)
  from site_call [OF this, of "leave_request ?u"]
  have "site sample_security (sample_server (\<lambda>m. True)) (leave_started ?u) sample_accounts" by (simp add: leave_request_def leave_started_def)
  from site_call [OF this, of approving_call] show ?thesis by (simp add: site_approved_def)
qed

lemma site_approved_execs:
  "\<exists>x. db_execs site_approved = [x] \<and> ex_completed_at x \<noteq> None \<and> ex_step_id x = uid 1"
proof -
  let ?e = "sample_server (\<lambda>m. True)" and ?u = "as_user admin_account" and ?s = "step_row_of (uid 0) (uid 1) leave_step"
  let ?x = "new_exec (uid 4) (uid 2) (uid 1) (srv_now ?e) (step_deadline ?e ?s)"
  let ?d = "leave_started ?u"
  let ?r = "started_request ?e (leave_db ?u) (uid 0) (user_id ?u) [] ?s"
  obtain ms where d: "?d = (started ?e (leave_db ?u) (uid 0) (user_id ?u) [] ?s)\<lparr>db_outbox := ms\<rparr>"
    using leave_started_state [OF admin_account_admin] by blast
  have c: "committed ?e ?d" by (rule platform_committed [OF later_platform [OF leave_later leave_platform [OF admin_account_admin]]])
  then have ok: "engine_ok ?d" "ids_ok ?d" "rows_ok ?e ?d" by (simp_all add: committed_def engine_ok_ids)
  have tables: "db_requests ?d = [?r]" "db_execs ?d = [?x]" "db_transitions ?d = []" "db_steps ?d = [?s]"
    by (simp_all add: d leave_tables eval_nat_numeral)
  have r: "get_row rq_id (uid 2) (db_requests ?d) = Some ?r" by (simp only: tables) (simp add: get_row_def leave_tables)
  have "open_execs ?d (rq_id ?r) = [?x]" unfolding open_execs_def tables by (simp add: leave_tables)
  then have p: "pending_exec ?e ?d ?r = Some ?x" using pending_exec_iff [OF ok(1), of ?r] by (simp add: tables)
  have s: "get_row sd_id (ex_step_id ?x) (db_steps ?d) = Some ?s" by (simp only: tables) (simp add: get_row_def step_row_of_def)
  have n: "next_of ?e ?d ?r ?x ''APPROVED'' None = None" by (simp add: next_of_def resolve_next_def Let_def query_def tables)
  have "exec_row_ok ?e (close_exec (user_id ?u) ''APPROVED'' None (srv_now ?e) ?x)"
    by (simp add: exec_row_ok_def close_exec_def new_exec_def step_status_of_def known_status_def text_value_def)
  then have "process_result ?e ?d ?r ?x ?u ''APPROVED'' None = Inr (finalized ?e ?d ?r ?x ?u ''APPROVED'' None)"
    unfolding process_result_def n by simp
  moreover have "step_allowed ?u ?s" using admin_account_admin by (simp add: step_allowed_def)
  ultimately have "process_step ?e (uid 2) ?u ''APPROVED'' None ?d = (Inr (uid 2), finalized ?e ?d ?r ?x ?u ''APPROVED'' None)"
    using process_step_run [OF ok(2,3) r p s, of ?u "''APPROVED''" None] by (simp only: if_False if_True simp_thms sum.case)
  moreover have "process_body (JObj [(''outcome'', JStr ''APPROVED'')]) = Some (''APPROVED'', None)"
    by (simp add: process_body_def required_def optional_def read_text_def)
  ultimately have "site_approved = finalized ?e ?d ?r ?x ?u ''APPROVED'' None"
    by (simp add: site_approved_def process_request_step_def respond_snd transact_Inr)
  from arg_cong [OF this, of db_execs] have "db_execs site_approved = closed_execs ?e ?d ?x ?u ''APPROVED'' None"
    by (simp only: finalized_fields)
  then have "db_execs site_approved = [close_exec (user_id ?u) ''APPROVED'' None (srv_now ?e) ?x]"
    unfolding closed_execs_def tables by simp
  then show ?thesis by simp
qed

lemma site_accountability_witness:
  "\<exists>x u. db_execs site_approved = [x] \<and> ex_completed_at x \<noteq> None \<and> u \<in> {admin_account, clerk_account} \<and>
     ex_assigned_to x = Some (user_id u) \<and> (\<exists>s \<in> set (db_steps site_approved). sd_id s = uid 1 \<and> step_allowed (as_user u) s)"
proof -
  obtain x where x: "db_execs site_approved = [x]" "ex_completed_at x \<noteq> None" "ex_step_id x = uid 1"
    using site_approved_execs by blast
  from site_accountability [OF site_approved_reached] x show ?thesis by auto
qed

end
