(* ===== verification/AppSettings.thy ===== *)
theory AppSettings
  imports Prelude "HOL-Library.Sublist"
begin

text \<open>
  The settings (\<open>app/core/config.py\<close>) that the backend rewrites when it starts, and the state of the request
  middleware (\<open>app/main.py\<close>): the list of origins that CORS admits, which grows while the server runs, and the
  answer to a crash. Reading the environment, and the CORS middleware of the framework, are outside.
\<close>

section \<open>Settings\<close>

record app_settings =
  DATABASE_URL :: string
  SECRET_KEY :: string
  ENVIRONMENT :: string
  BACKEND_CORS_ORIGINS :: "string list"

definition is_production :: "app_settings \<Rightarrow> bool" where
  "is_production s \<longleftrightarrow> to_lower (ENVIRONMENT s) = ''production''"

text \<open>The start is warned about, and goes on.\<close>

definition default_key_in_production :: "app_settings \<Rightarrow> bool" where
  "default_key_in_production s \<longleftrightarrow> is_production s \<and> SECRET_KEY s = ''your-secret-key-change-this-in-production''"

text \<open>\<open>needle in text\<close>, and \<open>replace(.., 1)\<close> of a prefix.\<close>

definition contains :: "string \<Rightarrow> string \<Rightarrow> bool" where
  "contains needle t = sublist needle t"

definition postgres_scheme :: "string \<Rightarrow> string" where
  "postgres_scheme url = (if prefix ''postgres://'' url then ''postgresql://'' @ drop (length ''postgres://'') url else url)"

definition require_ssl :: "string \<Rightarrow> string" where
  "require_ssl url =
     (if \<not> contains ''localhost'' url \<and> \<not> contains ''127.0.0.1'' url then
        (if \<not> contains ''sslmode='' url
         then url @ (if contains ''?'' url then ''&'' else ''?'') @ ''sslmode=require'' else url)
      else url)"

definition model_post_init :: "app_settings \<Rightarrow> app_settings" where
  "model_post_init s = s\<lparr>DATABASE_URL := require_ssl (postgres_scheme (DATABASE_URL s))\<rparr>"

lemma prefix_before: "prefix p (xs @ c # ys) \<Longrightarrow> c \<notin> set p \<Longrightarrow> prefix p xs"
proof (induction xs arbitrary: p)
  case (Cons x xs)
  then show ?case by (cases p) auto
qed (auto simp: prefix_Cons)

lemma postgres_scheme_done: "\<not> prefix ''postgres://'' (postgres_scheme url)"
  by (simp add: postgres_scheme_def)

lemma require_ssl_set: "contains ''localhost'' url \<or> contains ''127.0.0.1'' url \<or> contains ''sslmode='' (require_ssl url)"
proof -
  have "contains ''sslmode='' (t @ ''sslmode=require'')" for t
    unfolding contains_def by (intro sublist_order.order_trans [OF _ sublist_append_leftI]) simp
  from this [of "url @ ''&''"] this [of "url @ ''?''"] show ?thesis by (auto simp: require_ssl_def)
qed

text \<open>A start changes settings that were already rewritten no further: they are as a restart finds them.\<close>

lemma require_ssl_idem: "require_ssl (require_ssl url) = require_ssl url"
  using require_ssl_set [of url] by (auto simp: require_ssl_def [of "require_ssl url"]) (simp_all add: require_ssl_def)

lemma require_ssl_scheme: "\<not> prefix ''postgres://'' url \<Longrightarrow> \<not> prefix ''postgres://'' (require_ssl url)"
  using prefix_before [of "''postgres://''" url] unfolding require_ssl_def by (auto simp del: prefix_code)

lemma model_post_init_idem: "model_post_init (model_post_init s) = model_post_init s"
proof -
  let ?u = "postgres_scheme (DATABASE_URL s)"
  have "postgres_scheme (require_ssl ?u) = require_ssl ?u"
    using require_ssl_scheme [OF postgres_scheme_done] by (simp add: postgres_scheme_def [of "require_ssl ?u"])
  then show ?thesis by (simp add: model_post_init_def require_ssl_idem)
qed

text \<open>
  Every address that does not mention a local host asks for TLS; so does that of the container \<open>db\<close> of
  \<open>docker-compose.yml\<close>, whose server has none, and a remote address whose database is named after localhost
  does not.
\<close>

lemma remote_requires_tls:
  "contains ''localhost'' (DATABASE_URL (model_post_init s)) \<or> contains ''127.0.0.1'' (DATABASE_URL (model_post_init s)) \<or>
   contains ''sslmode='' (DATABASE_URL (model_post_init s))"
  using require_ssl_set [of "postgres_scheme (DATABASE_URL s)"] by (auto simp: model_post_init_def require_ssl_def)

lemma settings_examples:
  "require_ssl (postgres_scheme ''postgres://u:p@db.host/flow'') = ''postgresql://u:p@db.host/flow?sslmode=require''"
  "require_ssl ''postgresql://user:password@db:5432/workflow_db'' = ''postgresql://user:password@db:5432/workflow_db?sslmode=require''"
  "require_ssl ''postgresql://u:p@db.host/localhost_copy'' = ''postgresql://u:p@db.host/localhost_copy''"
  by code_simp+

section \<open>Request middleware\<close>

text \<open>\<open>dynamic_cors\<close>: the \<open>Origin\<close> header of every request.\<close>

definition dynamic_cors :: "string option \<Rightarrow> app_settings \<Rightarrow> app_settings" where
  "dynamic_cors header s = (case header of
     None \<Rightarrow> s
   | Some origin \<Rightarrow>
       if origin \<noteq> '''' \<and> contains ''.onrender.com'' origin
       then if origin \<notin> set (BACKEND_CORS_ORIGINS s) then s\<lparr>BACKEND_CORS_ORIGINS := BACKEND_CORS_ORIGINS s @ [origin]\<rparr> else s
       else s)"

definition origins_after :: "string option list \<Rightarrow> app_settings \<Rightarrow> string list" where
  "origins_after hs s = BACKEND_CORS_ORIGINS (fold dynamic_cors hs s)"

text \<open>\<open>add_cors_headers_on_error\<close>: status, whether the message of the exception is sent, the admitted origin.\<close>

definition crash_answer :: "string option \<Rightarrow> string \<Rightarrow> nat \<times> string \<times> string" where
  "crash_answer header message = (500, message, case header of None \<Rightarrow> ''*'' | Some origin \<Rightarrow> if origin = '''' then ''*'' else origin)"

lemma dynamic_cors_origins:
  "BACKEND_CORS_ORIGINS (dynamic_cors h s) = BACKEND_CORS_ORIGINS s @
     (case h of None \<Rightarrow> [] | Some t \<Rightarrow> if contains ''.onrender.com'' t \<and> t \<notin> set (BACKEND_CORS_ORIGINS s) then [t] else [])"
  by (auto simp: dynamic_cors_def contains_def split: option.split)

text \<open>After any requests the list holds its configured origins, in front, and without repetition the origins
  seen that mention the host anywhere.\<close>

lemma origins_after_requests:
  "\<exists>new. origins_after hs s = BACKEND_CORS_ORIGINS s @ new \<and> distinct new \<and>
     set (origins_after hs s) = set (BACKEND_CORS_ORIGINS s) \<union> {t. Some t \<in> set hs \<and> contains ''.onrender.com'' t}"
proof (induction hs rule: rev_induct)
  case (snoc h hs)
  then obtain new where n: "origins_after hs s = BACKEND_CORS_ORIGINS s @ new" "distinct new"
    "set (origins_after hs s) = set (BACKEND_CORS_ORIGINS s) \<union> {t. Some t \<in> set hs \<and> contains ''.onrender.com'' t}" by blast
  have h: "origins_after (hs @ [h]) s = origins_after hs s @ (case h of None \<Rightarrow> []
      | Some t \<Rightarrow> if contains ''.onrender.com'' t \<and> t \<notin> set (origins_after hs s) then [t] else [])"
    unfolding origins_after_def by (simp add: dynamic_cors_origins)
  show ?case
  proof (cases h)
    case None
    with h n show ?thesis by auto
  next
    case (Some t)
    show ?thesis
    proof (cases "contains ''.onrender.com'' t \<and> t \<notin> set (origins_after hs s)")
      case True
      then have "origins_after (hs @ [h]) s = BACKEND_CORS_ORIGINS s @ (new @ [t])" using h Some n(1) by simp
      moreover have "distinct (new @ [t])" using True n(1,2) by simp
      moreover have "set (origins_after (hs @ [h]) s) =
          set (BACKEND_CORS_ORIGINS s) \<union> {t. Some t \<in> set (hs @ [h]) \<and> contains ''.onrender.com'' t}"
        using True h Some n(3) by auto
      ultimately show ?thesis by blast
    next
      case False
      then have "origins_after (hs @ [h]) s = origins_after hs s" using h Some by simp
      moreover have "{t. Some t \<in> set (hs @ [h]) \<and> contains ''.onrender.com'' t} \<subseteq> set (origins_after hs s)"
        using False Some n(3) by auto
      ultimately show ?thesis using n by auto
    qed
  qed
qed (simp add: origins_after_def)

text \<open>A foreign site that mentions the host in its name is admitted from its first request on.\<close>

lemma spoofed_origin: "''https://x.onrender.com.evil.org'' \<in> set (origins_after [Some ''https://x.onrender.com.evil.org''] s)"
proof -
  have "contains ''.onrender.com'' ''https://x.onrender.com.evil.org''" by code_simp
  then show ?thesis using origins_after_requests [of "[Some ''https://x.onrender.com.evil.org'']" s] by auto
qed

end
