(* ===== verification/Spec2Isabelle.thy ===== *)
theory Spec2Isabelle
  imports Composition WorkflowsPage LoginPage DashboardLayout DashboardPage AdminPages JsonText SlaMonitor Notifications LoginFlow Primitives AccountListing StartFlow Site AppSettings
begin

text \<open>
  NexusFlow, a workflow automation platform: a Next.js frontend (\<open>src/frontend/src\<close>, TypeScript) whose
  pages call the HTTP API of a FastAPI backend (\<open>src/app\<close>, Python), which keeps workflow definitions,
  requests and their step executions in a SQL database, hands notifications to a task broker and scans
  for overdue steps. An administrator defines a workflow, a user starts a request of it, the users whom its
  steps allow decide them one after the other, and the request completes.

  \<^bold>\<open>How the program runs in the model.\<close> A page is a record of its code (\<open>page\<close> in \<open>Runtime\<close>): the
  initial state, the effect on mount, the handlers, what it renders. \<open>perform\<close> runs one event: a click on a
  control that is rendered, a change of a field, the answer or failure of a pending call, a timer. Handlers
  are synchronous and end in effects (calls, token, navigation, alerts, timers); a call stays pending in
  \<open>inflight\<close> until an event answers it, in any order, so every interleaving of answers with the user's
  actions is a run, and \<open>reaches\<close> is the set of states of all runs. The backend is a state \<open>db\<close> of tables
  and operations \<open>'a op\<close> that return a failure or a result together with the session's state;
  \<open>transact\<close> commits or rolls back as a request does. Time, row order, database dialect and broker are
  the record \<open>server\<close>, given anew to each call. \<open>platform\<close> is the set of states that the endpoints and the
  periodic task reach from an empty database.

  \<^bold>\<open>Theories, in the order of the code.\<close> Shared:
  \<^item> \<open>Prelude\<close> (results, ASCII text, lists), \<open>Json\<close> (untyped values, JavaScript and Python truthiness),
    \<open>JsonText\<close> (the standard library's \<open>JSON.parse\<close> and \<open>JSON.stringify\<close>, which the blueprint editor uses, with
    the round trip between them),
    \<open>Schemas\<close> (the response models of \<open>app/schemas\<close> as the frontend reads them).

  Frontend, one theory per source file:
  \<^item> \<open>ApiClient\<close>: \<open>lib/api.ts\<close>, the interceptors. \<open>View\<close>: what is rendered. \<open>Runtime\<close>: the page machine
    and the locale \<open>page_invariant\<close>, interpreted by each page on its own invariant.
  \<^item> \<open>LoginPage\<close>: \<open>app/page.tsx\<close>. \<open>DashboardLayout\<close>: \<open>components/layout/DashboardLayout.tsx\<close>.
    \<open>DashboardPage\<close>: \<open>app/dashboard/page.tsx\<close>. \<open>TasksPage\<close>: \<open>app/tasks/page.tsx\<close>.
  \<^item> \<open>WorkflowsPage\<close>: \<open>app/workflows/page.tsx\<close>. \<open>Blueprint\<close>: the payload building of both editors, as the code
    runs it and as a specification (\<open>blueprint_ok\<close>, \<open>payload_sent\<close>), which the locale \<open>role_lookup\<close> relates; it is
    interpreted on the lookup of a role by name and on that by name or identifier.
    \<open>CreateWorkflowPage\<close>: \<open>app/admin/workflows/create/page.tsx\<close>.
  \<^item> \<open>RequestPages\<close>: \<open>app/requests/page.tsx\<close>, \<open>app/requests/[id]/page.tsx\<close> and
    \<open>app/instances/[id]/page.tsx\<close>. \<open>AdminPages\<close>: \<open>app/admin/page.tsx\<close>,
    \<open>app/admin/workflows/page.tsx\<close> and \<open>app/notifications/page.tsx\<close>.
  \<^item> \<open>Primitives\<close>: \<open>components/ui/Card.tsx\<close>, \<open>components/ui/Portal.tsx\<close> and \<open>app/layout.tsx\<close>, the wrappers that
    the views of the pages leave out.

  Backend:
  \<^item> \<open>Database\<close>: the tables of \<open>app/db/models\<close>, sessions, constraints, queries. \<open>StateMachine\<close>, \<open>Rbac\<close>:
    the services of those names. \<open>Conditions\<close>: the condition evaluator of the engine.
  \<^item> \<open>Engine\<close>: \<open>app/services/workflow_engine.py\<close> and \<open>audit_service.py\<close>; \<open>EngineInvariant\<close> is the
    well-formedness of a committed database and its preservation, \<open>EngineProperties\<close> the behaviour of
    \<open>start_workflow\<close> and \<open>process_step\<close> on every branch. \<open>Transactions\<close> is the locale of operations that
    run in a transaction of their own, interpreted on the engine, the service and the scan.
  \<^item> \<open>WorkflowService\<close>: \<open>app/services/workflow_service.py\<close> and the input models;
    \<open>ServiceProperties\<close> states its contract over \<open>stored_workflow\<close>, the abstraction of the tables to the
    input. \<open>SlaMonitor\<close>: \<open>app/services/sla_monitor.py\<close> and its task.
  \<^item> \<open>Endpoints\<close>: \<open>app/api/v1/endpoints\<close> with the status codes of \<open>app/core/errors.py\<close>;
    \<open>EndpointProperties\<close> their properties.
  \<^item> \<open>Uuids\<close>: \<open>uuid.UUID\<close> and \<open>str\<close>, with the round trip. \<open>Accounts\<close>: \<open>app/db/models/user.py\<close>,
    \<open>app/core/security.py\<close>, \<open>app/api/deps.py\<close> and the endpoints of login, users, roles and permissions;
    \<open>AccountProperties\<close> what they guarantee over every run of calls, \<open>AccountListing\<close> that the stored accounts
    fit the response model unless a name does not. The tables of the accounts are a
    state of their own (\<open>accounts\<close>), which the engine reads as \<open>user_row\<close>.
  \<^item> \<open>Notifications\<close>: \<open>app/tasks/notifications.py\<close> and \<open>app/services/notification.py\<close>, the worker that takes
    the messages of the engine and mails them.
  \<^item> \<open>AppSettings\<close>: \<open>app/core/config.py\<close> and the middleware of \<open>app/main.py\<close>: the address of the database after
    the start, and the origins that are admitted after any requests.
  \<^item> \<open>Sample\<close>: a small database that the witnesses use.

  Composition:
  \<^item> \<open>Chain\<close> and \<open>ChainProperties\<close>: an abstract machine with a position in a list of steps, which the
    engine refines on linear workflows, the kind the editors create; termination and completion.
  \<^item> \<open>Platform\<close>: the calls of the API in any order; the invariant of all reachable states, and what no
    later call undoes. \<open>Site\<close>: the same calls by authenticated accounts, between calls to the account
    endpoints, and who stands behind each row.
  \<^item> \<open>LoginFlow\<close>: the login form, the login endpoint and the session in the browser. \<open>StartFlow\<close>: the
    dashboard's form, the request endpoint and the task lists.
  \<^item> \<open>Composition\<close> and this theory: the pages on the backend's answers and the backend on the pages' bodies.

  \<^bold>\<open>What the lemmas show.\<close> Per page: a state invariant over all runs (one call in flight at a time where the
  code guards it), what a submit sends, and what the page shows after late or failed answers. Per service:
  results and failures of every branch, and that a failure leaves the tables as they were. Across components:
  a request is always in progress with exactly one open execution or completed with none; logs only grow;
  every decision was made by an account that the step admits, with its entry in the audit log; a
  workflow built in the wizard is stored with its steps and completes after one approval each; a login
  opens a session of its account until the token expires, and no call makes anyone an administrator. Where
  the code does not do what it means to (the task page's decisions, the filter names, the accepted empty
  name), the theorem states what it does.

  \<^bold>\<open>Bounds and fuel.\<close> Nothing uses fuel: every loop of the code recurs on a list or on text, and the
  functions whose recursion is not structural, the expansion of a \<open>replace\<close> template and the removal of a
  text, have the length of the text as their measure. Decimal fractions are printed up to 400 digits. Python
  integers are \<open>int\<close>; the columns' 32 and 64 bit ranges are checked when a session flushes; a deadline beyond year 9999 is an overflow error; the engine compares numbers as doubles, which
  \<open>Conditions\<close> models with their rounding, exact up to \<open>2 ^ 53\<close>. A UUID is drawn as a 128-bit word.

  \<^bold>\<open>Parameters.\<close> Code outside the repository is an argument: the reading of texts by Pydantic (\<open>codec\<close>), the
  browser's clock, random numbers and check of an email field (\<open>js_env\<close>), the database's order of rows, the
  values that its driver takes for a text (\<open>srv_text\<close>), the broker, bcrypt, JWT and
  the check of addresses (\<open>security\<close>), the reading of form bodies, SMTP (\<open>mailer\<close>), the merging of class names.
  The hypotheses on it are named (\<open>codec_ok\<close>, \<open>token_ok\<close>, \<open>password_ok\<close>, \<open>bearer_ok\<close>, \<open>form_reader_ok\<close>, an injective
  supply of identifiers) and instantiated in the witnesses.

  \<^bold>\<open>Not modelled.\<close> Constant class lists and animation of the pages; text outside ASCII in case conversion
  and lengths; the wording of error messages of the backend (what the pages read of a failed answer is its
  status and a text); pages of a listing with a negative offset or limit; concurrent database sessions (each call is a
  transaction of its own) and failures of the database connection; SMTP and the templates; logging,
  routing, the framework's CORS, migrations, scripts and tests, which keep no state of the program.
\<close>

section \<open>From the constructor to a completed request\<close>

text \<open>
  C1. End to end: when the wizard of the constructor submits a workflow and the backend accepts the body
  that the browser sends, the stored workflow is linear, with the wizard's steps under their names and
  with their SLA hours; and every request started of it is completed by one approval per step, each by a
  user whom the step allows.
\<close>

theorem wizard_workflow_completes:
  assumes "reaches wizard_page s" and "wz_mode (st s) = Wizard" and "distinct (map ws_tempId (wz_workflowSteps (st s)))"
    and "perform wizard_page env (Click Submit) s = Some s'" and "rq_body (last (br_sent (br s'))) = JsonBody body"
    and "codec_ok cd" and "platform e d" and "post_workflow e cd u body d = (Success (Some w), d')"
  shows "\<exists>ss. linear d' (wo_id w) ss \<and> map sd_name ss = map ws_name (wz_workflowSteps (st s)) \<and>
    map sd_sla_hours ss = map (\<lambda>s. int (ws_sla_hours s)) (wz_workflowSteps (st s)) \<and>
    (\<forall>v data i d1 rulings. transact (start_workflow e (wo_id w) v data) d' = (Inr i, d1) \<and> list_all2 (approval e ss) rulings ss \<longrightarrow>
      (\<exists>r. get_row rq_id i (db_requests (decisions e i rulings d1)) = Some r \<and> rq_status r = COMPLETED))"
proof -
  have click: "Submit \<in> set (clicks (wizard_view env (st s)))" using assms(4) by (simp split: if_splits)
  note sub = wizard_submitted [OF assms(1,2) click assms(3)]
  have body: "body = wizard_body (st s)" using sub(3) assms(4,5) by (auto simp: make_request_def)
  have c: "committed e d" and ok: "engine_ok d" using platform_committed [OF assms(7)] by (simp_all add: committed_def)
  obtain wi where wi: "WorkflowCreate cd body = Some wi" "workflow_accepted e d wi"
    and w: "wo_id w = db_uuid d (db_drawn d)" "d' = created e d wi (user_id u)"
    by (rule post_workflow_Success [OF assms(8)]) (use c in \<open>simp_all add: committed_def\<close>)
  have chain: "chain_input wi" "map si_name (wi_steps wi) = map ws_name (wz_workflowSteps (st s))"
    "map si_sla_hours (wi_steps wi) = map (\<lambda>s. int (ws_sla_hours s)) (wz_workflowSteps (st s))"
    using wizard_body_chain [OF assms(6) _ _ wi(1) [unfolded body sub(2)]] sub(1) by simp_all
  let ?ss = "created_steps d wi"
  have l: "linear d' (wo_id w) ?ss" using created_linear [OF ok chain(1)] w by simp
  have f: "map sd_name ?ss = map si_name (wi_steps wi)" "map sd_sla_hours ?ss = map si_sla_hours (wi_steps wi)"
    unfolding created_steps_def by (rule nth_equalityI; simp add: step_rows_nth)+
  have c': "committed e d'" using created_committed [OF c wi(2)] w(2) by simp
  show ?thesis
    using l f chain(2,3) started_approvals [OF c' l] by (intro exI [of _ ?ss]) (auto, blast)
qed

lemma wizard_workflow_completes_witness:
  "\<exists>s w d' ss. reaches wizard_page s \<and> post_workflow (sample_server (\<lambda>m. True)) sample_codec admin_user (wizard_body (st s)) (empty_db uid) = (Success (Some w), d') \<and>
    linear d' (wo_id w) ss \<and> map sd_name ss = [''Step 1'']"
proof -
  let ?e = "sample_server (\<lambda>m. True)"
  obtain s where s: "reaches wizard_page s" "wz_mode (st s) = Wizard" "Submit \<in> set (clicks (wizard_view sample_env (st s)))"
    "wz_workflowSteps (st s) = [only_node]" "wz_name (st s) = ''Leave''" "wz_description (st s) = ''''"
    by (rule constructor_run)
  have d: "distinct (map ws_tempId (wz_workflowSteps (st s)))" by (simp add: s(4))
  note sub = wizard_submitted [OF s(1-3) d]
  obtain s' where s': "perform wizard_page sample_env (Click Submit) s = Some s'"
    "rq_body (last (br_sent (br s'))) = JsonBody (wizard_body (st s))"
    using sub(3) by (auto simp: make_request_def)
  have p: "platform ?e (empty_db uid)" by (rule platform.start [OF inj_uid])
  have "WorkflowCreate sample_codec (wizard_body (st s)) = Some constructed_input"
    using constructed_read by (simp add: sub(2) s(4-6))
  then have "\<exists>w. fst (post_workflow ?e sample_codec admin_user (wizard_body (st s)) (empty_db uid)) = Success (Some w)"
    using create_workflow_run [of ?e "empty_db uid" constructed_input "user_id admin_user"] constructed_accepted
      platform_committed [OF p] admin_user_admin
    by (simp add: post_workflow_def respond_def transact_check_role check_role_admin is_admin_role transact_Inr committed_def empty_db_def
        workflow_response_def get_row_def created_workflow_def)
  then obtain w d' where r: "post_workflow ?e sample_codec admin_user (wizard_body (st s)) (empty_db uid) = (Success (Some w), d')"
    by (cases "post_workflow ?e sample_codec admin_user (wizard_body (st s)) (empty_db uid)") auto
  from wizard_workflow_completes [OF s(1,2) d s' sample_codec_ok p r]
  obtain ss where "linear d' (wo_id w) ss" "map sd_name ss = map ws_name (wz_workflowSteps (st s))" by blast
  moreover from this(2) have "map sd_name ss = [''Step 1'']" by (simp only: s(4)) (simp add: only_node_def)
  ultimately show ?thesis using s(1) r by (intro exI conjI)
qed

section \<open>Deciding from the pages\<close>

text \<open>
  C29. On PostgreSQL no decision of the task page succeeds: in every state of the platform and every
  session of the page, a click on approve or reject sends a decision that the backend refuses with status
  400 or 500, for any user, and no table changes.
\<close>

theorem task_page_decisions_fail:
  assumes "platform e d" and "srv_strict e" and "reaches tasks_page s" and "perform tasks_page env (Click (Decide a)) s = Some s'"
  shows "\<exists>i body. last (br_sent (br s')) =
      intercept_request (br s) (make_request POST (''/workflow-instances/'' @ i @ ''/decision'') (JsonBody body)) \<and>
    fst (make_decision e u i body d) \<in> {Failed 400, Failed 500} \<and> same_tables d (snd (make_decision e u i body d))"
proof -
  have "Decide a \<in> set (clicks (tasks_view env (st s)))" using assms(4) by (simp split: if_splits)
  from decision_sent [OF assms(3) this] obtain t :: task_out and s2 where "perform tasks_page env (Click (Decide a)) s = Some s2"
    and sent: "br_sent (br s2) = br_sent (br s) @ [intercept_request (br s) (make_request POST
      (''/workflow-instances/'' @ tk_request_id t @ ''/decision'')
      (JsonBody (JObj [(''action'', JStr (decision_text a)), (''comment'', JStr (ts_comment (st s)))])))]" by blast
  then have "s2 = s'" using assms(4) by simp
  with sent have "last (br_sent (br s')) = intercept_request (br s) (make_request POST
      (''/workflow-instances/'' @ tk_request_id t @ ''/decision'')
      (JsonBody (JObj [(''action'', JStr (decision_text a)), (''comment'', JStr (ts_comment (st s)))])))" by simp
  with page_decision_fails [OF platform_committed [OF assms(1)] assms(2), of u "tk_request_id t" a "ts_comment (st s)"]
  show ?thesis by blast
qed

lemma task_page_decisions_fail_witness:
  "\<exists>s s' i body. reaches tasks_page s \<and> perform tasks_page TasksPage.sample_env (Click (Decide Approve)) s = Some s' \<and>
    same_tables (leave_started admin_user) (snd (make_decision (sample_server (\<lambda>m. True)) admin_user i body (leave_started admin_user))) \<and>
    rq_url (last (br_sent (br s'))) = ''/workflow-instances/'' @ i @ ''/decision''"
proof -
  obtain s where s: "perform_all tasks_page sample_events (mounted tasks_page new_browser) = Some s"
    and st: "st s = sample_tasks_state\<lparr>ts_selected := Some (sample_task ''a'')\<rparr>"
    using sample_events_run by blast
  have r: "reaches tasks_page s" by (rule reaches_perform_all [OF reaches.mount s])
  have "Decide Approve \<in> set (clicks (tasks_view TasksPage.sample_env (st s)))"
    by (simp add: st tasks_clicks sample_tasks_state_def tasks_init_def)
  with decision_sent [OF r] obtain s' where s': "perform tasks_page TasksPage.sample_env (Click (Decide Approve)) s = Some s'" by blast
  have "platform (sample_server (\<lambda>m. True)) (leave_started admin_user)"
    by (rule later_platform [OF leave_later leave_platform [OF admin_user_admin]])
  from task_page_decisions_fail [OF this _ r s', of admin_user] r s' show ?thesis
    by (fastforce simp: make_request_def)
qed

text \<open>
  C30. The request page never offers a decision: as long as its answers come from the backend, whose
  response model has no steps, no control is offered in any session of the page, and no decision is
  ever sent.
\<close>

theorem decision_console_never_offered:
  assumes "perform_all (detail_page i) events (mounted (detail_page i) b) = Some s" and "list_all (\<lambda>x. served (snd x)) events"
  shows "clicks (detail_view env (st s)) = [] \<and> PostProcess \<notin> set (inflight s)"
proof -
  have "stepless (st s') \<and> PostProcess \<notin> set (inflight s')"
    if "perform_all (detail_page i) xs s0 = Some s'" "list_all (\<lambda>x. served (snd x)) xs" "stepless (st s0)" "PostProcess \<notin> set (inflight s0)"
    for xs s0 s'
    using that
  proof (induction xs arbitrary: s0)
    case (Cons x xs)
    then obtain s1 where "perform (detail_page i) (fst x) (snd x) s0 = Some s1" "perform_all (detail_page i) xs s1 = Some s'"
      by (cases x) (auto split: option.splits)
    with Cons stepless_perform [of s0 "snd x" i "fst x" s1] show ?case by simp
  qed simp
  from this [OF assms] have "stepless (st s) \<and> PostProcess \<notin> set (inflight s)"
    by (simp add: detail_mount_def detail_init_def stepless_def mounted_def)
  with stepless_clicks show ?thesis by blast
qed

lemma decision_console_never_offered_witness:
  "\<exists>s. perform_all (detail_page (uid 5)) [(sample_request_env, Ok FetchRequest (RequestData (WorkflowRequestSchema (Sample.sample_request 5 2))))]
      (mounted (detail_page (uid 5)) new_browser) = Some s \<and>
    rd_request (st s) = Some (WorkflowRequestSchema (Sample.sample_request 5 2)) \<and> clicks (detail_view sample_request_env (st s)) = []"
proof -
  let ?xs = "[(sample_request_env, Ok FetchRequest (RequestData (WorkflowRequestSchema (Sample.sample_request 5 2))))]"
  obtain s where s: "perform_all (detail_page (uid 5)) ?xs (mounted (detail_page (uid 5)) new_browser) = Some s"
    "rd_request (st s) = Some (WorkflowRequestSchema (Sample.sample_request 5 2))"
    by (simp add: mounted_def detail_mount_def detail_ok_def)
  have "list_all (\<lambda>x. served (snd x)) ?xs" by (simp add: schema_served)
  from decision_console_never_offered [OF s(1) this] s show ?thesis by blast
qed

section \<open>From the login page to an authenticated call\<close>

text \<open>
  C6. End to end: when the login page submits its form and the backend answers with a token, the browser
  keeps it, and each API call that it sends afterwards is authenticated as the account whose address and
  password the user typed, whatever other calls changed in between, until the token expires; then the call
  is answered with a 401, which ends the session in the browser.
\<close>

theorem login_opens_session:
  assumes "perform login_page env (Click SubmitLogin) s = Some s1" and "rq_body (last (br_sent (br s1))) = FormBody body"
    and "form_reader_ok form" and "bearer_ok sec" and "token_ok sec" and "accounts_ok (ac_users ac)"
    and "post_login form sec e body ac = Success t" and "tok_access_token t \<noteq> ''''" and "accounts_later sec cd ac ac'"
  shows "\<exists>s2 u v. perform login_page env' (Ok LoginCall (tok_access_token t)) s1 = Some s2 \<and>
    u \<in> set (ac_users ac) \<and> user_email u = lg_email (st s) \<and> verify_password sec (lg_password (st s)) (user_password_hash u) \<and>
    v \<in> set (ac_users ac') \<and> same_account u v \<and>
    (\<forall>m url b now. get_current_user sec now (authorization (last (br_sent (send m url b (br s2))))) (ac_users ac') =
      (if now \<le> srv_now e + 60 * sec_minutes sec then Inr v else Inl (HttpException 401))) \<and>
    (fl_status x = Some (http_status (HttpException 401)) \<longrightarrow> br_token (intercept_error x (br s2)) = None \<and> br_location (intercept_error x (br s2)) = ''/'')"
proof -
  note sub = login_submitted [OF assms(1)]
  have "form body = [(''username'', lg_email (st s)), (''password'', lg_password (st s))]"
    using assms(2,3) sub(1) unfolding form_reader_ok_def by (simp del: form_text.simps) metis
  then have l: "login_access_token sec e (lg_email (st s)) (lg_password (st s)) ac = Success t"
    using assms(7) sub(2,3) by (simp add: post_login_def)
  obtain s2 where s2: "perform login_page env' (Ok LoginCall (tok_access_token t)) s1 = Some s2" "br_token (br s2) = Some (tok_access_token t)"
    by (rule login_answered [OF sub(4)])
  show ?thesis
    by (rule session_of_login [OF assms(6,4,5) l assms(9)])
      (use s2 assms(8) in \<open>auto simp: authorization_sent intercept_error_def http_status_def\<close>)
qed

lemma login_opens_session_witness:
  "\<exists>s1 s2 (t :: token_out) v. reaches login_page s1 \<and> perform login_page sample_env (Ok LoginCall (tok_access_token t)) s1 = Some s2 \<and>
     get_current_user sample_security 2800 (authorization (last (br_sent (send GET ''users/me'' NoBody (br s2))))) (ac_users prefilled_accounts) = Inr v"
proof -
  let ?s = "mounted login_page new_browser" and ?e = "sample_server (\<lambda>m. True)"
  have st: "lg_email (st ?s) = ''manager@example.com''" "lg_password (st ?s) = ''manager123''" "\<not> lg_loading (st ?s)"
    by (simp_all add: mounted_def login_init_def)
  then obtain s1 where s1: "perform login_page sample_env (Click SubmitLogin) ?s = Some s1" by (simp add: login_clicks sample_env_def)
  obtain body where body: "rq_body (last (br_sent (br s1))) = FormBody body" "body = form_text [(''username'', ''manager@example.com''), (''password'', ''manager123'')]"
    by (rule that [OF login_submitted(1) [OF s1, unfolded st] refl])
  have "form_decode body = [(''username'', ''manager@example.com''), (''password'', ''manager123'')]"
    using form_decode_ok unfolding form_reader_ok_def body(2) by blast
  moreover obtain t where t: "tok_access_token t \<noteq> ''''"
    "login_access_token sample_security ?e ''manager@example.com'' ''manager123'' prefilled_accounts = Success t"
    using prefilled_login by blast
  ultimately have p: "post_login form_decode sample_security ?e body prefilled_accounts = Success t" by (simp add: post_login_def)
  obtain s2 v where s2: "perform login_page sample_env (Ok LoginCall (tok_access_token t)) s1 = Some s2"
    and v: "\<forall>m url b now. get_current_user sample_security now (authorization (last (br_sent (send m url b (br s2))))) (ac_users prefilled_accounts) =
      (if now \<le> srv_now ?e + 60 * sec_minutes sample_security then Inr v else Inl (HttpException 401))"
    using login_opens_session [OF s1 body(1) form_decode_ok sample_laws(1,2) prefilled_ok p t(1) accounts_later.start [of sample_security plain_codec], of sample_env]
    by blast
  have "srv_now ?e + 60 * sec_minutes sample_security = 2800" by (simp add: sample_security_def)
  with v have "get_current_user sample_security 2800 (authorization (last (br_sent (send GET ''users/me'' NoBody (br s2))))) (ac_users prefilled_accounts) = Inr v"
    by simp
  with s2 reaches.event [OF reaches.mount s1] show ?thesis by blast
qed

end
